(* ===== verification/Prelude.thy ===== *)
theory Prelude
  imports Main "HOL-Library.Word" "HOL-Library.AList" "HOL-Library.Sublist"
    "HOL-Library.List_Lexorder" "HOL-Library.Char_ord"
begin

text \<open>
  Shared vocabulary of the development: the outcome of a Go call, the errors the broker's
  packages return, the sequencing of calls that thread a state, and the generic lemmas on lists,
  association lists and prefixes that the component theories use.

  A Go function that returns \<open>(T, error)\<close> and may panic is modelled by a value of type
  \<open>'a res\<close>; a function that also changes the state of the machine returns a pair of such a
  value and the new state, and \<open>io_bind\<close> is the usual
  \<open>if err != nil { return err }\<close> between two calls.
\<close>

named_theorems conf_simps \<open>lookup and update of redis.conf parameters\<close>
named_theorems fs_simps \<open>effects of the file-system calls, field by field\<close>
named_theorems frame_simps \<open>what an operation leaves alone\<close>
named_theorems path_simps \<open>resolution of joined paths\<close>

section \<open>Outcomes and errors\<close>

text \<open>Reasons for which the kernel refuses a system call whose path is fine.\<close>

datatype refusal = EACCES | EPERM | EIO | ENOSPC | EROFS

datatype errno = ENOENT | ENOTDIR | EISDIR | ENOTEMPTY | EINVAL | ESRCH | Refused refusal

text \<open>
  The error values of the repository: the OS errors wrapped in \<open>os.PathError\<close>, the
  \<open>strconv.NumError\<close> of a failed number conversion, the texts made by \<open>errors.New\<close> and
  \<open>fmt.Errorf\<close>, a text that \<open>fmt.Errorf\<close> puts before another error, the sentinel errors of
  the broker API, and the error replies of a Redis server or of S3.
\<close>

datatype gerror =
    PathError errno
  | NumError string
  | ErrorString string
  | Errorf string gerror
  | ErrInstanceAlreadyExists
  | ErrInstanceDoesNotExist
  | ErrInstanceLimitMet
  | ErrBindingDoesNotExist
  | RedisError string
  | S3Error int string

datatype 'a res = Ok 'a | Err gerror | Panic string

fun is_ok :: "'a res \<Rightarrow> bool" where
  "is_ok (Ok a) = True"
| "is_ok _ = False"

fun io_bind :: "'a res \<times> 'w \<Rightarrow> ('a \<Rightarrow> 'w \<Rightarrow> 'b res \<times> 'w) \<Rightarrow> 'b res \<times> 'w" where
  "io_bind (Ok a, w) f = f a w"
| "io_bind (Err e, w) f = (Err e, w)"
| "io_bind (Panic m, w) f = (Panic m, w)"

fun res_bind :: "'a res \<Rightarrow> ('a \<Rightarrow> 'b res) \<Rightarrow> 'b res" where
  "res_bind (Ok a) f = f a"
| "res_bind (Err e) f = Err e"
| "res_bind (Panic m) f = Panic m"

lemma is_ok_iff: "is_ok r \<longleftrightarrow> (\<exists>a. r = Ok a)"
  by (cases r) auto

lemma io_bind_Ok_iff:
  "io_bind p f = (Ok b, w') \<longleftrightarrow> (\<exists>a w. p = (Ok a, w) \<and> f a w = (Ok b, w'))"
  by (cases "(p, f)" rule: io_bind.cases) auto

lemma io_bind_assoc: "io_bind (io_bind p f) g = io_bind p (\<lambda>a w. io_bind (f a w) g)"
  by (cases "(p, f)" rule: io_bind.cases) auto

lemma res_bind_Ok_iff: "res_bind r f = Ok b \<longleftrightarrow> (\<exists>a. r = Ok a \<and> f a = Ok b)"
  by (cases r) auto

text \<open>
  A property of the state that every branch of the two calls keeps is kept by the sequence:
  the rule behind all the frame lemmas.
\<close>

lemma io_bind_state:
  assumes "P (snd p)" and "\<And>a w. p = (Ok a, w) \<Longrightarrow> P w \<Longrightarrow> P (snd (f a w))"
  shows "P (snd (io_bind p f))"
  using assms by (cases "(p, f)" rule: io_bind.cases) auto

section \<open>Lists, association lists and prefixes\<close>

lemma map_of_filter_key:
  "map_of (filter (\<lambda>kv. P (fst kv)) xs) k = (if P k then map_of xs k else None)"
  by (induction xs) auto

lemma distinct_fst_filter:
  "distinct (map fst xs) \<Longrightarrow> distinct (map fst (filter P xs))"
  by (induction xs) auto

lemma strict_prefix_snoc_iff: "strict_prefix p (q @ [x]) \<longleftrightarrow> prefix p q"
  by (auto simp: strict_prefix_def prefix_def append_eq_append_conv2 Cons_eq_append_conv
      append_eq_Cons_conv)

lemma prefix_butlast_strict: "q \<noteq> [] \<Longrightarrow> strict_prefix (butlast q) q"
  by (metis append_butlast_last_id strict_prefixI')

lemma takeWhile_all: "(\<And>x. x \<in> set xs \<Longrightarrow> P x) \<Longrightarrow> takeWhile P xs = xs"
  by (simp add: takeWhile_eq_all_conv)

end
