(* ===== verification/Go_Strings.thy ===== *)
theory Go_Strings
  imports Prelude
begin

text \<open>
  The part of Go's standard library on strings, numbers and paths that the broker uses:
  \<open>strings.Split\<close>, \<open>strings.SplitN\<close>, \<open>strings.TrimSpace\<close>, \<open>strings.Contains\<close>,
  \<open>strings.Replace\<close>, \<open>strings.ToUpper\<close>, \<open>strconv.Itoa\<close>, \<open>strconv.Atoi\<close>,
  \<open>strconv.ParseInt\<close>, \<open>bufio.ScanLines\<close>, \<open>path.Clean\<close> and \<open>path.Join\<close>.
  A Go string is a sequence of bytes, so it is a \<^typ>\<open>string\<close> here, one \<open>char\<close> per byte.
\<close>

section \<open>Splitting and joining\<close>

text \<open>\<open>strings.Split(s, sep)\<close> for a separator of one byte: never the empty list.\<close>

fun strings_Split :: "char \<Rightarrow> string \<Rightarrow> string list" where
  "strings_Split c [] = [[]]"
| "strings_Split c (x # xs) =
     (if x = c then [] # strings_Split c xs
      else (case strings_Split c xs of [] \<Rightarrow> [[x]] | y # ys \<Rightarrow> (x # y) # ys))"

text \<open>\<open>strings.Join(parts, sep)\<close>.\<close>

fun strings_Join :: "char \<Rightarrow> string list \<Rightarrow> string" where
  "strings_Join c [] = []"
| "strings_Join c [x] = x"
| "strings_Join c (x # y # ys) = x @ c # strings_Join c (y # ys)"

text \<open>\<open>strings.SplitN(s, sep, 2)\<close>.\<close>

definition strings_SplitN2 :: "char \<Rightarrow> string \<Rightarrow> string list" where
  "strings_SplitN2 c s =
     (case dropWhile (\<lambda>x. x \<noteq> c) s of
        [] \<Rightarrow> [s]
      | _ # rest \<Rightarrow> [takeWhile (\<lambda>x. x \<noteq> c) s, rest])"

lemma strings_Split_nonempty [simp]: "strings_Split c s \<noteq> []"
  by (induction s) (auto split: list.splits)

lemma strings_Split_notin [simp]: "c \<notin> set s \<Longrightarrow> strings_Split c s = [s]"
  by (induction s) auto

lemma strings_Split_append [simp]:
  "strings_Split c (a @ c # b) = strings_Split c a @ strings_Split c b"
proof (induction a)
  case Nil
  show ?case by simp
next
  case (Cons x a)
  then show ?case
    by (cases "strings_Split c a") (auto split: list.splits)
qed

lemma strings_Join_Split [simp]: "strings_Join c (strings_Split c s) = s"
proof (induction s)
  case Nil
  show ?case by simp
next
  case (Cons x s)
  then show ?case
    by (cases "(c, strings_Split c s)" rule: strings_Join.cases) auto
qed

lemma strings_Split_parts: "p \<in> set (strings_Split c s) \<Longrightarrow> c \<notin> set p"
proof (induction s arbitrary: p)
  case Nil
  then show ?case by simp
next
  case (Cons x s)
  then show ?case
    by (cases "strings_Split c s") (auto split: if_splits)
qed

lemma strings_Split_Join:
  "ps \<noteq> [] \<Longrightarrow> \<forall>p \<in> set ps. c \<notin> set p \<Longrightarrow> strings_Split c (strings_Join c ps) = ps"
  by (induction c ps rule: strings_Join.induct) auto

lemma strings_SplitN2_split:
  assumes "c \<notin> set k"
  shows "strings_SplitN2 c (k @ c # v) = [k, v]"
proof -
  from assms have "\<forall>x \<in> set k. x \<noteq> c" by auto
  then show ?thesis by (simp add: strings_SplitN2_def)
qed

lemma strings_SplitN2_notin:
  assumes "c \<notin> set s"
  shows "strings_SplitN2 c s = [s]"
proof -
  from assms have "dropWhile (\<lambda>x. x \<noteq> c) s = []" by auto
  then show ?thesis unfolding strings_SplitN2_def by (simp only: list.case)
qed

lemma strings_SplitN2_cases:
  obtains (one) "c \<notin> set s" "strings_SplitN2 c s = [s]"
  | (two) k v where "s = k @ c # v" "c \<notin> set k" "strings_SplitN2 c s = [k, v]"
proof (cases "c \<in> set s")
  case True
  then obtain k v where "s = k @ c # v" "c \<notin> set k"
    using split_list_first by metis
  then show ?thesis using two strings_SplitN2_split by blast
next
  case False
  then show ?thesis using one strings_SplitN2_notin by blast
qed

section \<open>Trimming, searching, replacing\<close>

text \<open>
  \<open>unicode.IsSpace\<close>: the six ASCII blanks, and the UTF-8 encodings of U+0085, U+00A0, U+1680,
  U+2000 to U+200A, U+2028, U+2029, U+202F, U+205F and U+3000.
\<close>

definition go_spaces :: "string list" where
  "go_spaces =
     map (\<lambda>n. [char_of n]) [9, 10, 11, 12, 13, 32 :: nat]
     @ map (map (char_of :: nat \<Rightarrow> char)) [[0xC2, 0x85], [0xC2, 0xA0], [0xE1, 0x9A, 0x80]]
     @ map (\<lambda>n. map char_of [0xE2, 0x80, n]) [0x80 ..< 0x8B :: nat]
     @ map (map (char_of :: nat \<Rightarrow> char))
         [[0xE2, 0x80, 0xA8], [0xE2, 0x80, 0xA9], [0xE2, 0x80, 0xAF], [0xE2, 0x81, 0x9F],
          [0xE3, 0x80, 0x80]]"

text \<open>Strip the given byte sequences from the front as long as one of them is there.\<close>

function trim_front :: "string list \<Rightarrow> string \<Rightarrow> string" where
  "trim_front sps s =
     (case find (\<lambda>sp. sp \<noteq> [] \<and> prefix sp s) sps of
        None \<Rightarrow> s
      | Some sp \<Rightarrow> trim_front sps (drop (length sp) s))"
  by pat_completeness auto
termination
proof (relation "measure (\<lambda>(sps, s). length s)")
  fix sps :: "string list" and s sp :: string
  assume "find (\<lambda>sp. sp \<noteq> [] \<and> prefix sp s) sps = Some sp"
  then have "sp \<noteq> []" and "prefix sp s"
    by (auto simp: find_Some_iff)
  then show "((sps, drop (length sp) s), sps, s) \<in> measure (\<lambda>(sps, s). length s)"
    by (auto simp: prefix_def)
qed simp

declare trim_front.simps [simp del]

definition strings_TrimSpace :: "string \<Rightarrow> string" where
  "strings_TrimSpace s =
     rev (trim_front (map rev go_spaces) (rev (trim_front go_spaces s)))"

fun strings_Contains :: "string \<Rightarrow> string \<Rightarrow> bool" where
  "strings_Contains [] sub = (sub = [])"
| "strings_Contains (x # xs) sub = (prefix sub (x # xs) \<or> strings_Contains xs sub)"

text \<open>\<open>strings.Replace(s, c, "", -1)\<close> for one byte \<open>c\<close>.\<close>

definition strings_RemoveAll :: "char \<Rightarrow> string \<Rightarrow> string" where
  "strings_RemoveAll c s = filter (\<lambda>x. x \<noteq> c) s"

text \<open>\<open>strings.ToUpper\<close> on the ASCII letters, which is what Redis command names are made of.\<close>

definition ascii_upper :: "char \<Rightarrow> char" where
  "ascii_upper c =
     (if 97 \<le> (of_char c :: nat) \<and> (of_char c :: nat) \<le> 122
      then char_of ((of_char c :: nat) - 32) else c)"

definition strings_ToUpper :: "string \<Rightarrow> string" where
  "strings_ToUpper s = map ascii_upper s"

lemma strings_Contains_iff: "strings_Contains s sub \<longleftrightarrow> (\<exists>a b. s = a @ sub @ b)"
proof (induction s)
  case Nil
  show ?case by auto
next
  case (Cons x s)
  show ?case
  proof
    assume "strings_Contains (x # s) sub"
    then consider "prefix sub (x # s)" | "strings_Contains s sub" by auto
    then show "\<exists>a b. x # s = a @ sub @ b"
    proof cases
      case 1
      then obtain b where "x # s = [] @ sub @ b" by (auto simp: prefix_def)
      then show ?thesis by blast
    next
      case 2
      then obtain a b where "s = a @ sub @ b" using Cons.IH by blast
      then have "x # s = (x # a) @ sub @ b" by simp
      then show ?thesis by blast
    qed
  next
    assume "\<exists>a b. x # s = a @ sub @ b"
    then obtain a b where ab: "x # s = a @ sub @ b" by blast
    show "strings_Contains (x # s) sub"
    proof (cases a)
      case Nil
      with ab have "prefix sub (x # s)" by (simp add: prefix_def)
      then show ?thesis by simp
    next
      case (Cons y a')
      with ab have "s = a' @ sub @ b" by simp
      then show ?thesis using Cons.IH by (auto simp: prefix_def)
    qed
  qed
qed

lemma trim_front_id:
  "(\<And>sp. sp \<in> set sps \<Longrightarrow> sp \<noteq> [] \<Longrightarrow> \<not> prefix sp s) \<Longrightarrow> trim_front sps s = s"
  by (subst trim_front.simps) (auto simp: find_None_iff find_Some_iff split: option.splits)

section \<open>Decimal numbers\<close>

definition digit_char :: "nat \<Rightarrow> char" where
  "digit_char d = char_of (48 + d)"

definition is_digit :: "char \<Rightarrow> bool" where
  "is_digit c \<longleftrightarrow> 48 \<le> (of_char c :: nat) \<and> (of_char c :: nat) \<le> 57"

definition digit_val :: "char \<Rightarrow> nat" where
  "digit_val c = of_char c - 48"

fun nat_digits :: "nat \<Rightarrow> string" where
  "nat_digits n =
     (if n < 10 then [digit_char n] else nat_digits (n div 10) @ [digit_char (n mod 10)])"

declare nat_digits.simps [simp del]

definition strconv_Itoa :: "int \<Rightarrow> string" where
  "strconv_Itoa i = (if i < 0 then CHR ''-'' # nat_digits (nat (- i)) else nat_digits (nat i))"

fun parse_digits :: "nat \<Rightarrow> string \<Rightarrow> nat option" where
  "parse_digits acc [] = Some acc"
| "parse_digits acc (c # cs) =
     (if is_digit c then parse_digits (acc * 10 + digit_val c) cs else None)"

definition split_sign :: "string \<Rightarrow> bool \<times> string" where
  "split_sign s =
     (case s of
        [] \<Rightarrow> (False, [])
      | c # r \<Rightarrow>
          if c = CHR ''-'' then (True, r) else if c = CHR ''+'' then (False, r) else (False, s))"

definition in_int_range :: "nat \<Rightarrow> int \<Rightarrow> bool" where
  "in_int_range bits v \<longleftrightarrow> - (2 ^ (bits - 1)) \<le> v \<and> v < 2 ^ (bits - 1)"

text \<open>
  \<open>strconv.ParseInt(s, 10, bits)\<close>: an optional sign, at least one digit, nothing else, and a
  value that fits. The library tells syntax and range errors apart, no caller of it here does.
\<close>

definition strconv_ParseInt :: "nat \<Rightarrow> string \<Rightarrow> int res" where
  "strconv_ParseInt bits s =
     (let (neg, ds) = split_sign s in
      if ds = [] then Err (NumError s)
      else (case parse_digits 0 ds of
              None \<Rightarrow> Err (NumError s)
            | Some n \<Rightarrow>
                (let v = (if neg then - int n else int n) in
                 if in_int_range bits v then Ok v else Err (NumError s))))"

text \<open>\<open>strconv.Atoi\<close> on a 64-bit machine.\<close>

definition strconv_Atoi :: "string \<Rightarrow> int res" where
  "strconv_Atoi s = strconv_ParseInt 64 s"

lemma digit_char_val [simp]: "d < 10 \<Longrightarrow> digit_val (digit_char d) = d"
  by (simp add: digit_val_def digit_char_def)

lemma digit_char_is_digit [simp]: "d < 10 \<Longrightarrow> is_digit (digit_char d)"
  by (simp add: is_digit_def digit_char_def)

lemma parse_digits_append:
  "parse_digits acc (a @ b) =
     (case parse_digits acc a of None \<Rightarrow> None | Some n \<Rightarrow> parse_digits n b)"
  by (induction acc a rule: parse_digits.induct) auto

lemma parse_nat_digits: "parse_digits 0 (nat_digits n) = Some n"
proof (induction n rule: nat_digits.induct)
  case (1 n)
  show ?case
  proof (cases "n < 10")
    case True
    then show ?thesis by (simp add: nat_digits.simps [of n])
  next
    case False
    with 1 show ?thesis
      by (simp add: nat_digits.simps [of n] parse_digits_append)
  qed
qed

lemma nat_digits_nonempty [simp]: "nat_digits n \<noteq> []"
  by (simp add: nat_digits.simps [of n])

lemma nat_digits_digits: "c \<in> set (nat_digits n) \<Longrightarrow> is_digit c"
proof (induction n rule: nat_digits.induct)
  case (1 n)
  then show ?case
    by (cases "n < 10") (auto simp: nat_digits.simps [of n])
qed

lemma Itoa_chars: "c \<in> set (strconv_Itoa i) \<Longrightarrow> is_digit c \<or> c = CHR ''-''"
  by (auto simp: strconv_Itoa_def dest: nat_digits_digits split: if_splits)

lemma is_digit_not [simp]:
  "\<not> is_digit (CHR ''-'')" "\<not> is_digit (CHR ''+'')" "\<not> is_digit (CHR '' '')"
  "\<not> is_digit (CHR 0x0A)" "\<not> is_digit (CHR 0x0D)" "\<not> is_digit (CHR ''/'')"
  by (simp_all add: is_digit_def)

lemma split_sign_digits:
  assumes "ds \<noteq> []" and "is_digit (hd ds)"
  shows "split_sign ds = (False, ds)"
proof (cases ds)
  case Nil
  with assms show ?thesis by simp
next
  case (Cons c r)
  with assms have "c \<noteq> CHR ''-''" and "c \<noteq> CHR ''+''" by auto
  with Cons show ?thesis by (simp add: split_sign_def)
qed

lemma ParseInt_Itoa:
  assumes "in_int_range bits i"
  shows "strconv_ParseInt bits (strconv_Itoa i) = Ok i"
proof (cases "i < 0")
  case True
  then have "split_sign (strconv_Itoa i) = (True, nat_digits (nat (- i)))"
    by (simp add: strconv_Itoa_def split_sign_def)
  with True assms show ?thesis
    by (simp add: strconv_ParseInt_def parse_nat_digits)
next
  case False
  have "split_sign (nat_digits (nat i)) = (False, nat_digits (nat i))"
    by (rule split_sign_digits) (auto intro: nat_digits_digits [OF hd_in_set])
  with False assms show ?thesis
    by (simp add: strconv_ParseInt_def parse_nat_digits strconv_Itoa_def)
qed

lemma ParseInt_range: "strconv_ParseInt bits s = Ok v \<Longrightarrow> in_int_range bits v"
  by (auto simp: strconv_ParseInt_def Let_def split: prod.splits if_splits option.splits)

lemma Atoi_Itoa: "in_int_range 64 i \<Longrightarrow> strconv_Atoi (strconv_Itoa i) = Ok i"
  by (simp add: strconv_Atoi_def ParseInt_Itoa)

text \<open>Evaluation of the number conversions over \<open>int\<close>, whose numerals the simplifier divides.\<close>

definition int_digits :: "int \<Rightarrow> string" where
  "int_digits i = nat_digits (nat i)"

lemma int_digits_code [code]:
  "int_digits i = (if i < 10 then [digit_char (nat i)]
                   else int_digits (i div 10) @ [digit_char (nat (i mod 10))])"
  unfolding int_digits_def
  by (subst nat_digits.simps) (auto simp: nat_div_distrib nat_mod_distrib nat_less_iff)

lemma strconv_Itoa_code [code]:
  "strconv_Itoa i = (if i < 0 then CHR ''-'' # int_digits (- i) else int_digits i)"
  by (simp add: strconv_Itoa_def int_digits_def)

definition int_value :: "int \<Rightarrow> string \<Rightarrow> int option" where
  "int_value acc ds = map_option int (parse_digits (nat acc) ds)"

lemma int_value_code [code]:
  "int_value acc [] = Some (max acc 0)"
  "int_value acc (c # cs) =
     (if is_digit c then int_value (max acc 0 * 10 + int (digit_val c)) cs else None)"
  by (auto simp: int_value_def nat_add_distrib nat_mult_distrib max_def)

lemma strconv_ParseInt_code [code]:
  "strconv_ParseInt bits s =
     (let (neg, ds) = split_sign s in
      if ds = [] then Err (NumError s)
      else (case int_value 0 ds of
              None \<Rightarrow> Err (NumError s)
            | Some n \<Rightarrow>
                let v = (if neg then - n else n)
                in if in_int_range bits v then Ok v else Err (NumError s)))"
  by (auto simp: strconv_ParseInt_def int_value_def split: option.splits prod.splits)

lemma in_int_range_mono:
  assumes "m \<le> n" and "in_int_range m v"
  shows "in_int_range n v"
proof -
  have "(2::int) ^ (m - 1) \<le> 2 ^ (n - 1)"
    using assms(1) by (intro power_increasing) auto
  with assms(2) show ?thesis unfolding in_int_range_def by linarith
qed

lemma length_nat_digits: "n < 10 ^ k \<Longrightarrow> 0 < k \<Longrightarrow> length (nat_digits n) \<le> k"
proof (induction n arbitrary: k rule: nat_digits.induct)
  case (1 n)
  show ?case
  proof (cases "n < 10")
    case False
    then obtain k' where k: "k = Suc k'" "0 < k'" using "1.prems" by (cases k; cases "k - 1") auto
    with "1.prems" have "n div 10 < 10 ^ k'" by (simp add: less_mult_imp_div_less mult.commute)
    with 1 False k show ?thesis by (simp add: nat_digits.simps [of n])
  qed (use 1 in \<open>simp add: nat_digits.simps [of n]\<close>)
qed

lemma length_Itoa: "in_int_range 32 p \<Longrightarrow> length (strconv_Itoa p) \<le> 12"
  using length_nat_digits [of "nat (- p)" 11] length_nat_digits [of "nat p" 11]
  by (auto simp: strconv_Itoa_def in_int_range_def nat_less_iff)

lemma ParseInt_never_panics: "strconv_ParseInt bits s \<noteq> Panic m"
  by (auto simp: strconv_ParseInt_def Let_def split: prod.splits if_splits option.splits)

section \<open>Scanning lines\<close>

text \<open>
  \<open>bufio.Scanner\<close> with \<open>bufio.ScanLines\<close>: the pieces between line feeds, without a last
  empty piece, each without one trailing carriage return. The scanner's buffer holds
  \<open>bufio.MaxScanTokenSize\<close> bytes; a line that does not fit ends the scan, and \<open>Scan()\<close>
  returns false as it does at the end of the input.
\<close>

definition MaxScanTokenSize :: nat where
  "MaxScanTokenSize = 65536"

definition fits_buffer :: "string \<Rightarrow> bool" where
  "fits_buffer l \<longleftrightarrow> length l < MaxScanTokenSize"

lemma fits_buffer_code [code]: "fits_buffer l \<longleftrightarrow> int (length l) < 65536"
  by (simp add: fits_buffer_def MaxScanTokenSize_def)

definition raw_lines :: "string \<Rightarrow> string list" where
  "raw_lines d =
     (let ps = strings_Split (CHR 0x0A) d in if last ps = [] then butlast ps else ps)"

definition dropCR :: "string \<Rightarrow> string" where
  "dropCR l = (if l \<noteq> [] \<and> last l = CHR 0x0D then butlast l else l)"

definition scan_lines :: "string \<Rightarrow> string list" where
  "scan_lines d = map dropCR (takeWhile fits_buffer (raw_lines d))"

lemma raw_lines_Nil [simp]: "raw_lines [] = []"
  by (simp add: raw_lines_def)

lemma raw_lines_line [simp]:
  "CHR 0x0A \<notin> set l \<Longrightarrow> raw_lines (l @ CHR 0x0A # d) = l # raw_lines d"
  by (auto simp: raw_lines_def Let_def)

lemma scan_lines_Nil [simp]: "scan_lines [] = []"
  by (simp add: scan_lines_def)

lemma scan_lines_line:
  assumes "CHR 0x0A \<notin> set l" and "length l < MaxScanTokenSize"
  shows "scan_lines (l @ CHR 0x0A # d) = dropCR l # scan_lines d"
  using assms by (simp add: scan_lines_def fits_buffer_def)

lemma scan_lines_long_line:
  assumes "CHR 0x0A \<notin> set l" and "MaxScanTokenSize \<le> length l"
  shows "scan_lines (l @ CHR 0x0A # d) = []"
  using assms by (simp add: scan_lines_def fits_buffer_def)

lemma raw_lines_no_LF: "l \<in> set (raw_lines d) \<Longrightarrow> CHR 0x0A \<notin> set l"
  by (auto simp: raw_lines_def Let_def split: if_splits
      dest: in_set_butlastD strings_Split_parts)

lemma set_dropCR: "set (dropCR l) \<subseteq> set l"
  by (auto simp: dropCR_def dest: in_set_butlastD)

lemma length_dropCR: "length (dropCR l) \<le> length l"
  by (simp add: dropCR_def)

lemma scan_lines_no_LF: "l \<in> set (scan_lines d) \<Longrightarrow> CHR 0x0A \<notin> set l"
  using set_dropCR by (fastforce simp: scan_lines_def dest: set_takeWhileD raw_lines_no_LF)

lemma scan_lines_short:
  assumes "l \<in> set (scan_lines d)"
  shows "length l < MaxScanTokenSize"
proof -
  from assms obtain r where "l = dropCR r" and "length r < MaxScanTokenSize"
    by (auto simp: scan_lines_def fits_buffer_def dest: set_takeWhileD)
  then show ?thesis using length_dropCR [of r] by simp
qed

end
