(* ===== verification/Go_Paths.thy ===== *)
theory Go_Paths
  imports Go_Strings
begin

text \<open>
  Go's \<open>path.Clean\<close> and \<open>path.Join\<close> (\<open>filepath.Clean\<close> and \<open>filepath.Join\<close> are the
  same functions on Unix), and the resolution of a path by the kernel to the list of its
  components, counted from the root directory. Symbolic links are not modelled: none of the
  broker's directories holds one.
\<close>

definition absolute :: "string \<Rightarrow> bool" where
  "absolute p \<longleftrightarrow> (case p of [] \<Rightarrow> False | c # _ \<Rightarrow> c = CHR ''/'')"

text \<open>One element of a path, against the stack of the elements kept so far (innermost first).\<close>

definition clean_step :: "bool \<Rightarrow> string \<Rightarrow> string list \<Rightarrow> string list" where
  "clean_step rooted c st =
     (if c = '''' \<or> c = ''.'' then st
      else if c = ''..'' then
        (case st of
           [] \<Rightarrow> if rooted then [] else [''..'']
         | t # r \<Rightarrow> if t = ''..'' then ''..'' # st else r)
      else c # st)"

definition clean_comps :: "bool \<Rightarrow> string list \<Rightarrow> string list \<Rightarrow> string list" where
  "clean_comps rooted cs st = fold (clean_step rooted) cs st"

definition path_Clean :: "string \<Rightarrow> string" where
  "path_Clean p =
     (if p = '''' then ''.''
      else if absolute p then
        CHR ''/'' # strings_Join (CHR ''/'') (rev (clean_comps True (strings_Split (CHR ''/'') p) []))
      else (let cs = rev (clean_comps False (strings_Split (CHR ''/'') p) []) in
            if cs = [] then ''.'' else strings_Join (CHR ''/'') cs))"

definition path_Join :: "string list \<Rightarrow> string" where
  "path_Join es =
     (let es' = dropWhile (\<lambda>e. e = '''') es in
      if es' = [] then '''' else path_Clean (strings_Join (CHR ''/'') es'))"

text \<open>What the kernel makes of a path, from the working directory \<open>cwd\<close>.\<close>

definition resolve :: "string list \<Rightarrow> string \<Rightarrow> string list" where
  "resolve cwd p =
     rev (clean_comps True (strings_Split (CHR ''/'') p) (if absolute p then [] else rev cwd))"

text \<open>A name that stands for one entry of a directory.\<close>

definition simple_name :: "string \<Rightarrow> bool" where
  "simple_name n \<longleftrightarrow> n \<noteq> '''' \<and> n \<noteq> ''.'' \<and> n \<noteq> ''..'' \<and> CHR ''/'' \<notin> set n"

section \<open>Lemmas\<close>

lemma absolute_Cons [simp]: "absolute (CHR ''/'' # p)"
  by (simp add: absolute_def)

lemma absolute_append: "absolute p \<Longrightarrow> absolute (p @ q)"
  by (auto simp: absolute_def split: list.splits)

lemma absolute_nonempty: "absolute p \<Longrightarrow> p \<noteq> []"
  by (auto simp: absolute_def)

lemma clean_comps_append [simp]:
  "clean_comps r (a @ b) st = clean_comps r b (clean_comps r a st)"
  by (simp add: clean_comps_def)

lemma clean_comps_Nil [simp]: "clean_comps r [] st = st"
  by (simp add: clean_comps_def)

lemma clean_comps_Cons [simp]:
  "clean_comps r (c # cs) st = clean_comps r cs (clean_step r c st)"
  by (simp add: clean_comps_def)

lemma clean_step_simple [simp]: "simple_name n \<Longrightarrow> clean_step r n st = n # st"
  by (simp add: clean_step_def simple_name_def)

lemma clean_step_empty [simp]: "clean_step r [] st = st"
  by (simp add: clean_step_def)

lemma clean_comps_simple:
  "\<forall>c \<in> set cs. simple_name c \<Longrightarrow> clean_comps r cs st = rev cs @ st"
  by (induction cs arbitrary: st) auto

lemma clean_step_keeps_simple:
  assumes c: "CHR ''/'' \<notin> set c" and st: "\<forall>s \<in> set st. simple_name s"
  shows "\<forall>s \<in> set (clean_step True c st). simple_name s"
proof -
  consider "c = '''' \<or> c = ''.''" | "c = ''..''" | "simple_name c"
    using c unfolding simple_name_def by blast
  then show ?thesis
  proof cases
    case 1
    then show ?thesis using st unfolding clean_step_def by presburger
  next
    case 2
    then show ?thesis using st by (cases st) (auto simp: clean_step_def simple_name_def)
  next
    case 3
    then show ?thesis using st by simp
  qed
qed

lemma clean_comps_keeps_simple:
  assumes "\<forall>c \<in> set cs. CHR ''/'' \<notin> set c" and "\<forall>s \<in> set st. simple_name s"
  shows "\<forall>s \<in> set (clean_comps True cs st). simple_name s"
  using assms
proof (induction cs arbitrary: st)
  case Nil
  then show ?case by simp
next
  case (Cons c cs)
  have "\<forall>s \<in> set (clean_step True c st). simple_name s"
    by (rule clean_step_keeps_simple) (use Cons.prems in auto)
  moreover have "\<forall>c \<in> set cs. CHR ''/'' \<notin> set c"
    using Cons.prems(1) by simp
  ultimately show ?case unfolding clean_comps_Cons by (rule Cons.IH [rotated])
qed

lemma resolve_simple_names:
  assumes "\<forall>s \<in> set cwd. simple_name s" and "n \<in> set (resolve cwd p)"
  shows "simple_name n"
proof -
  have "\<forall>c \<in> set (strings_Split (CHR ''/'') p). CHR ''/'' \<notin> set c"
    by (auto dest: strings_Split_parts)
  from clean_comps_keeps_simple [OF this, of "if absolute p then [] else rev cwd"] assms
  show ?thesis by (auto simp: resolve_def)
qed

lemma absolute_path_Clean [simp]: "absolute p \<Longrightarrow> absolute (path_Clean p)"
  by (auto simp: path_Clean_def dest: absolute_nonempty)

lemma split_rooted_join:
  assumes "\<forall>c \<in> set cs. simple_name c"
  shows "clean_comps True (strings_Split (CHR ''/'') (CHR ''/'' # strings_Join (CHR ''/'') cs)) []
    = rev cs"
proof (cases "cs = []")
  case True
  then show ?thesis by simp
next
  case False
  with assms have "strings_Split (CHR ''/'') (strings_Join (CHR ''/'') cs) = cs"
    by (intro strings_Split_Join) (auto simp: simple_name_def)
  then show ?thesis
    using clean_comps_simple [OF assms, of True "[]"] by simp
qed

lemma resolve_path_Clean [path_simps]:
  assumes "absolute p"
  shows "resolve cwd (path_Clean p) = resolve cwd p"
proof -
  let ?cs = "rev (clean_comps True (strings_Split (CHR ''/'') p) [])"
  have "\<forall>c \<in> set ?cs. simple_name c"
    using clean_comps_keeps_simple [of "strings_Split (CHR ''/'') p" "[]"]
    by (auto dest: strings_Split_parts)
  from split_rooted_join [OF this] assms show ?thesis
    by (simp add: resolve_def path_Clean_def absolute_nonempty)
qed

lemma path_Join_absolute:
  assumes "absolute d"
  shows "path_Join [d, n] = path_Clean (d @ CHR ''/'' # n)"
  using absolute_nonempty [OF assms] by (simp add: path_Join_def Let_def)

lemma absolute_path_Join [simp]: "absolute d \<Longrightarrow> absolute (path_Join [d, n])"
  by (simp add: path_Join_absolute absolute_append)

text \<open>Joining a directory and a plain name is the entry of that name in the directory.\<close>

lemma resolve_path_Join [path_simps]:
  assumes "absolute d" and "simple_name n"
  shows "resolve cwd (path_Join [d, n]) = resolve cwd d @ [n]"
proof -
  have "strings_Split (CHR ''/'') n = [n]"
    using assms(2) by (simp add: simple_name_def)
  with assms have "resolve cwd (d @ CHR ''/'' # n) = resolve cwd d @ [n]"
    by (simp add: resolve_def absolute_append)
  with assms(1) show ?thesis
    by (simp add: path_Join_absolute resolve_path_Clean absolute_append)
qed

lemma resolve_absolute: "absolute p \<Longrightarrow> resolve c p = resolve c' p"
  by (simp add: resolve_def)

lemma simple_name_suffix: "simple_name n \<Longrightarrow> CHR ''/'' \<notin> set s \<Longrightarrow> 2 < length s \<Longrightarrow> simple_name (n @ s)"
  by (auto simp: simple_name_def append_eq_Cons_conv)

end
