(* ===== verification/Go_OS.thy ===== *)
theory Go_OS
  imports Go_Paths
begin

unbundle bit_operations_syntax

text \<open>
  The machine the broker runs on, as far as the Go packages \<open>os\<close>, \<open>io/ioutil\<close> and
  \<open>code.cloudfoundry.org/lager\<close> let the program see and change it: a tree of files and
  directories, the processes that can be signalled, and the log.

  A file-system object is found under the list of its path components. The tree is a finite
  association list, so that directory listings are computable; \<open>fs_wf\<close> says that it is a tree.
  Permissions and device errors are not derived from users and disks: the field \<open>refuses\<close> says
  which operation on which object the kernel refuses, and with which error. Every theorem holds
  for every such function, so every error branch of the code is reached for some machine.
\<close>

section \<open>State\<close>

type_synonym fmode = "12 word"

text \<open>A mode written in octal, as Go writes it.\<close>

definition octal :: "nat \<Rightarrow> nat \<Rightarrow> nat \<Rightarrow> fmode" where
  "octal u g o' = of_nat (u * 64 + g * 8 + o')"

datatype node = FileNode fmode string | DirNode fmode

datatype fsop = OpStat | OpOpen | OpCreate | OpWrite | OpMkdir | OpRemove | OpReadDir | OpChmod
  | OpRename

datatype log_level = DEBUG | INFO | ERROR | FATAL

record log_entry =
  log_level :: log_level
  log_action :: string
  log_error :: "gerror option"
  log_data :: "(string \<times> string) list"

record world =
  nodes :: "(string list \<times> node) list"
  refuses :: "fsop \<Rightarrow> string list \<Rightarrow> refusal option"
  written :: "string list \<Rightarrow> nat"  \<comment> \<open>bytes of a failing write that reach the file\<close>
  umask :: fmode
  cwd :: "string list"
  procs :: "int list"  \<comment> \<open>the live process ids\<close>
  kill_refused :: "int \<Rightarrow> bool"
  logs :: "log_entry list"

definition node_at :: "world \<Rightarrow> string list \<Rightarrow> node option" where
  "node_at w q = (if q = [] then Some (DirNode (octal 7 5 5)) else map_of (nodes w) q)"

definition is_dir_at :: "world \<Rightarrow> string list \<Rightarrow> bool" where
  "is_dir_at w q \<longleftrightarrow> (case node_at w q of Some (DirNode _) \<Rightarrow> True | _ \<Rightarrow> False)"

definition is_file_at :: "world \<Rightarrow> string list \<Rightarrow> bool" where
  "is_file_at w q \<longleftrightarrow> (case node_at w q of Some (FileNode _ _) \<Rightarrow> True | _ \<Rightarrow> False)"

definition fs_wf :: "world \<Rightarrow> bool" where
  "fs_wf w \<longleftrightarrow>
     distinct (map fst (nodes w)) \<and>
     (\<forall>q \<in> set (map fst (nodes w)). q \<noteq> [] \<and> is_dir_at w (butlast q))"

definition put_node :: "string list \<Rightarrow> node \<Rightarrow> world \<Rightarrow> world" where
  "put_node q n w = w\<lparr>nodes := AList.update q n (nodes w)\<rparr>"

definition del_node :: "string list \<Rightarrow> world \<Rightarrow> world" where
  "del_node q w = w\<lparr>nodes := AList.delete q (nodes w)\<rparr>"

definition child_names :: "world \<Rightarrow> string list \<Rightarrow> string list" where
  "child_names w q = map last (filter (\<lambda>p. p \<noteq> [] \<and> butlast p = q) (map fst (nodes w)))"

section \<open>System calls\<close>

text \<open>A path goes through a plain file: \<open>ENOTDIR\<close>. A component is missing: \<open>ENOENT\<close>.\<close>

definition walk :: "world \<Rightarrow> string list \<Rightarrow> node res" where
  "walk w q =
     (if \<exists>p \<in> set (prefixes q). p \<noteq> q \<and> is_file_at w p then Err (PathError ENOTDIR)
      else (case node_at w q of None \<Rightarrow> Err (PathError ENOENT) | Some n \<Rightarrow> Ok n))"

definition at_path :: "fsop \<Rightarrow> string \<Rightarrow> world \<Rightarrow> (string list \<Rightarrow> 'a res) \<Rightarrow> 'a res" where
  "at_path op p w f =
     (if p = '''' then Err (PathError ENOENT)
      else (case refuses w op (resolve (cwd w) p) of
              Some r \<Rightarrow> Err (PathError (Refused r))
            | None \<Rightarrow> f (resolve (cwd w) p)))"

definition change_path ::
    "fsop \<Rightarrow> string \<Rightarrow> world \<Rightarrow> (string list \<Rightarrow> 'a res \<times> world) \<Rightarrow> 'a res \<times> world" where
  "change_path op p w f =
     (if p = '''' then (Err (PathError ENOENT), w)
      else (case refuses w op (resolve (cwd w) p) of
              Some r \<Rightarrow> (Err (PathError (Refused r)), w)
            | None \<Rightarrow> f (resolve (cwd w) p)))"

definition os_Stat :: "string \<Rightarrow> world \<Rightarrow> node res" where
  "os_Stat p w = at_path OpStat p w (walk w)"

definition os_IsNotExist :: "gerror \<Rightarrow> bool" where
  "os_IsNotExist e \<longleftrightarrow> e = PathError ENOENT"

definition file_content :: "node \<Rightarrow> string res" where
  "file_content n = (case n of FileNode _ c \<Rightarrow> Ok c | DirNode _ \<Rightarrow> Err (PathError EISDIR))"

definition ioutil_ReadFile :: "string \<Rightarrow> world \<Rightarrow> string res" where
  "ioutil_ReadFile p w = at_path OpOpen p w (\<lambda>q. res_bind (walk w q) file_content)"

definition ioutil_ReadDir :: "string \<Rightarrow> world \<Rightarrow> string list res" where
  "ioutil_ReadDir p w =
     at_path OpReadDir p w (\<lambda>q. res_bind (walk w q)
       (\<lambda>n. case n of
              FileNode _ _ \<Rightarrow> Err (PathError ENOTDIR)
            | DirNode _ \<Rightarrow> Ok (sort (child_names w q))))"

text \<open>\<open>os.OpenFile(p, O_WRONLY|O_CREATE|O_TRUNC, perm)\<close>.\<close>

definition open_trunc :: "string \<Rightarrow> fmode \<Rightarrow> world \<Rightarrow> unit res \<times> world" where
  "open_trunc p perm w =
     change_path OpCreate p w (\<lambda>q.
       case walk w q of
         Ok (FileNode m _) \<Rightarrow> (Ok (), put_node q (FileNode m '''') w)
       | Ok (DirNode _) \<Rightarrow> (Err (PathError EISDIR), w)
       | Err e \<Rightarrow>
           if os_IsNotExist e \<and> is_dir_at w (butlast q)
           then (Ok (), put_node q (FileNode (perm AND NOT (umask w)) '''') w)
           else (Err e, w)
       | Panic m \<Rightarrow> (Panic m, w))"

definition set_content :: "string list \<Rightarrow> string \<Rightarrow> world \<Rightarrow> world" where
  "set_content q c w =
     (case node_at w q of Some (FileNode m _) \<Rightarrow> put_node q (FileNode m c) w | _ \<Rightarrow> w)"

text \<open>Writing to a file just opened: a refused write leaves a part of the data behind.\<close>

definition write_opened :: "string \<Rightarrow> string \<Rightarrow> world \<Rightarrow> unit res \<times> world" where
  "write_opened p d w =
     (let q = resolve (cwd w) p in
      case refuses w OpWrite q of
        Some r \<Rightarrow> (Err (PathError (Refused r)), set_content q (take (written w q) d) w)
      | None \<Rightarrow> (Ok (), set_content q d w))"

definition ioutil_WriteFile :: "string \<Rightarrow> string \<Rightarrow> fmode \<Rightarrow> world \<Rightarrow> unit res \<times> world" where
  "ioutil_WriteFile p d perm w = io_bind (open_trunc p perm w) (\<lambda>_ w. write_opened p d w)"

definition os_Create :: "string \<Rightarrow> world \<Rightarrow> unit res \<times> world" where
  "os_Create p w = open_trunc p (octal 6 6 6) w"

definition os_Chmod :: "string \<Rightarrow> fmode \<Rightarrow> world \<Rightarrow> unit res \<times> world" where
  "os_Chmod p m w =
     change_path OpChmod p w (\<lambda>q.
       case walk w q of
         Ok (FileNode _ c) \<Rightarrow> (Ok (), put_node q (FileNode m c) w)
       | Ok (DirNode _) \<Rightarrow> (Ok (), if q = [] then w else put_node q (DirNode m) w)
       | Err e \<Rightarrow> (Err e, w)
       | Panic t \<Rightarrow> (Panic t, w))"

fun mkdir_chain :: "fmode \<Rightarrow> string list list \<Rightarrow> world \<Rightarrow> unit res \<times> world" where
  "mkdir_chain perm [] w = (Ok (), w)"
| "mkdir_chain perm (q # qs) w =
     (case node_at w q of
        Some (DirNode _) \<Rightarrow> mkdir_chain perm qs w
      | Some (FileNode _ _) \<Rightarrow> (Err (PathError ENOTDIR), w)
      | None \<Rightarrow>
          (case refuses w OpMkdir q of
             Some r \<Rightarrow> (Err (PathError (Refused r)), w)
           | None \<Rightarrow> mkdir_chain perm qs (put_node q (DirNode (perm AND NOT (umask w))) w)))"

definition os_MkdirAll :: "string \<Rightarrow> fmode \<Rightarrow> world \<Rightarrow> unit res \<times> world" where
  "os_MkdirAll p perm w =
     (if p = '''' then (Err (PathError ENOENT), w)
      else mkdir_chain perm (prefixes (resolve (cwd w) p)) w)"

definition os_Remove :: "string \<Rightarrow> world \<Rightarrow> unit res \<times> world" where
  "os_Remove p w =
     change_path OpRemove p w (\<lambda>q.
       case walk w q of
         Ok (FileNode _ _) \<Rightarrow> (Ok (), del_node q w)
       | Ok (DirNode _) \<Rightarrow>
           if q = [] then (Err (PathError EINVAL), w)
           else if child_names w q = [] then (Ok (), del_node q w)
           else (Err (PathError ENOTEMPTY), w)
       | Err e \<Rightarrow> (Err e, w)
       | Panic m \<Rightarrow> (Panic m, w))"

text \<open>
  \<open>os.RemoveAll\<close> removes what it can. An object below which the kernel refuses a removal
  stays, and so does that object; then an error is returned. A path that does not exist is fine.
\<close>

definition stuck :: "world \<Rightarrow> string list \<Rightarrow> string list \<Rightarrow> bool" where
  "stuck w q r \<longleftrightarrow>
     (\<exists>s \<in> set (map fst (nodes w)). prefix q s \<and> prefix r s \<and> refuses w OpRemove s \<noteq> None)"

definition remove_tree :: "string list \<Rightarrow> world \<Rightarrow> world" where
  "remove_tree q w =
     w\<lparr>nodes := filter (\<lambda>kv. \<not> prefix q (fst kv) \<or> stuck w q (fst kv)) (nodes w)\<rparr>"

definition endsWithDot :: "string \<Rightarrow> bool" where
  "endsWithDot p \<longleftrightarrow> p = ''.'' \<or> suffix ''/.'' p"

definition os_RemoveAll :: "string \<Rightarrow> world \<Rightarrow> unit res \<times> world" where
  "os_RemoveAll p w =
     (if p = '''' then (Ok (), w)
      else if endsWithDot p then (Err (PathError EINVAL), w)
      else (let q = resolve (cwd w) p in
        case walk w q of
          Err e \<Rightarrow> if os_IsNotExist e then (Ok (), w) else (Err e, w)
        | Panic m \<Rightarrow> (Panic m, w)
        | Ok _ \<Rightarrow>
            (if q = [] \<or> stuck w q q then Err (PathError (Refused EPERM)) else Ok (),
             remove_tree q w)))"

section \<open>Logging\<close>

definition log_write ::
    "log_level \<Rightarrow> string \<Rightarrow> gerror option \<Rightarrow> (string \<times> string) list \<Rightarrow> world \<Rightarrow> world" where
  "log_write l a e d w =
     w\<lparr>logs := logs w @ [\<lparr>log_level = l, log_action = a, log_error = e, log_data = d\<rparr>]\<rparr>"

abbreviation Logger_Info :: "string \<Rightarrow> (string \<times> string) list \<Rightarrow> world \<Rightarrow> world" where
  "Logger_Info a d w \<equiv> log_write INFO a None d w"

abbreviation Logger_Error :: "string \<Rightarrow> gerror \<Rightarrow> (string \<times> string) list \<Rightarrow> world \<Rightarrow> world" where
  "Logger_Error a e d w \<equiv> log_write ERROR a (Some e) d w"

section \<open>Looking objects up after a change\<close>

definition is_dir_node :: "node \<Rightarrow> bool" where
  "is_dir_node n = (case n of DirNode _ \<Rightarrow> True | FileNode _ _ \<Rightarrow> False)"

lemma is_dir_node_simps [simp]: "is_dir_node (DirNode m)" "\<not> is_dir_node (FileNode m c)"
  by (simp_all add: is_dir_node_def)

lemma is_dir_at_alt: "is_dir_at w q \<longleftrightarrow> (\<exists>n. node_at w q = Some n \<and> is_dir_node n)"
  by (auto simp: is_dir_at_def is_dir_node_def split: option.splits node.splits)

lemma is_file_at_alt: "is_file_at w q \<longleftrightarrow> (\<exists>m c. node_at w q = Some (FileNode m c))"
  by (auto simp: is_file_at_def split: option.splits node.splits)

lemma is_dir_at_root [simp]: "is_dir_at w []"
  by (simp add: is_dir_at_def node_at_def)

lemma node_at_put [fs_simps]:
  "q \<noteq> [] \<Longrightarrow> node_at (put_node q n w) p = (if p = q then Some n else node_at w p)"
  by (auto simp: node_at_def put_node_def update_conv)

lemma node_at_del [fs_simps]:
  "q \<noteq> [] \<Longrightarrow> node_at (del_node q w) p = (if p = q then None else node_at w p)"
  by (auto simp: node_at_def del_node_def delete_conv)

lemma node_at_remove_tree [fs_simps]:
  "node_at (remove_tree q w) p =
     (if p \<noteq> [] \<and> prefix q p \<and> \<not> stuck w q p then None else node_at w p)"
  using map_of_filter_key [of "\<lambda>k. \<not> prefix q k \<or> stuck w q k" "nodes w" p]
  by (simp add: node_at_def remove_tree_def)

lemma nodes_log [simp]: "nodes (log_write l a e d w) = nodes w"
  by (simp add: log_write_def)

lemma env_log [simp]:
  "refuses (log_write l a e d w) = refuses w" "written (log_write l a e d w) = written w"
  "umask (log_write l a e d w) = umask w" "cwd (log_write l a e d w) = cwd w"
  "procs (log_write l a e d w) = procs w" "kill_refused (log_write l a e d w) = kill_refused w"
  by (simp_all add: log_write_def)

lemma node_at_log [simp]: "node_at (log_write l a e d w) = node_at w"
  by (simp add: fun_eq_iff node_at_def)

lemma is_file_at_log [simp]: "is_file_at (log_write l a e d w) = is_file_at w"
  by (simp add: fun_eq_iff is_file_at_def)

lemma is_dir_at_log [simp]: "is_dir_at (log_write l a e d w) = is_dir_at w"
  by (simp add: fun_eq_iff is_dir_at_def)

lemma fs_wf_log [simp]: "fs_wf (log_write l a e d w) = fs_wf w"
  by (simp add: fs_wf_def)

lemma walk_log [simp]: "walk (log_write l a e d w) = walk w"
  by (rule ext) (simp only: walk_def is_file_at_log node_at_log)

lemma child_names_log [simp]: "child_names (log_write l a e d w) = child_names w"
  by (simp add: fun_eq_iff child_names_def)

lemma at_path_log [simp]:
  "at_path op p (log_write l a e d w) f = at_path op p w f"
  by (simp add: at_path_def cong: option.case_cong)

lemma reads_log [simp]:
  "os_Stat p (log_write l a e d w) = os_Stat p w"
  "ioutil_ReadFile p (log_write l a e d w) = ioutil_ReadFile p w"
  "ioutil_ReadDir p (log_write l a e d w) = ioutil_ReadDir p w"
  by (simp_all add: os_Stat_def ioutil_ReadFile_def ioutil_ReadDir_def cong: node.case_cong)

section \<open>Frames\<close>

text \<open>
  What no file-system call and no log call touches, and the frame of a call: the set of objects
  outside which the tree is as before.
\<close>

definition same_env :: "world \<Rightarrow> world \<Rightarrow> bool" where
  "same_env w w' \<longleftrightarrow>
     refuses w' = refuses w \<and> written w' = written w \<and> umask w' = umask w \<and> cwd w' = cwd w \<and>
     procs w' = procs w \<and> kill_refused w' = kill_refused w"

definition fs_frame :: "string list set \<Rightarrow> world \<Rightarrow> world \<Rightarrow> bool" where
  "fs_frame D w w' \<longleftrightarrow> same_env w w' \<and> (\<forall>p. p \<notin> D \<longrightarrow> node_at w' p = node_at w p)"

lemma same_env_refl [simp]: "same_env w w"
  by (simp add: same_env_def)

lemma same_env_trans: "same_env a b \<Longrightarrow> same_env b c \<Longrightarrow> same_env a c"
  by (simp add: same_env_def)

lemma same_env_prims [simp]:
  "same_env w (put_node q n w)" "same_env w (del_node q w)" "same_env w (remove_tree q w)"
  "same_env w (log_write l a e d w)"
  by (simp_all add: same_env_def put_node_def del_node_def remove_tree_def log_write_def)

lemma same_env_set_content [simp]: "same_env w (set_content q c w)"
  by (auto simp: set_content_def split: option.splits node.splits)

lemma fs_frame_refl [simp]: "fs_frame D w w"
  by (simp add: fs_frame_def)

lemma fs_frame_trans: "fs_frame D a b \<Longrightarrow> fs_frame D b c \<Longrightarrow> fs_frame D a c"
  by (auto simp: fs_frame_def intro: same_env_trans)

lemma fs_frame_mono: "fs_frame D a b \<Longrightarrow> D \<subseteq> E \<Longrightarrow> fs_frame E a b"
  by (auto simp: fs_frame_def)

lemma fs_frame_env: "fs_frame D w w' \<Longrightarrow> same_env w w'"
  by (simp add: fs_frame_def)

lemma fs_frame_node: "fs_frame D w w' \<Longrightarrow> p \<notin> D \<Longrightarrow> node_at w' p = node_at w p"
  by (simp add: fs_frame_def)

lemma fs_frame_cwd: "fs_frame D w w' \<Longrightarrow> cwd w' = cwd w"
  by (simp add: fs_frame_def same_env_def)

lemma fs_frame_log [simp]: "fs_frame D w (log_write l a e d w)"
  by (simp add: fs_frame_def)

lemma fs_frame_put: "q \<noteq> [] \<Longrightarrow> q \<in> D \<Longrightarrow> fs_frame D w (put_node q n w)"
  by (auto simp: fs_frame_def node_at_put)

lemma fs_frame_io_bind:
  assumes "fs_frame D w (snd p)"
    and "\<And>a w'. p = (Ok a, w') \<Longrightarrow> fs_frame D w w' \<Longrightarrow> fs_frame D w' (snd (f a w'))"
  shows "fs_frame D w (snd (io_bind p f))"
  using assms by (intro io_bind_state [of "fs_frame D w"]) (auto intro: fs_frame_trans)

lemma walk_Ok: "walk w q = Ok n \<Longrightarrow> node_at w q = Some n"
  by (auto simp: walk_def split: if_splits option.splits)

lemma walk_not_Panic [simp]: "walk w q \<noteq> Panic m"
  by (auto simp: walk_def split: option.splits)

lemma walk_Err_ENOENT: "walk w q = Err (PathError ENOENT) \<Longrightarrow> node_at w q = None"
  by (auto simp: walk_def split: if_splits option.splits)

lemma walk_Err_nonroot: "walk w q = Err e \<Longrightarrow> q \<noteq> []"
  by (auto simp: walk_def node_at_def)

lemma file_nonroot: "node_at w q = Some (FileNode m c) \<Longrightarrow> q \<noteq> []"
  by (auto simp: node_at_def)

lemma open_trunc_frame:
  "fs_frame {resolve (cwd w) p} w (snd (open_trunc p perm w))"
  by (auto simp: open_trunc_def change_path_def
      dest!: walk_Ok file_nonroot walk_Err_nonroot intro!: fs_frame_put
      split: option.splits res.splits node.splits)

lemma set_content_frame: "q \<in> D \<Longrightarrow> fs_frame D w (set_content q c w)"
  by (auto simp: set_content_def dest: file_nonroot intro!: fs_frame_put
      split: option.splits node.splits)

lemma write_opened_frame:
  "resolve (cwd w) p \<in> D \<Longrightarrow> fs_frame D w (snd (write_opened p d w))"
  by (auto simp: write_opened_def Let_def intro: set_content_frame split: option.splits)

lemma WriteFile_frame:
  "fs_frame {resolve (cwd w) p} w (snd (ioutil_WriteFile p d perm w))"
  unfolding ioutil_WriteFile_def
  by (rule fs_frame_io_bind [OF open_trunc_frame])
    (auto intro: write_opened_frame simp: fs_frame_cwd)

lemma Create_frame: "fs_frame {resolve (cwd w) p} w (snd (os_Create p w))"
  unfolding os_Create_def by (rule open_trunc_frame)

lemma Chmod_frame: "fs_frame {resolve (cwd w) p} w (snd (os_Chmod p m w))"
  by (auto simp: os_Chmod_def change_path_def
      dest!: walk_Ok file_nonroot intro!: fs_frame_put
      split: option.splits res.splits node.splits)

lemma Remove_frame: "fs_frame {resolve (cwd w) p} w (snd (os_Remove p w))"
  by (auto simp: os_Remove_def change_path_def fs_frame_def node_at_del
      dest!: walk_Ok file_nonroot
      split: option.splits res.splits node.splits)

lemma mkdir_chain_frame:
  "set qs \<subseteq> D \<Longrightarrow> fs_frame D w (snd (mkdir_chain perm qs w))"
proof (induction perm qs w rule: mkdir_chain.induct)
  case (1 perm w)
  then show ?case by simp
next
  case (2 perm q qs w)
  have put: "fs_frame D w (put_node q n w)" if "node_at w q = None" for n
    using that 2 by (intro fs_frame_put) (auto simp: node_at_def)
  from 2 show ?case
    by (auto split: option.splits node.splits intro: fs_frame_trans [OF put])
qed

lemma MkdirAll_frame:
  "fs_frame {q. prefix q (resolve (cwd w) p)} w (snd (os_MkdirAll p perm w))"
  by (auto simp: os_MkdirAll_def intro!: mkdir_chain_frame)

lemma RemoveAll_frame:
  "fs_frame {q. prefix (resolve (cwd w) p) q} w (snd (os_RemoveAll p w))"
  by (auto simp: os_RemoveAll_def Let_def fs_frame_def node_at_remove_tree
      split: res.splits)

section \<open>The tree stays a tree\<close>

lemma fs_wf_parent: "fs_wf w \<Longrightarrow> node_at w q = Some n \<Longrightarrow> is_dir_at w (butlast q)"
  by (auto simp: fs_wf_def node_at_def dest!: map_of_SomeD split: if_splits)

lemma fs_wf_ancestor:
  assumes "fs_wf w" and "node_at w q = Some n" and "strict_prefix p q"
  shows "is_dir_at w p"
  using assms(2,3)
proof (induction q arbitrary: n rule: rev_induct)
  case Nil
  then show ?case by simp
next
  case (snoc x q)
  from fs_wf_parent [OF assms(1) snoc.prems(1)] have q: "is_dir_at w q" by simp
  then show ?case
    using snoc by (cases "p = q") (auto simp: is_dir_at_alt strict_prefix_snoc_iff strict_prefix_def)
qed

lemma is_dir_not_file: "is_dir_at w p \<Longrightarrow> \<not> is_file_at w p"
  by (auto simp: is_dir_at_alt is_file_at_alt)

lemma walk_node: "fs_wf w \<Longrightarrow> node_at w q = Some n \<Longrightarrow> walk w q = Ok n"
  using fs_wf_ancestor is_dir_not_file
  by (fastforce simp: walk_def strict_prefix_def)

lemma walk_missing:
  assumes "fs_wf w" and "node_at w q = None" and "is_dir_at w (butlast q)"
  shows "walk w q = Err (PathError ENOENT)"
proof -
  from assms(2) have "q \<noteq> []" by (auto simp: node_at_def)
  have "is_dir_at w p" if p: "prefix p q" "p \<noteq> q" for p
  proof (cases "p = butlast q")
    case False
    obtain x where x: "q = butlast q @ [x]" using \<open>q \<noteq> []\<close> append_butlast_last_id by metis
    have "strict_prefix p q" using p by (simp add: strict_prefix_def)
    then have "prefix p (butlast q)" using x strict_prefix_snoc_iff by metis
    with False have "strict_prefix p (butlast q)" by (simp add: strict_prefix_def)
    moreover obtain n where "node_at w (butlast q) = Some n"
      using assms(3) by (auto simp: is_dir_at_alt)
    ultimately show ?thesis using assms(1) fs_wf_ancestor by blast
  qed (use assms(3) in simp)
  then show ?thesis using assms(2) is_dir_not_file by (fastforce simp: walk_def)
qed

lemma fs_wf_put:
  assumes "fs_wf w" and "q \<noteq> []" and "is_dir_at w (butlast q)"
    and "is_dir_at w q \<Longrightarrow> is_dir_node n"
  shows "fs_wf (put_node q n w)"
proof -
  have dir: "is_dir_at (put_node q n w) p" if "is_dir_at w p" for p
    using that assms(2,4) by (auto simp: is_dir_at_alt node_at_put)
  have keys: "set (map fst (nodes (put_node q n w))) = insert q (set (map fst (nodes w)))"
    by (auto simp: put_node_def update_keys)
  have "distinct (map fst (nodes (put_node q n w)))"
    using assms(1) by (simp add: put_node_def fs_wf_def distinct_update)
  with assms dir keys show ?thesis unfolding fs_wf_def by auto
qed

lemma fs_wf_del:
  assumes "fs_wf w" and "q \<noteq> []" and "\<And>p. p \<in> set (map fst (nodes w)) \<Longrightarrow> butlast p \<noteq> q"
  shows "fs_wf (del_node q w)"
proof -
  have keys: "map fst (nodes (del_node q w)) = removeAll q (map fst (nodes w))"
    by (simp add: del_node_def delete_keys)
  have "is_dir_at (del_node q w) (butlast p)" if "p \<in> set (map fst (nodes w))" for p
    using that assms by (auto simp: is_dir_at_alt node_at_del fs_wf_def)
  with assms(1) keys show ?thesis
    unfolding fs_wf_def by (auto simp: distinct_removeAll)
qed

lemma fs_wf_del_file:
  assumes "fs_wf w" and "node_at w q = Some (FileNode m c)"
  shows "fs_wf (del_node q w)"
proof (rule fs_wf_del [OF assms(1)])
  show "q \<noteq> []" using assms(2) by (rule file_nonroot)
  fix p assume "p \<in> set (map fst (nodes w))"
  with assms show "butlast p \<noteq> q" by (auto simp: fs_wf_def is_dir_at_def)
qed

lemma fs_wf_del_empty:
  assumes "fs_wf w" and "q \<noteq> []" and "child_names w q = []"
  shows "fs_wf (del_node q w)"
proof (rule fs_wf_del [OF assms(1,2)])
  fix p assume "p \<in> set (map fst (nodes w))"
  with assms(1,3) show "butlast p \<noteq> q"
    by (auto simp: child_names_def filter_empty_conv fs_wf_def)
qed

lemma fs_wf_remove_tree:
  assumes "fs_wf w"
  shows "fs_wf (remove_tree q w)"
proof -
  have dir: "is_dir_at (remove_tree q w) (butlast p)"
    if p: "p \<in> set (map fst (nodes w))" and keep: "\<not> prefix q p \<or> stuck w q p" for p
  proof -
    have up: "prefix (butlast p) p" by (simp add: prefixeq_butlast)
    from keep have "\<not> prefix q (butlast p) \<or> stuck w q (butlast p)"
      using up by (auto simp: stuck_def intro: prefix_order.trans)
    moreover have "is_dir_at w (butlast p)" using assms p by (auto simp: fs_wf_def)
    ultimately show ?thesis by (auto simp: is_dir_at_alt node_at_remove_tree)
  qed
  have "distinct (map fst (nodes (remove_tree q w)))"
    using assms by (simp add: remove_tree_def fs_wf_def distinct_fst_filter)
  with assms dir show ?thesis
    unfolding fs_wf_def by (fastforce simp: remove_tree_def)
qed

lemma fs_wf_open_trunc:
  assumes "fs_wf w"
  shows "fs_wf (snd (open_trunc p perm w))"
proof -
  have old: "fs_wf (put_node q (FileNode m c') w)" if "walk w q = Ok (FileNode m c)" for q m c c'
    using walk_Ok [OF that] assms
    by (intro fs_wf_put) (auto dest: file_nonroot fs_wf_parent simp: is_dir_at_def)
  have new: "fs_wf (put_node q (FileNode m c') w)"
    if "walk w q = Err (PathError ENOENT)" "is_dir_at w (butlast q)" for q m c'
    using walk_Err_ENOENT [OF that(1)] walk_Err_nonroot [OF that(1)] that(2) assms
    by (intro fs_wf_put) (auto simp: is_dir_at_def)
  show ?thesis
    using assms by (auto simp: open_trunc_def change_path_def os_IsNotExist_def
        split: option.splits res.splits node.splits intro: old new)
qed

lemma fs_wf_set_content: "fs_wf w \<Longrightarrow> fs_wf (set_content q c w)"
  by (auto simp: set_content_def is_dir_at_def
      split: option.splits node.splits intro!: fs_wf_put dest: file_nonroot fs_wf_parent)

lemma fs_wf_WriteFile: "fs_wf w \<Longrightarrow> fs_wf (snd (ioutil_WriteFile p d perm w))"
  unfolding ioutil_WriteFile_def
  by (rule io_bind_state [of fs_wf])
    (auto simp: fs_wf_open_trunc write_opened_def Let_def fs_wf_set_content split: option.splits)

lemma fs_wf_Create: "fs_wf w \<Longrightarrow> fs_wf (snd (os_Create p w))"
  by (simp add: os_Create_def fs_wf_open_trunc)

lemma fs_wf_Chmod: "fs_wf w \<Longrightarrow> fs_wf (snd (os_Chmod p m w))"
  by (auto simp: os_Chmod_def change_path_def is_dir_at_def
      split: option.splits res.splits node.splits
      intro!: fs_wf_put dest!: walk_Ok dest: file_nonroot fs_wf_parent)

lemma fs_wf_Remove: "fs_wf w \<Longrightarrow> fs_wf (snd (os_Remove p w))"
  by (auto simp: os_Remove_def change_path_def
      split: option.splits res.splits node.splits
      intro: fs_wf_del_file fs_wf_del_empty dest!: walk_Ok)

lemma fs_wf_RemoveAll: "fs_wf w \<Longrightarrow> fs_wf (snd (os_RemoveAll p w))"
  by (auto simp: os_RemoveAll_def Let_def fs_wf_remove_tree split: res.splits)

text \<open>
  \<open>mkdir_chain\<close> runs over the ancestors of a path from the root down: each one's parent is a
  directory by the time it is made.
\<close>

lemma fs_wf_mkdir_chain:
  assumes "fs_wf w" and "\<And>x qs'. qs = x # qs' \<Longrightarrow> is_dir_at w (butlast x)"
    and "successively (\<lambda>a b. butlast b = a) qs"
  shows "fs_wf (snd (mkdir_chain perm qs w))"
  using assms
proof (induction perm qs w rule: mkdir_chain.induct)
  case (1 perm w)
  then show ?case by simp
next
  case (2 perm q qs w)
  have next_dir: "is_dir_at w' (butlast x)" if "is_dir_at w' q" "qs = x # qs'" for w' x qs'
    using "2.prems"(3) that by simp
  have succ: "successively (\<lambda>a b. butlast b = a) qs"
    using "2.prems"(3) by (auto simp: successively_Cons)
  have new: "fs_wf (put_node q (DirNode m) w)" "is_dir_at (put_node q (DirNode m) w) q"
    if "node_at w q = None" for m
  proof -
    have "q \<noteq> []" using that by (auto simp: node_at_def)
    then show "fs_wf (put_node q (DirNode m) w)" "is_dir_at (put_node q (DirNode m) w) q"
      using "2.prems" by (auto intro!: fs_wf_put simp: node_at_put is_dir_at_def)
  qed
  show ?case
    using "2.prems"(1) succ next_dir new
    by (auto split: option.splits node.splits intro!: "2.IH" simp: is_dir_at_def)
qed

lemma prefixes_successive: "successively (\<lambda>a b. butlast b = a) (prefixes q)"
  by (induction q rule: rev_induct)
    (auto simp: prefixes_snoc successively_append_iff last_prefixes)

lemma fs_wf_MkdirAll: "fs_wf w \<Longrightarrow> fs_wf (snd (os_MkdirAll p perm w))"
proof -
  assume wf: "fs_wf w"
  have "fs_wf (snd (mkdir_chain perm (prefixes q) w))" for q
    by (rule fs_wf_mkdir_chain [OF wf _ prefixes_successive]) (cases q; auto)
  then show ?thesis using wf by (simp add: os_MkdirAll_def)
qed

lemmas fs_wf_ops = fs_wf_WriteFile fs_wf_Create fs_wf_Chmod fs_wf_Remove fs_wf_RemoveAll
  fs_wf_MkdirAll

section \<open>What the calls do\<close>

lemma file_content_Ok_iff: "file_content n = Ok d \<longleftrightarrow> (\<exists>m. n = FileNode m d)"
  by (auto simp: file_content_def split: node.splits)

lemma walk_Ok_iff: "fs_wf w \<Longrightarrow> walk w q = Ok n \<longleftrightarrow> node_at w q = Some n"
  by (auto dest: walk_Ok walk_node)

lemma walk_file_nonroot: "walk w q = Ok (FileNode m c) \<Longrightarrow> q \<noteq> []"
  by (blast dest: walk_Ok file_nonroot)

lemma ReadFile_Ok_iff:
  assumes "fs_wf w"
  shows "ioutil_ReadFile p w = Ok d \<longleftrightarrow>
    p \<noteq> '''' \<and> refuses w OpOpen (resolve (cwd w) p) = None \<and>
    (\<exists>m. node_at w (resolve (cwd w) p) = Some (FileNode m d))"
  using assms
  by (auto simp: ioutil_ReadFile_def at_path_def res_bind_Ok_iff file_content_Ok_iff walk_Ok_iff
      split: option.splits)

lemma ReadFile_frame:
  assumes "fs_wf w" "fs_wf w'" "fs_frame D w w'" "resolve (cwd w) p \<notin> D"
  shows "ioutil_ReadFile p w' = Ok d \<longleftrightarrow> ioutil_ReadFile p w = Ok d"
  using assms by (simp add: ReadFile_Ok_iff fs_frame_def same_env_def)

lemma ReadFile_kept:
  assumes "fs_wf w" "fs_wf w'" "same_env w w'" "ioutil_ReadFile p w = Ok d"
    and "\<And>n. node_at w (resolve (cwd w) p) = Some n \<Longrightarrow> node_at w' (resolve (cwd w) p) = Some n"
  shows "ioutil_ReadFile p w' = Ok d"
  using assms by (auto simp: ReadFile_Ok_iff same_env_def)

lemma open_trunc_Ok:
  assumes "open_trunc p perm w = (Ok (), w')"
  shows "p \<noteq> '''' \<and> resolve (cwd w) p \<noteq> [] \<and>
    (\<exists>m. node_at w' (resolve (cwd w) p) = Some (FileNode m ''''))"
  using assms
  by (auto simp: open_trunc_def change_path_def node_at_put
      split: if_splits option.splits res.splits node.splits
      dest: walk_file_nonroot walk_Err_nonroot)

lemma open_trunc_mode:
  assumes "open_trunc p perm w = (Ok (), w')"
  shows "node_at w' (resolve (cwd w) p) =
    Some (FileNode (case node_at w (resolve (cwd w) p) of
        Some (FileNode m _) \<Rightarrow> m | _ \<Rightarrow> perm AND NOT (umask w)) '''')"
  using assms
  using walk_Ok [of w "resolve (cwd w) p"] walk_file_nonroot [of w "resolve (cwd w) p"]
  by (auto simp: open_trunc_def change_path_def node_at_put os_IsNotExist_def
      split: if_splits option.splits res.splits node.splits
      dest: walk_Err_nonroot walk_Err_ENOENT)

lemma WriteFile_Ok:
  assumes "ioutil_WriteFile p d perm w = (Ok (), w')"
  shows "p \<noteq> '''' \<and> resolve (cwd w) p \<noteq> [] \<and>
    (\<exists>m. node_at w' (resolve (cwd w) p) = Some (FileNode m d))"
proof -
  from assms obtain w1 where w1: "open_trunc p perm w = (Ok (), w1)"
    and w': "write_opened p d w1 = (Ok (), w')"
    by (auto simp: ioutil_WriteFile_def io_bind_Ok_iff)
  have "cwd w1 = cwd w"
    using open_trunc_frame [of w p perm] w1 by (auto dest: fs_frame_cwd)
  with open_trunc_Ok [OF w1] w' show ?thesis
    by (auto simp: write_opened_def Let_def set_content_def node_at_put split: option.splits)
qed

lemma read_after_write:
  assumes "fs_wf w" and "ioutil_WriteFile p d perm w = (Ok (), w')"
    and "refuses w OpOpen (resolve (cwd w) p) = None"
  shows "ioutil_ReadFile p w' = Ok d"
proof -
  have wf: "fs_wf w'" and fr: "fs_frame {resolve (cwd w) p} w w'"
    using fs_wf_WriteFile [OF assms(1), of p d perm] WriteFile_frame [of w p d perm] assms(2)
    by simp_all
  then show ?thesis
    using WriteFile_Ok [OF assms(2)] assms(3) by (simp add: ReadFile_Ok_iff fs_frame_def same_env_def)
qed

lemma Create_Ok:
  assumes "os_Create p w = (Ok (), w')"
  shows "\<exists>m. node_at w' (resolve (cwd w) p) = Some (FileNode m '''')"
  using open_trunc_Ok [of p _ w w'] assms by (auto simp: os_Create_def)

lemma Remove_Ok:
  assumes "os_Remove p w = (Ok (), w')"
  shows "node_at w (resolve (cwd w) p) \<noteq> None \<and> node_at w' (resolve (cwd w) p) = None"
  using assms
  by (auto simp: os_Remove_def change_path_def node_at_del
      split: if_splits option.splits res.splits node.splits dest: walk_Ok file_nonroot)

lemma Remove_not_Ok: "fst (os_Remove p w) \<noteq> Ok () \<Longrightarrow> snd (os_Remove p w) = w"
  by (auto simp: os_Remove_def change_path_def split: option.splits res.splits node.splits)

lemma below_missing:
  assumes "fs_wf w" and "node_at w q = None" and "prefix q r"
  shows "node_at w r = None"
proof (rule ccontr)
  assume "node_at w r \<noteq> None"
  then obtain n where n: "node_at w r = Some n" by auto
  with assms(2,3) have "strict_prefix q r" by (auto simp: strict_prefix_def)
  from fs_wf_ancestor [OF assms(1) n this] assms(2) show False
    by (simp add: is_dir_at_def)
qed

lemma RemoveAll_Ok:
  assumes "fs_wf w" and "os_RemoveAll p w = (Ok (), w')" and "p \<noteq> ''''"
    and "prefix (resolve (cwd w) p) r"
  shows "node_at w' r = None"
proof -
  let ?q = "resolve (cwd w) p"
  consider (missing) "node_at w ?q = None" "w' = w"
    | (removed) "?q \<noteq> []" "\<not> stuck w ?q ?q" "w' = remove_tree ?q w"
  proof (cases "walk w ?q")
    case (Ok n)
    with assms(2,3) show ?thesis
      by (intro removed) (simp_all add: os_RemoveAll_def Let_def split: if_splits)
  next
    case (Err e)
    with assms(2,3) have "e = PathError ENOENT" and "w' = w"
      by (simp_all add: os_RemoveAll_def Let_def os_IsNotExist_def split: if_splits)
    with Err show ?thesis by (intro missing) (auto dest: walk_Err_ENOENT)
  qed simp
  then show ?thesis
  proof cases
    case missing
    then show ?thesis using below_missing [OF assms(1) _ assms(4)] by simp
  next
    case removed
    have "r \<noteq> []" using removed(1) assms(4) by auto
    moreover have "\<not> stuck w ?q r" using removed(2) by (auto simp: stuck_def)
    ultimately show ?thesis using removed(3) assms(4) by (simp add: node_at_remove_tree)
  qed
qed

lemma mkdir_chain_keeps:
  "node_at w p = Some n \<Longrightarrow> node_at (snd (mkdir_chain perm qs w)) p = Some n"
proof (induction perm qs w rule: mkdir_chain.induct)
  case (1 perm w)
  then show ?case by simp
next
  case (2 perm q qs w)
  have keep: "node_at (put_node q m w) p = Some n" if "node_at w q = None" for m
    using that "2.prems" by (subst node_at_put) (auto simp: node_at_def)
  then show ?case
    using "2.prems" by (auto split: option.splits node.splits intro: "2.IH")
qed

lemma mkdir_chain_Ok:
  "mkdir_chain perm qs w = (Ok (), w') \<Longrightarrow> p \<in> set qs \<Longrightarrow> is_dir_at w' p"
proof (induction perm qs w rule: mkdir_chain.induct)
  case (1 perm w)
  then show ?case by simp
next
  case (2 perm q qs w)
  have keep: "is_dir_at w' q" if "node_at v q = Some (DirNode m)" "mkdir_chain perm qs v = (Ok (), w')"
    for v m
    using mkdir_chain_keeps [OF that(1), of perm qs] that(2) by (simp add: is_dir_at_def)
  have "node_at (put_node q (DirNode m) w) q = Some (DirNode m)" if "node_at w q = None" for m
    using that by (subst node_at_put) (auto simp: node_at_def)
  with 2 keep show ?case
    by (auto split: option.splits node.splits)
qed

lemma MkdirAll_keeps:
  "node_at w p = Some n \<Longrightarrow> node_at (snd (os_MkdirAll d perm w)) p = Some n"
  by (simp add: os_MkdirAll_def mkdir_chain_keeps)

lemma MkdirAll_Ok:
  "os_MkdirAll d perm w = (Ok (), w') \<Longrightarrow> prefix p (resolve (cwd w) d) \<Longrightarrow> is_dir_at w' p"
  by (auto simp: os_MkdirAll_def split: if_splits intro: mkdir_chain_Ok)

lemma ops_never_panic [simp]:
  "ioutil_ReadFile p w \<noteq> Panic m" "os_Stat p w \<noteq> Panic m" "ioutil_ReadDir p w \<noteq> Panic m"
  by (auto simp: ioutil_ReadFile_def os_Stat_def ioutil_ReadDir_def at_path_def file_content_def
      split: option.splits node.splits elim: res_bind.elims)

section \<open>Directory listings\<close>

definition dir_entries :: "world \<Rightarrow> string list \<Rightarrow> string set" where
  "dir_entries w q = {n. node_at w (q @ [n]) \<noteq> None}"

lemma set_child_names: "set (child_names w q) = dir_entries w q"
proof -
  have key: "p \<noteq> [] \<and> butlast p = q \<and> last p = n \<longleftrightarrow> p = q @ [n]" for p n
    by (auto simp: snoc_eq_iff_butlast)
  have "n \<in> set (child_names w q) \<longleftrightarrow> (\<exists>p \<in> set (map fst (nodes w)). p \<noteq> [] \<and> butlast p = q \<and> last p = n)"
    for n
    unfolding child_names_def by (simp only: set_map set_filter image_iff) blast
  then have "n \<in> set (child_names w q) \<longleftrightarrow> q @ [n] \<in> set (map fst (nodes w))" for n
    unfolding key by blast
  then show ?thesis
    by (auto simp: dir_entries_def node_at_def map_of_eq_None_iff)
qed

lemma distinct_child_names:
  assumes "fs_wf w"
  shows "distinct (child_names w q)"
  unfolding child_names_def
proof (subst distinct_map, intro conjI)
  show "distinct (filter (\<lambda>p. p \<noteq> [] \<and> butlast p = q) (map fst (nodes w)))"
    using assms by (simp add: fs_wf_def)
  show "inj_on last (set (filter (\<lambda>p. p \<noteq> [] \<and> butlast p = q) (map fst (nodes w))))"
    by (auto intro!: inj_onI) (metis append_butlast_last_id fst_conv)
qed

lemma length_child_names: "fs_wf w \<Longrightarrow> length (child_names w q) = card (dir_entries w q)"
  using distinct_card [OF distinct_child_names] by (simp add: set_child_names)

lemma finite_dir_entries [simp]: "finite (dir_entries w q)"
  using set_child_names [of w q] by (metis List.finite_set)

lemma ReadDir_Ok_iff:
  assumes "fs_wf w"
  shows "ioutil_ReadDir p w = Ok ns \<longleftrightarrow>
    p \<noteq> '''' \<and> refuses w OpReadDir (resolve (cwd w) p) = None \<and>
    is_dir_at w (resolve (cwd w) p) \<and> ns = sort (child_names w (resolve (cwd w) p))"
  using assms
  by (auto simp: ioutil_ReadDir_def at_path_def res_bind_Ok_iff walk_node is_dir_at_def
      dest!: walk_Ok split: option.splits node.splits)

section \<open>A machine for concrete runs\<close>

text \<open>A machine that refuses nothing, with the given files and directories.\<close>

definition machine :: "(string list \<times> node) list \<Rightarrow> world" where
  "machine ns =
     \<lparr>nodes = ns, refuses = (\<lambda>_ _. None), written = (\<lambda>_. 0), umask = octal 0 2 2, cwd = [],
      procs = [], kill_refused = (\<lambda>_. False), logs = []\<rparr>"

lemma machine_simps [simp]:
  "nodes (machine ns) = ns" "refuses (machine ns) = (\<lambda>_ _. None)" "cwd (machine ns) = []"
  "procs (machine ns) = []" "kill_refused (machine ns) = (\<lambda>_. False)" "logs (machine ns) = []"
  by (simp_all add: machine_def)

lemma eq_pair_fst: "fst p = r \<Longrightarrow> p = (r, snd p)"
  by (cases p) simp

end
