(* ===== verification/Redis_Conf.thy ===== *)
theory Redis_Conf
  imports Go_OS
begin

text \<open>
  The package \<open>redisconf\<close> (\<open>src/redisconf/redisconf.go\<close>): a \<open>redis.conf\<close> file as the list
  of its parameters, its textual form, lookup and update of parameters, and the copy of the
  default configuration with the settings of one instance added.

  Three interfaces are stated as locales: a table of settings (\<open>settings\<close>), a textual encoding
  (\<open>codec\<close>) and a store of texts (\<open>text_store\<close>); \<open>coded_store\<close> combines the last two.
\<close>

section \<open>The code\<close>

record param =
  Key :: string
  Value :: string

type_synonym conf = "param list"

definition DefaultHost :: string where "DefaultHost = ''127.0.0.1''"
definition DefaultPort :: int where "DefaultPort = 6379"
definition DefaultTLSPort :: int where "DefaultTLSPort = 16379"

definition parseParam :: "string \<Rightarrow> param res" where
  "parseParam line =
     (case strings_SplitN2 (CHR '' '') line of
        [k, v] \<Rightarrow> Ok \<lparr>Key = k, Value = v\<rparr>
      | _ \<Rightarrow> Err (ErrorString
               (''Unable to split redis.conf parameter into key/value pair: '' @ line)))"

text \<open>The lines that \<open>decode\<close> passes over: empty ones, comments, and indented ones.\<close>

definition skipped_line :: "string \<Rightarrow> bool" where
  "skipped_line line \<longleftrightarrow>
     line = '''' \<or> hd line = CHR ''#'' \<or> hd line = CHR '' '' \<or> hd line = CHR 0x09 \<or>
     hd line = CHR 0x0A"

fun decode_loop :: "conf \<Rightarrow> string list \<Rightarrow> conf res" where
  "decode_loop conf [] = Ok conf"
| "decode_loop conf (line # lines) =
     (if skipped_line line then decode_loop conf lines
      else (case parseParam line of
              Ok param \<Rightarrow> decode_loop (conf @ [param]) lines
            | Err e \<Rightarrow> Err e
            | Panic m \<Rightarrow> Panic m))"

definition decode :: "string \<Rightarrow> conf res" where
  "decode data = decode_loop [] (scan_lines data)"

fun Encode :: "conf \<Rightarrow> string" where
  "Encode [] = ''''"
| "Encode (p # conf) = (Key p @ '' '' @ Value p @ [CHR 0x0A]) @ Encode conf"

definition Conf_Load :: "string \<Rightarrow> world \<Rightarrow> conf res" where
  "Conf_Load path w = res_bind (ioutil_ReadFile path w) decode"

definition Conf_Save :: "conf \<Rightarrow> string \<Rightarrow> world \<Rightarrow> unit res \<times> world" where
  "Conf_Save conf path w = ioutil_WriteFile path (Encode conf) (octal 6 4 4) w"

definition getAll :: "conf \<Rightarrow> string \<Rightarrow> param list" where
  "getAll conf key = filter (\<lambda>p. key = Key p) conf"

definition Conf_Get :: "conf \<Rightarrow> string \<Rightarrow> string" where
  "Conf_Get conf key =
     (let params = getAll conf key in
      if length params < 1 then '''' else Value (params ! 0))"

fun HasKey :: "conf \<Rightarrow> string \<Rightarrow> bool" where
  "HasKey [] key = False"
| "HasKey (p # conf) key = (if key = Key p then True else HasKey conf key)"

fun Conf_Set :: "string \<Rightarrow> string \<Rightarrow> conf \<Rightarrow> conf" where
  "Conf_Set key value [] = [\<lparr>Key = key, Value = value\<rparr>]"
| "Conf_Set key value (p # conf) =
     (if key = Key p then \<lparr>Key = key, Value = value\<rparr> # conf
      else p # Conf_Set key value conf)"

definition Conf_Host :: "conf \<Rightarrow> string" where
  "Conf_Host conf =
     (let host = Conf_Get conf ''bind'' in if host = '''' then DefaultHost else host)"

definition Conf_Port :: "conf \<Rightarrow> int" where
  "Conf_Port conf =
     (case strconv_Atoi (Conf_Get conf ''port'') of
        Ok port \<Rightarrow>
          if port = 0 then
            (case strconv_Atoi (Conf_Get conf ''tls-port'') of
               Ok tlsPort \<Rightarrow> tlsPort
             | _ \<Rightarrow> DefaultTLSPort)
          else port
      | _ \<Rightarrow> DefaultPort)"

definition Conf_Tls :: "conf \<Rightarrow> bool" where
  "Conf_Tls conf \<longleftrightarrow> Conf_Get conf ''tls-port'' \<noteq> '''' \<and> Conf_Get conf ''port'' = ''0''"

definition Conf_Password :: "conf \<Rightarrow> string" where
  "Conf_Password conf = Conf_Get conf ''requirepass''"

text \<open>
  \<open>CommandAliases\<close>: \<open>args[1]\<close> panics when a \<open>rename-command\<close> value has no blank. Later
  entries for the same command overwrite earlier ones.
\<close>

fun aliases_loop :: "param list \<Rightarrow> (string \<times> string) list \<Rightarrow> (string \<times> string) list res" where
  "aliases_loop [] m = Ok m"
| "aliases_loop (p # ps) m =
     (case strings_Split (CHR '' '') (Value p) of
        original # arg # _ \<Rightarrow>
          aliases_loop ps (AList.update original (strings_RemoveAll (CHR 0x22) arg) m)
      | _ \<Rightarrow> Panic ''index out of range'')"

definition CommandAliases :: "conf \<Rightarrow> (string \<times> string) list res" where
  "CommandAliases conf = aliases_loop (getAll conf ''rename-command'') []"

definition instance_additions ::
    "string \<Rightarrow> string \<Rightarrow> string \<Rightarrow> string \<Rightarrow> conf \<Rightarrow> conf" where
  "instance_additions instanceID port password pidDir c0 =
     (let c1 = Conf_Set ''syslog-enabled'' ''yes'' c0;
          c2 = Conf_Set ''syslog-ident'' (''redis-server-'' @ instanceID) c1;
          c3 = Conf_Set ''syslog-facility'' ''local0'' c2;
          c4 = Conf_Set ''port'' port c3;
          c5 = Conf_Set ''requirepass'' password c4
      in Conf_Set ''pidfile'' (path_Join [pidDir, instanceID @ ''.pid'']) c5)"

definition CopyWithInstanceAdditions ::
    "string \<Rightarrow> string \<Rightarrow> string \<Rightarrow> string \<Rightarrow> string \<Rightarrow> string \<Rightarrow> world \<Rightarrow> unit res \<times> world" where
  "CopyWithInstanceAdditions fromPath toPath instanceID port password pidDir w =
     (case Conf_Load fromPath w of
        Err e \<Rightarrow> (Err e, w)
      | Panic m \<Rightarrow> (Panic m, w)
      | Ok defaultConfig \<Rightarrow>
          (let (r, w1) =
                 Conf_Save (instance_additions instanceID port password pidDir defaultConfig)
                   toPath w;
               w2 = snd (os_Chmod toPath (octal 6 4 0) w1)
           in (r, w2)))"

text \<open>
  \<open>setMaxMemory\<close>, \<open>setPassword\<close> and \<open>setRandomPassword\<close>: the machine's memory and the
  random identifier are arguments.
\<close>

definition setMaxMemory :: "int res \<Rightarrow> conf \<Rightarrow> conf res" where
  "setMaxMemory maxMem c =
     res_bind maxMem (\<lambda>m. Ok (Conf_Set ''maxmemory'' (strconv_Itoa m) c))"

definition setPassword :: "string \<Rightarrow> conf \<Rightarrow> conf" where
  "setPassword password c = Conf_Set ''requirepass'' password c"

definition setRandomPassword :: "string \<Rightarrow> conf \<Rightarrow> conf" where
  "setRandomPassword uuid c = setPassword uuid c"

section \<open>The interface of a table of settings\<close>

locale settings =
  fixes get :: "'c \<Rightarrow> string \<Rightarrow> string"
    and put :: "string \<Rightarrow> string \<Rightarrow> 'c \<Rightarrow> 'c"
  assumes get_put_same: "get (put k v c) k = v"
    and get_put_other: "k' \<noteq> k \<Longrightarrow> get (put k v c) k' = get c k'"
begin

lemma get_put: "get (put k v c) k' = (if k' = k then v else get c k')"
  using get_put_same get_put_other by simp

lemma get_put_all:
  "get (fold (\<lambda>(k, v). put k v) kvs c) k' =
     (case map_of (rev kvs) k' of Some v \<Rightarrow> v | None \<Rightarrow> get c k')"
  by (induction kvs rule: rev_induct) (auto simp: get_put)

lemma get_put_twice: "get (put k v (put k u c)) k' = get (put k v c) k'"
  by (simp add: get_put)

end

lemma Get_Set_same: "Conf_Get (Conf_Set k v c) k = v"
  by (induction c) (auto simp: Conf_Get_def getAll_def)

lemma getAll_Set_other: "k' \<noteq> k \<Longrightarrow> getAll (Conf_Set k v c) k' = getAll c k'"
  by (induction c) (auto simp: getAll_def)

interpretation conf: settings Conf_Get Conf_Set
proof unfold_locales
  show "Conf_Get (Conf_Set k v c) k = v" for k v c
    by (rule Get_Set_same)
  show "Conf_Get (Conf_Set k v c) k' = Conf_Get c k'" if "k' \<noteq> k" for k v c k'
    using getAll_Set_other [OF that] by (simp add: Conf_Get_def)
qed

lemmas Get_Set [conf_simps] = conf.get_put

section \<open>The interface of encodings and stores\<close>

locale codec =
  fixes enc :: "'c \<Rightarrow> string"
    and dec :: "string \<Rightarrow> 'c res"
    and valid :: "'c \<Rightarrow> bool"
  assumes dec_enc: "valid c \<Longrightarrow> dec (enc c) = Ok c"
begin

lemma enc_inj: "valid a \<Longrightarrow> valid b \<Longrightarrow> enc a = enc b \<Longrightarrow> a = b"
  using dec_enc by (metis res.inject(1))

end

locale text_store =
  fixes fetch :: "string \<Rightarrow> 'w \<Rightarrow> string res"
    and store :: "string \<Rightarrow> string \<Rightarrow> 'w \<Rightarrow> unit res \<times> 'w"
    and inv :: "'w \<Rightarrow> bool"
    and readable :: "string \<Rightarrow> 'w \<Rightarrow> bool"
    and apart :: "'w \<Rightarrow> string \<Rightarrow> string \<Rightarrow> bool"
  assumes inv_store: "inv w \<Longrightarrow> inv (snd (store p d w))"
    and fetch_store: "inv w \<Longrightarrow> readable p w \<Longrightarrow> store p d w = (Ok (), w') \<Longrightarrow> fetch p w' = Ok d"
    and fetch_other:
      "inv w \<Longrightarrow> apart w p q \<Longrightarrow> fetch q (snd (store p d w)) = Ok e \<longleftrightarrow> fetch q w = Ok e"
    and readable_store: "readable q (snd (store p d w)) = readable q w"
    and apart_store: "apart (snd (store p d w)) = apart w"

locale coded_store = codec enc dec valid + text_store fetch store inv readable apart
  for enc :: "'c \<Rightarrow> string" and dec valid
    and fetch :: "string \<Rightarrow> 'w \<Rightarrow> string res" and store inv readable apart
begin

lemma load_save:
  assumes "inv w" "readable p w" "valid c" "store p (enc c) w = (Ok (), w')"
  shows "res_bind (fetch p w') dec = Ok c"
  using fetch_store [OF assms(1,2,4)] dec_enc [OF assms(3)] by simp

lemma load_after_other_save:
  assumes "inv w" "apart w p q" "res_bind (fetch q w) dec = Ok c"
  shows "res_bind (fetch q (snd (store p d w))) dec = Ok c"
  using fetch_other [OF assms(1,2)] assms(3) by (auto simp: res_bind_Ok_iff)

end

section \<open>Well-formed configurations and the encoding\<close>

text \<open>
  A parameter that survives being written and read back: its key can be told from a comment and
  from its value, it stays on its line, no carriage return at its end is dropped, and the line
  fits the scanner's buffer.
\<close>

definition wf_value :: "string \<Rightarrow> bool" where
  "wf_value v \<longleftrightarrow> CHR 0x0A \<notin> set v \<and> (v \<noteq> [] \<longrightarrow> last v \<noteq> CHR 0x0D)"

lemma wf_value_Itoa: "wf_value (strconv_Itoa p)"
proof -
  have "c \<noteq> CHR 0x0A \<and> c \<noteq> CHR 0x0D" if "c \<in> set (strconv_Itoa p)" for c
    using Itoa_chars [OF that] by (auto simp: is_digit_def)
  then show ?thesis by (auto simp: wf_value_def)
qed

definition wf_key :: "string \<Rightarrow> bool" where
  "wf_key k \<longleftrightarrow> \<not> skipped_line k \<and> CHR '' '' \<notin> set k \<and> CHR 0x0A \<notin> set k"

definition wf_param :: "param \<Rightarrow> bool" where
  "wf_param p \<longleftrightarrow> wf_key (Key p) \<and> wf_value (Value p) \<and>
     fits_buffer (Key p @ '' '' @ Value p)"

definition wf_conf :: "conf \<Rightarrow> bool" where
  "wf_conf c \<longleftrightarrow> (\<forall>p \<in> set c. wf_param p)"

lemma parseParam_line: "CHR '' '' \<notin> set k \<Longrightarrow> parseParam (k @ '' '' @ v) = Ok \<lparr>Key = k, Value = v\<rparr>"
  by (simp add: parseParam_def strings_SplitN2_split)

lemma parseParam_no_blank:
  "CHR '' '' \<notin> set l \<Longrightarrow> parseParam l = Err (ErrorString
     (''Unable to split redis.conf parameter into key/value pair: '' @ l))"
  by (simp add: parseParam_def strings_SplitN2_notin)

lemma parseParam_never_panics [simp]: "parseParam l \<noteq> Panic m"
  by (auto simp: parseParam_def split: list.splits)

lemma decode_loop_acc: "decode_loop c ls = res_bind (decode_loop [] ls) (\<lambda>d. Ok (c @ d))"
proof (induction ls arbitrary: c)
  case Nil
  then show ?case by simp
next
  case (Cons l ls)
  show ?case
  proof (cases "skipped_line l")
    case True
    then show ?thesis using Cons [of c] by simp
  next
    case False
    show ?thesis
    proof (cases "parseParam l")
      case (Ok p)
      with False show ?thesis
        using Cons [of "c @ [p]"] Cons [of "[p]"] by (cases "decode_loop [] ls") auto
    qed (use False in auto)
  qed
qed

lemma dropCR_wf: "wf_value v \<Longrightarrow> v \<noteq> [] \<or> x \<noteq> CHR 0x0D \<Longrightarrow> dropCR (k @ x # v) = k @ x # v"
  by (auto simp: dropCR_def wf_value_def)

lemma decode_Encode:
  assumes "wf_conf c"
  shows "decode (Encode c) = Ok c"
  using assms
proof (induction c)
  case Nil
  then show ?case by (simp add: decode_def)
next
  case (Cons p c)
  let ?line = "Key p @ '' '' @ Value p"
  from Cons.prems have wf: "wf_param p" and IH: "decode (Encode c) = Ok c"
    using Cons.IH by (auto simp: wf_conf_def)
  from wf have "scan_lines (?line @ CHR 0x0A # Encode c) = ?line # scan_lines (Encode c)"
    using dropCR_wf [of "Value p" "CHR '' ''" "Key p"]
    by (subst scan_lines_line) (auto simp: wf_param_def wf_key_def wf_value_def fits_buffer_def)
  moreover have "\<not> skipped_line ?line"
    using wf by (auto simp: wf_param_def wf_key_def skipped_line_def hd_append)
  moreover have "parseParam ?line = Ok p"
    using wf by (simp add: parseParam_line [simplified] wf_param_def wf_key_def)
  ultimately show ?case
    using IH decode_loop_acc [of "[p]" "scan_lines (Encode c)"] by (simp add: decode_def)
qed

interpretation conf_codec: codec Encode decode wf_conf
  by unfold_locales (rule decode_Encode)

interpretation os_files: text_store ioutil_ReadFile "\<lambda>p d. ioutil_WriteFile p d (octal 6 4 4)" fs_wf
  "\<lambda>p w. refuses w OpOpen (resolve (cwd w) p) = None"
  "\<lambda>w p q. resolve (cwd w) p \<noteq> resolve (cwd w) q"
proof unfold_locales
  fix w :: world and p q d :: string
  have fr: "fs_frame {resolve (cwd w) p} w (snd (ioutil_WriteFile p d (octal 6 4 4) w))"
    by (rule WriteFile_frame)
  show "fs_wf (snd (ioutil_WriteFile p d (octal 6 4 4) w))" if "fs_wf w"
    using that by (rule fs_wf_WriteFile)
  show "(ioutil_ReadFile q (snd (ioutil_WriteFile p d (octal 6 4 4) w)) = Ok e) =
      (ioutil_ReadFile q w = Ok e)"
    if "fs_wf w" "resolve (cwd w) p \<noteq> resolve (cwd w) q" for e
    using that ReadFile_frame [OF that(1) fs_wf_WriteFile [OF that(1)] fr] by auto
  show "(refuses (snd (ioutil_WriteFile p d (octal 6 4 4) w)) OpOpen
      (resolve (cwd (snd (ioutil_WriteFile p d (octal 6 4 4) w))) q) = None) =
      (refuses w OpOpen (resolve (cwd w) q) = None)"
    using fr by (simp add: fs_frame_def same_env_def)
  show "(\<lambda>a b. resolve (cwd (snd (ioutil_WriteFile p d (octal 6 4 4) w))) a \<noteq>
      resolve (cwd (snd (ioutil_WriteFile p d (octal 6 4 4) w))) b) =
      (\<lambda>a b. resolve (cwd w) a \<noteq> resolve (cwd w) b)"
    using fr by (simp add: fs_frame_def same_env_def)
qed (rule read_after_write)

interpretation conf_files: coded_store Encode decode wf_conf
  ioutil_ReadFile "\<lambda>p d. ioutil_WriteFile p d (octal 6 4 4)" fs_wf
  "\<lambda>p w. refuses w OpOpen (resolve (cwd w) p) = None"
  "\<lambda>w p q. resolve (cwd w) p \<noteq> resolve (cwd w) q"
  by unfold_locales

lemma Load_Save:
  assumes "fs_wf w" "wf_conf c" "refuses w OpOpen (resolve (cwd w) p) = None"
    and "Conf_Save c p w = (Ok (), w')"
  shows "Conf_Load p w' = Ok c"
  using conf_files.load_save assms by (simp add: Conf_Load_def Conf_Save_def)

lemma Load_never_panics [simp]: "Conf_Load p w \<noteq> Panic m"
proof -
  have "decode_loop c ls \<noteq> Panic m" for c ls
    by (induction c ls rule: decode_loop.induct) (auto split: res.splits)
  then show ?thesis
    by (cases "ioutil_ReadFile p w") (auto simp: Conf_Load_def decode_def)
qed

lemma Load_frame:
  assumes "fs_wf w" "fs_wf w'" "fs_frame D w w'" "resolve (cwd w) p \<notin> D"
  shows "Conf_Load p w' = Ok c \<longleftrightarrow> Conf_Load p w = Ok c"
  using ReadFile_frame [OF assms] by (auto simp: Conf_Load_def res_bind_Ok_iff)

lemma wf_conf_Set: "wf_conf c \<Longrightarrow> wf_param \<lparr>Key = k, Value = v\<rparr> \<Longrightarrow> wf_conf (Conf_Set k v c)"
  by (induction c) (auto simp: wf_conf_def)

section \<open>Lemmas for the properties\<close>

text \<open>The meaning of a configuration text, without the loop and its accumulator.\<close>

definition line_param :: "string \<Rightarrow> param" where
  "line_param l =
     \<lparr>Key = takeWhile (\<lambda>x. x \<noteq> CHR '' '') l, Value = tl (dropWhile (\<lambda>x. x \<noteq> CHR '' '') l)\<rparr>"

definition decode_ref :: "string \<Rightarrow> conf res" where
  "decode_ref data =
     (let ls = filter (\<lambda>l. \<not> skipped_line l) (scan_lines data) in
      case find (\<lambda>l. CHR '' '' \<notin> set l) ls of
        Some l \<Rightarrow> Err (ErrorString
          (''Unable to split redis.conf parameter into key/value pair: '' @ l))
      | None \<Rightarrow> Ok (map line_param ls))"

lemma parseParam_blank:
  assumes "CHR '' '' \<in> set l"
  shows "parseParam l = Ok (line_param l)"
proof -
  from assms obtain k v where l: "l = k @ CHR '' '' # v" and k: "CHR '' '' \<notin> set k"
    using split_list_first by metis
  then have "\<forall>x \<in> set k. x \<noteq> CHR '' ''" by auto
  then have "line_param l = \<lparr>Key = k, Value = v\<rparr>" by (simp add: l line_param_def)
  then show ?thesis using parseParam_line [OF k, of v] l by simp
qed

lemma decode_loop_ref:
  "decode_loop [] ls =
     (case find (\<lambda>l. CHR '' '' \<notin> set l) (filter (\<lambda>l. \<not> skipped_line l) ls) of
        Some l \<Rightarrow> Err (ErrorString
          (''Unable to split redis.conf parameter into key/value pair: '' @ l))
      | None \<Rightarrow> Ok (map line_param (filter (\<lambda>l. \<not> skipped_line l) ls)))"
proof (induction ls)
  case Nil
  then show ?case by simp
next
  case (Cons l ls)
  consider "skipped_line l" | "\<not> skipped_line l" "CHR '' '' \<in> set l"
    | "\<not> skipped_line l" "CHR '' '' \<notin> set l" by blast
  then show ?case
  proof cases
    case 1
    then show ?thesis using Cons by (simp split: option.splits)
  next
    case 2
    then show ?thesis
      using Cons decode_loop_acc [of "[line_param l]" ls]
      by (simp add: parseParam_blank split: option.splits)
  next
    case 3
    then show ?thesis by (simp add: parseParam_no_blank)
  qed
qed

lemma Split_hd: "hd (strings_Split c s) = takeWhile (\<lambda>x. x \<noteq> c) s"
  by (induction s) (auto split: list.splits)

lemma Split_blank:
  assumes "c \<in> set s"
  shows "strings_Split c s = takeWhile (\<lambda>x. x \<noteq> c) s # strings_Split c (tl (dropWhile (\<lambda>x. x \<noteq> c) s))"
proof -
  from assms obtain k v where s: "s = k @ c # v" and k: "c \<notin> set k"
    using split_list_first by metis
  then have "\<forall>x \<in> set k. x \<noteq> c" by auto
  then show ?thesis using k by (simp add: s)
qed

definition alias_entry :: "param \<Rightarrow> string \<times> string" where
  "alias_entry p =
     (let l = line_param (Value p) in
      (Key l, strings_RemoveAll (CHR 0x22) (takeWhile (\<lambda>x. x \<noteq> CHR '' '') (Value l))))"

lemma aliases_loop_panics:
  "p \<in> set ps \<Longrightarrow> CHR '' '' \<notin> set (Value p) \<Longrightarrow> aliases_loop ps m = Panic ''index out of range''"
  by (induction ps m rule: aliases_loop.induct) (auto split: list.splits)

lemma aliases_loop_step:
  assumes "CHR '' '' \<in> set (Value p)"
  shows "aliases_loop (p # ps) m =
    aliases_loop ps (AList.update (fst (alias_entry p)) (snd (alias_entry p)) m)"
proof -
  let ?rest = "strings_Split (CHR '' '') (tl (dropWhile (\<lambda>x. x \<noteq> CHR '' '') (Value p)))"
  obtain t where "?rest = takeWhile (\<lambda>x. x \<noteq> CHR '' '')
      (tl (dropWhile (\<lambda>x. x \<noteq> CHR '' '') (Value p))) # t"
    by (metis Split_hd list.collapse strings_Split_nonempty)
  then show ?thesis
    using Split_blank [OF assms] by (simp add: alias_entry_def line_param_def)
qed

lemma aliases_loop_Ok:
  "\<forall>p \<in> set ps. CHR '' '' \<in> set (Value p) \<Longrightarrow>
     \<exists>m'. aliases_loop ps m = Ok m' \<and>
       map_of m' = map_of m ++ map_of (rev (map alias_entry ps))"
proof (induction ps arbitrary: m)
  case Nil
  then show ?case by simp
next
  case (Cons p ps)
  let ?m = "AList.update (fst (alias_entry p)) (snd (alias_entry p)) m"
  obtain m' where m': "aliases_loop ps ?m = Ok m'"
    "map_of m' = map_of ?m ++ map_of (rev (map alias_entry ps))"
    using Cons.IH [of ?m] Cons.prems by auto
  have "map_of ?m = map_of m ++ map_of [alias_entry p]"
    by (cases "alias_entry p") (simp add: update_conv' map_add_def fun_eq_iff)
  with m' Cons.prems show ?case
    by (auto simp: aliases_loop_step map_add_assoc simp del: map_of.simps aliases_loop.simps)
qed

lemma keys_Set: "map Key (Conf_Set k v c) = (if HasKey c k then map Key c else map Key c @ [k])"
  by (induction c) auto

lemma additions_fold:
  "instance_additions i port pw dir c =
     fold (\<lambda>(k, v). Conf_Set k v)
       [(''syslog-enabled'', ''yes''), (''syslog-ident'', ''redis-server-'' @ i),
        (''syslog-facility'', ''local0''), (''port'', port), (''requirepass'', pw),
        (''pidfile'', path_Join [dir, i @ ''.pid''])] c"
  by (simp add: instance_additions_def Let_def)

lemma additions_other:
  assumes "k \<notin> {''syslog-enabled'', ''syslog-ident'', ''syslog-facility'', ''port'',
    ''requirepass'', ''pidfile''}"
  shows "getAll (instance_additions i port pw dir c) k = getAll c k"
  using assms by (simp add: instance_additions_def Let_def getAll_Set_other)

lemma additions_get [conf_simps]:
  "Conf_Get (instance_additions i port pw dir c) ''port'' = port"
  "Conf_Get (instance_additions i port pw dir c) ''requirepass'' = pw"
  "Conf_Get (instance_additions i port pw dir c) ''pidfile'' = path_Join [dir, i @ ''.pid'']"
  "Conf_Get (instance_additions i port pw dir c) ''syslog-ident'' = ''redis-server-'' @ i"
  by (simp_all add: instance_additions_def Let_def Get_Set)

text \<open>The values an instance brings fit on a line each.\<close>

definition wf_addition :: "string \<Rightarrow> string \<Rightarrow> string \<Rightarrow> string \<Rightarrow> bool" where
  "wf_addition i port pw dir \<longleftrightarrow>
     (\<forall>v \<in> {''redis-server-'' @ i, port, pw, path_Join [dir, i @ ''.pid'']}.
        wf_value v \<and> int (length v) < 65000)"

lemma wf_param_short:
  "wf_key k \<Longrightarrow> length k < 500 \<Longrightarrow> wf_value v \<Longrightarrow> int (length v) < 65000 \<Longrightarrow> wf_param \<lparr>Key = k, Value = v\<rparr>"
  by (simp add: wf_param_def fits_buffer_def MaxScanTokenSize_def)

lemma wf_additions:
  assumes "wf_conf c" and "wf_addition i port pw dir"
  shows "wf_conf (instance_additions i port pw dir c)"
  using assms unfolding instance_additions_def Let_def
  by (intro wf_conf_Set wf_param_short)
    (auto simp: wf_addition_def wf_key_def skipped_line_def wf_value_def)

lemma Chmod_content:
  "node_at w q = Some (FileNode m c) \<Longrightarrow>
     \<exists>m'. node_at (snd (os_Chmod p md w)) q = Some (FileNode m' c)"
  by (auto simp: os_Chmod_def change_path_def node_at_put
      split: option.splits res.splits node.splits dest: walk_file_nonroot walk_Ok)

lemma Copy_world:
  "snd (CopyWithInstanceAdditions p q i port pw dir w) = w \<or>
   (\<exists>c. snd (CopyWithInstanceAdditions p q i port pw dir w) =
      snd (os_Chmod q (octal 6 4 0) (snd (ioutil_WriteFile q (Encode c) (octal 6 4 4) w))))"
  by (auto simp: CopyWithInstanceAdditions_def Conf_Save_def Let_def split: res.splits prod.splits)
    (metis snd_conv)

lemma Copy_frame:
  "fs_frame {resolve (cwd w) q} w (snd (CopyWithInstanceAdditions p q i port pw dir w))"
proof -
  have "fs_frame {resolve (cwd w) q} w
      (snd (os_Chmod q m (snd (ioutil_WriteFile q d (octal 6 4 4) w))))" for d m
    using WriteFile_frame [of w q d "octal 6 4 4"]
      Chmod_frame [of "snd (ioutil_WriteFile q d (octal 6 4 4) w)" q m]
    by (auto simp: fs_frame_cwd intro: fs_frame_trans)
  then show ?thesis
    using Copy_world [of p q i port pw dir w] by auto
qed

lemma fs_wf_Copy: "fs_wf w \<Longrightarrow> fs_wf (snd (CopyWithInstanceAdditions p q i port pw dir w))"
  using Copy_world [of p q i port pw dir w] by (auto simp: fs_wf_Chmod fs_wf_WriteFile)

lemma Load_log [simp]: "Conf_Load p (log_write l a e d w) = Conf_Load p w"
  by (simp add: Conf_Load_def)

lemma Copy_steps:
  assumes "Conf_Load from w = Ok c" and "CopyWithInstanceAdditions from to i port pw dir w = (Ok (), w')"
  obtains w1 where "Conf_Save (instance_additions i port pw dir c) to w = (Ok (), w1)"
    and "w' = snd (os_Chmod to (octal 6 4 0) w1)"
  using assms by (auto simp: CopyWithInstanceAdditions_def Let_def split: prod.splits)

lemma Copy_load:
  assumes "fs_wf w" and base: "Conf_Load from w = Ok c" "wf_conf c" and "wf_addition i port pw dir"
    and "refuses w OpOpen (resolve (cwd w) to) = None"
    and run: "CopyWithInstanceAdditions from to i port pw dir w = (Ok (), w')"
  shows "Conf_Load to w' = Ok (instance_additions i port pw dir c)"
proof -
  let ?d = "Encode (instance_additions i port pw dir c)" and ?q = "resolve (cwd w) to"
  obtain w1 where w1: "Conf_Save (instance_additions i port pw dir c) to w = (Ok (), w1)"
    and w': "w' = snd (os_Chmod to (octal 6 4 0) w1)"
    using Copy_steps [OF base(1) run] by blast
  obtain m where "to \<noteq> ''''" "node_at w' ?q = Some (FileNode m ?d)"
    using WriteFile_Ok [OF w1 [unfolded Conf_Save_def]] Chmod_content [of w1 ?q] w' by metis
  moreover have "fs_frame {?q} w w'" "fs_wf w'"
    using Copy_frame [of w to "from" i port pw dir] fs_wf_Copy [OF assms(1), of "from" to] run
    by (metis snd_conv)+
  ultimately have "ioutil_ReadFile to w' = Ok ?d"
    using assms(5) by (auto simp: ReadFile_Ok_iff fs_frame_def same_env_def)
  then show ?thesis
    using decode_Encode [OF wf_additions [OF base(2) assms(4)]] by (simp add: Conf_Load_def)
qed

lemma Load_kept:
  assumes "fs_wf w" "fs_wf w'" "same_env w w'" "Conf_Load p w = Ok c"
    and "\<And>n. node_at w (resolve (cwd w) p) = Some n \<Longrightarrow> node_at w' (resolve (cwd w) p) = Some n"
  shows "Conf_Load p w' = Ok c"
  using assms ReadFile_kept [OF assms(1-3)] by (auto simp: Conf_Load_def res_bind_Ok_iff)

section \<open>Properties\<close>

text \<open>
  C7. Reading a configuration back: after \<open>conf.Save(path)\<close> succeeds, \<open>Load(path)\<close> returns
  exactly the saved parameters, in order and with duplicates, provided each parameter is
  well-formed and the file may be read.
\<close>

theorem conf_save_load_roundtrip:
  assumes "fs_wf w" and "wf_conf c" and "refuses w OpOpen (resolve (cwd w) p) = None"
    and "Conf_Save c p w = (Ok (), w')"
  shows "Conf_Load p w' = Ok c"
  using assms by (rule Load_Save)

definition example_etc :: world where
  "example_etc =
     machine [([''etc''], DirNode (octal 7 5 5)),
       ([''etc'', ''default.conf''], FileNode (octal 6 4 4)
          (''bind 10.0.0.1'' @ [CHR 0x0A] @ ''# comment'' @ [CHR 0x0A] @ ''port 6379'' @ [CHR 0x0A]))]"

theorem conf_save_load_roundtrip_witness:
  "Conf_Load ''/etc/redis.conf''
     (snd (Conf_Save [\<lparr>Key = ''port'', Value = ''6380''\<rparr>] ''/etc/redis.conf'' example_etc))
   = Ok [\<lparr>Key = ''port'', Value = ''6380''\<rparr>]"
proof (rule conf_save_load_roundtrip)
  show "fs_wf example_etc" by code_simp
  show "wf_conf [\<lparr>Key = ''port'', Value = ''6380''\<rparr>]" by code_simp
  show "refuses example_etc OpOpen (resolve (cwd example_etc) ''/etc/redis.conf'') = None"
    by (simp add: example_etc_def)
  show "Conf_Save [\<lparr>Key = ''port'', Value = ''6380''\<rparr>] ''/etc/redis.conf'' example_etc =
    (Ok (), snd (Conf_Save [\<lparr>Key = ''port'', Value = ''6380''\<rparr>] ''/etc/redis.conf'' example_etc))"
    by (rule eq_pair_fst) code_simp
qed


text \<open>
  C37. A line of 64 KiB or more ends the scan, and \<open>decode\<close> does not ask the scanner why it
  stopped: everything from that line on is dropped and the call still succeeds.
\<close>

theorem decode_long_line_truncates:
  assumes "wf_conf c" and "CHR 0x0A \<notin> set l" and "MaxScanTokenSize \<le> length l"
  shows "decode (Encode c @ l @ CHR 0x0A # rest) = Ok c"
proof -
  have scan: "scan_lines (Encode c @ l @ CHR 0x0A # rest) = scan_lines (Encode c)"
    using assms(1)
  proof (induction c)
    case Nil
    then show ?case using scan_lines_long_line [OF assms(2,3)] by simp
  next
    case (Cons p c)
    then have "CHR 0x0A \<notin> set (Key p @ '' '' @ Value p)"
      and "length (Key p @ '' '' @ Value p) < MaxScanTokenSize"
      by (auto simp: wf_conf_def wf_param_def wf_key_def wf_value_def fits_buffer_def)
    from scan_lines_line [OF this] Cons show ?case by (simp add: wf_conf_def)
  qed
  show ?thesis using decode_Encode [OF assms(1)] unfolding decode_def scan .
qed

theorem decode_long_line_truncates_witness:
  "decode (Encode [\<lparr>Key = ''port'', Value = ''6380''\<rparr>] @ replicate MaxScanTokenSize (CHR ''x'')
     @ CHR 0x0A # ''requirepass secret'') = Ok [\<lparr>Key = ''port'', Value = ''6380''\<rparr>]"
proof (rule decode_long_line_truncates)
  show "wf_conf [\<lparr>Key = ''port'', Value = ''6380''\<rparr>]" by code_simp
  show "CHR 0x0A \<notin> set (replicate MaxScanTokenSize (CHR ''x''))"
    by (simp add: set_replicate_conv_if)
  show "MaxScanTokenSize \<le> length (replicate MaxScanTokenSize (CHR ''x''))" by simp
qed

text \<open>
  \<open>Set\<close> then \<open>Get\<close>: the key has the new value, every other key keeps all its values, and
  the sequence of keys is unchanged but for a new key, which is appended.
\<close>

theorem conf_set_get:
  "Conf_Get (Conf_Set k v c) k' = (if k' = k then v else Conf_Get c k')
   \<and> getAll (Conf_Set k v c) k' =
       (if k' = k then \<lparr>Key = k, Value = v\<rparr> # tl (getAll c k) else getAll c k')
   \<and> map Key (Conf_Set k v c) = (if HasKey c k then map Key c else map Key c @ [k])"
proof -
  have "getAll (Conf_Set k v c) k = \<lparr>Key = k, Value = v\<rparr> # tl (getAll c k)"
    by (induction c) (auto simp: getAll_def)
  then show ?thesis
    using getAll_Set_other by (simp add: Get_Set keys_Set)
qed

text \<open>
  C38. \<open>CommandAliases\<close> panics exactly when some \<open>rename-command\<close> value has no blank;
  otherwise it maps every renamed command to the alias of its last entry, quotes removed.
\<close>

theorem command_aliases_spec:
  "if \<exists>p \<in> set (getAll conf ''rename-command''). CHR '' '' \<notin> set (Value p)
   then CommandAliases conf = Panic ''index out of range''
   else \<exists>m. CommandAliases conf = Ok m \<and>
     map_of m = map_of (rev (map alias_entry (getAll conf ''rename-command'')))"
proof (cases "\<exists>p \<in> set (getAll conf ''rename-command''). CHR '' '' \<notin> set (Value p)")
  case True
  then show ?thesis using aliases_loop_panics by (auto simp: CommandAliases_def)
next
  case False
  then show ?thesis
    using aliases_loop_Ok [of "getAll conf ''rename-command''" "[]"]
    by (simp add: CommandAliases_def)
qed

text \<open>
  C22. \<open>CopyWithInstanceAdditions\<close>: when it succeeds, the file written loads, it has the
  instance's port, password, pid file and syslog name, all other parameters of the default
  configuration are as they were, the rest of the file system is untouched, and, unless the
  kernel refuses the \<open>chmod\<close>, the file is readable by its owner and group only.
\<close>

theorem copy_with_instance_additions_spec:
  assumes wf: "fs_wf w" and base: "Conf_Load from w = Ok c" "wf_conf c"
    and vals: "wf_addition i port pw dir"
    and readable: "refuses w OpOpen (resolve (cwd w) to) = None"
    and chmod: "refuses w OpChmod (resolve (cwd w) to) = None"
    and run: "CopyWithInstanceAdditions from to i port pw dir w = (Ok (), w')"
  shows "\<exists>c'. Conf_Load to w' = Ok c' \<and>
      Conf_Get c' ''port'' = port \<and> Conf_Get c' ''requirepass'' = pw \<and>
      Conf_Get c' ''pidfile'' = path_Join [dir, i @ ''.pid''] \<and>
      Conf_Get c' ''syslog-ident'' = ''redis-server-'' @ i \<and>
      (\<forall>k. k \<notin> {''syslog-enabled'', ''syslog-ident'', ''syslog-facility'', ''port'',
             ''requirepass'', ''pidfile''} \<longrightarrow> getAll c' k = getAll c k) \<and>
      node_at w' (resolve (cwd w) to) = Some (FileNode (octal 6 4 0) (Encode c')) \<and>
      fs_frame {resolve (cwd w) to} w w'"
proof -
  let ?c = "instance_additions i port pw dir c" and ?q = "resolve (cwd w) to"
  obtain w1 where save: "Conf_Save ?c to w = (Ok (), w1)"
    and w': "w' = snd (os_Chmod to (octal 6 4 0) w1)"
    using Copy_steps [OF base(1) run] by blast
  have wf1: "fs_wf w1" and fr1: "fs_frame {?q} w w1"
    using fs_wf_WriteFile [OF wf, of to "Encode ?c" "octal 6 4 4"]
      WriteFile_frame [of w to "Encode ?c" "octal 6 4 4"] save
    by (simp_all add: Conf_Save_def)
  obtain m where m: "node_at w1 ?q = Some (FileNode m (Encode ?c))" and to: "to \<noteq> ''''" "?q \<noteq> []"
    using WriteFile_Ok [OF save [unfolded Conf_Save_def]] by auto
  have q1: "resolve (cwd w1) to = ?q" and ch1: "refuses w1 OpChmod ?q = None"
    using fr1 chmod by (simp_all add: fs_frame_def same_env_def)
  have node: "node_at w' ?q = Some (FileNode (octal 6 4 0) (Encode ?c))"
    using walk_node [OF wf1 m] to ch1 q1 w' by (simp add: os_Chmod_def change_path_def node_at_put)
  have frame: "fs_frame {?q} w w'"
    using Copy_frame [of w to "from" i port pw dir] run by simp
  have "Conf_Load to w' = Ok ?c"
    using Copy_load [OF wf base vals readable run] .
  with node frame show ?thesis
    using additions_get additions_other by (intro exI [of _ ?c]) simp
qed

theorem copy_with_instance_additions_witness:
  "\<exists>c'. Conf_Load ''/etc/i1.conf'' (snd (CopyWithInstanceAdditions ''/etc/default.conf''
       ''/etc/i1.conf'' ''i1'' ''6381'' ''pw'' ''/run'' example_etc)) = Ok c' \<and>
     Conf_Get c' ''port'' = ''6381'' \<and> Conf_Get c' ''requirepass'' = ''pw'' \<and>
     Conf_Get c' ''pidfile'' = ''/run/i1.pid'' \<and> getAll c' ''bind'' = [\<lparr>Key = ''bind'', Value = ''10.0.0.1''\<rparr>]"
proof -
  let ?run = "CopyWithInstanceAdditions ''/etc/default.conf''
    ''/etc/i1.conf'' ''i1'' ''6381'' ''pw'' ''/run'' example_etc"
  have wf: "fs_wf example_etc" by code_simp
  have base: "Conf_Load ''/etc/default.conf'' example_etc =
      Ok [\<lparr>Key = ''bind'', Value = ''10.0.0.1''\<rparr>, \<lparr>Key = ''port'', Value = ''6379''\<rparr>]"
    and wfc: "wf_conf [\<lparr>Key = ''bind'', Value = ''10.0.0.1''\<rparr>, \<lparr>Key = ''port'', Value = ''6379''\<rparr>]"
    and vals: "wf_addition ''i1'' ''6381'' ''pw'' ''/run''"
    by code_simp+
  have none: "refuses example_etc op q = None" for op q by (simp add: example_etc_def)
  have "?run = (Ok (), snd ?run)" by (rule eq_pair_fst) code_simp
  from copy_with_instance_additions_spec [OF wf base wfc vals none none this]
  obtain c' where "Conf_Load ''/etc/i1.conf'' (snd ?run) = Ok c'"
    "Conf_Get c' ''port'' = ''6381''" "Conf_Get c' ''requirepass'' = ''pw''"
    "Conf_Get c' ''pidfile'' = path_Join [''/run'', ''i1'' @ ''.pid'']"
    and "\<forall>k. k \<notin> {''syslog-enabled'', ''syslog-ident'', ''syslog-facility'', ''port'',
       ''requirepass'', ''pidfile''} \<longrightarrow> getAll c' k = getAll [\<lparr>Key = ''bind'', Value = ''10.0.0.1''\<rparr>,
       \<lparr>Key = ''port'', Value = ''6379''\<rparr>] k"
    by blast
  moreover from this(5) have "getAll c' ''bind'' = [\<lparr>Key = ''bind'', Value = ''10.0.0.1''\<rparr>]"
    by (simp add: getAll_def)
  moreover have "path_Join [''/run'', ''i1'' @ ''.pid''] = ''/run/i1.pid''" by code_simp
  ultimately show ?thesis by metis
qed

end
