(* ===== verification/Broker_Config.thy ===== *)
theory Broker_Config
  imports Go_OS
begin

text \<open>
  The package \<open>brokerconfig\<close> (\<open>src/brokerconfig/config.go\<close>): the broker's configuration, its
  validation against the file system, and the test whether the shared plan is offered. Decoding
  the YAML text is done by the vendored package \<open>candiedyaml\<close>, which is an argument here.
\<close>

record auth_configuration =
  auth_Password :: string
  auth_Username :: string

record service_configuration =
  ServiceName :: string
  ServiceID :: string
  SharedVMPlanID :: string
  sc_Host :: string
  DefaultConfigPath :: string
  ProcessCheckIntervalSeconds :: int
  StartRedisTimeoutSeconds :: int
  InstanceDataDirectory :: string
  PidfileDirectory :: string
  InstanceLogDirectory :: string
  ServiceInstanceLimit :: int
  sc_Description :: string
  LongDescription :: string
  ProviderDisplayName :: string
  DocumentationURL :: string
  SupportURL :: string
  sc_DisplayName :: string
  IconImage :: string

record config =
  RedisConfiguration :: service_configuration
  AuthConfiguration :: auth_configuration
  cfg_Host :: string
  cfg_Port :: string
  MonitExecutablePath :: string
  cfg_RedisServerExecutablePath :: string
  AgentPort :: string
  ConsistencyVerificationInterval :: int

text \<open>The zero values of the Go structs.\<close>

definition zero_service_configuration :: service_configuration where
  "zero_service_configuration =
     \<lparr>ServiceName = '''', ServiceID = '''', SharedVMPlanID = '''', sc_Host = '''',
      DefaultConfigPath = '''', ProcessCheckIntervalSeconds = 0, StartRedisTimeoutSeconds = 0,
      InstanceDataDirectory = '''', PidfileDirectory = '''', InstanceLogDirectory = '''',
      ServiceInstanceLimit = 0, sc_Description = '''', LongDescription = '''',
      ProviderDisplayName = '''', DocumentationURL = '''', SupportURL = '''',
      sc_DisplayName = '''', IconImage = ''''\<rparr>"

definition zero_config :: config where
  "zero_config =
     \<lparr>RedisConfiguration = zero_service_configuration,
      AuthConfiguration = \<lparr>auth_Password = '''', auth_Username = ''''\<rparr>,
      cfg_Host = '''', cfg_Port = '''', MonitExecutablePath = '''',
      cfg_RedisServerExecutablePath = '''', AgentPort = '''', ConsistencyVerificationInterval = 0\<rparr>"

definition SharedEnabled :: "config \<Rightarrow> bool" where
  "SharedEnabled config \<longleftrightarrow> ServiceInstanceLimit (RedisConfiguration config) > 0"

definition checkPathExists :: "string \<Rightarrow> string \<Rightarrow> world \<Rightarrow> gerror option" where
  "checkPathExists path description w =
     (case os_Stat path w of
        Ok _ \<Rightarrow> None
      | _ \<Rightarrow> Some (ErrorString (''File '' @ [CHR 0x27] @ path @ [CHR 0x27] @ '' ('' @ description
               @ '') not found'')))"

definition ValidateConfig :: "service_configuration \<Rightarrow> world \<Rightarrow> gerror option" where
  "ValidateConfig config w =
     (case checkPathExists (DefaultConfigPath config) ''RedisConfig.DefaultRedisConfPath'' w of
        Some e \<Rightarrow> Some e
      | None \<Rightarrow>
     (case checkPathExists (InstanceDataDirectory config) ''RedisConfig.InstanceDataDirectory'' w of
        Some e \<Rightarrow> Some e
      | None \<Rightarrow>
     (case checkPathExists (InstanceLogDirectory config) ''RedisConfig.InstanceLogDirectory'' w of
        Some e \<Rightarrow> Some e
      | None \<Rightarrow> None)))"

text \<open>\<open>ParseConfig\<close> returns the configuration next to the error, as the code does.\<close>

definition ParseConfig ::
    "(string \<Rightarrow> config res) \<Rightarrow> string \<Rightarrow> world \<Rightarrow> config \<times> gerror option" where
  "ParseConfig yaml_decode path w =
     (case res_bind (ioutil_ReadFile path w) yaml_decode of
        Ok config \<Rightarrow> (config, ValidateConfig (RedisConfiguration config) w)
      | Err e \<Rightarrow> (zero_config, Some e)
      | Panic m \<Rightarrow> (zero_config, Some (ErrorString m)))"

lemma checkPathExists_None: "checkPathExists p d w = None \<longleftrightarrow> is_ok (os_Stat p w)"
  by (cases "os_Stat p w") (simp_all add: checkPathExists_def)

lemma first_error_None:
  "(case x of Some e \<Rightarrow> Some e | None \<Rightarrow> y) = None \<longleftrightarrow> x = None \<and> y = None"
  by (cases x) auto

lemma ValidateConfig_None:
  "ValidateConfig (RedisConfiguration c) w = None \<longleftrightarrow>
     is_ok (os_Stat (DefaultConfigPath (RedisConfiguration c)) w) \<and>
     is_ok (os_Stat (InstanceDataDirectory (RedisConfiguration c)) w) \<and>
     is_ok (os_Stat (InstanceLogDirectory (RedisConfiguration c)) w)"
  unfolding ValidateConfig_def first_error_None checkPathExists_None by (simp split: option.splits)

section \<open>Properties\<close>

text \<open>
  C39. A configuration that \<open>ParseConfig\<close> accepts was decoded from the file, and its default
  \<open>redis.conf\<close>, its data directory and its log directory all exist; and it accepts every
  configuration for which that is so.
\<close>

theorem parse_config_accepts_iff:
  "ParseConfig yaml_decode path w = (config, None) \<longleftrightarrow>
     (\<exists>text. ioutil_ReadFile path w = Ok text \<and> yaml_decode text = Ok config) \<and>
     is_ok (os_Stat (DefaultConfigPath (RedisConfiguration config)) w) \<and>
     is_ok (os_Stat (InstanceDataDirectory (RedisConfiguration config)) w) \<and>
     is_ok (os_Stat (InstanceLogDirectory (RedisConfiguration config)) w)"
proof (cases "res_bind (ioutil_ReadFile path w) yaml_decode")
  case (Ok c)
  then show ?thesis
    using ValidateConfig_None [of c w] by (auto simp: ParseConfig_def res_bind_Ok_iff)
next
  case (Err e)
  then show ?thesis by (auto simp: ParseConfig_def)
next
  case (Panic m)
  then show ?thesis by (auto simp: ParseConfig_def)
qed

end
