(* ===== verification/Service_Broker.thy ===== *)
theory Service_Broker
  imports Broker_Config "HOL-Library.Multiset"
begin

text \<open>
  The package \<open>broker\<close> (\<open>src/broker/broker.go\<close>): the service broker that the brokerapi
  handlers call. It is written against two Go interfaces, \<open>InstanceCreator\<close> and
  \<open>InstanceBinder\<close>, which are records of functions here, over any state \<open>'w\<close>. A Go map is
  iterated in an unspecified order: the tables of creators and binders are association lists, the
  theorems hold for every order of them, and one of them says that the order does not matter.

  The contract that the broker's clients rely on is the locale \<open>instance_host\<close>, with the
  life cycle of an instance proved in it once.
\<close>

section \<open>The code\<close>

record instance_credentials =
  ic_Host :: string
  ic_Port :: int
  ic_Password :: string

record 'w instance_creator =
  ic_Create :: "string \<Rightarrow> 'w \<Rightarrow> unit res \<times> 'w"
  ic_Destroy :: "string \<Rightarrow> 'w \<Rightarrow> unit res \<times> 'w"
  ic_InstanceExists :: "string \<Rightarrow> 'w \<Rightarrow> bool res"

record 'w instance_binder =
  ib_Bind :: "string \<Rightarrow> string \<Rightarrow> 'w \<Rightarrow> instance_credentials res \<times> 'w"
  ib_Unbind :: "string \<Rightarrow> string \<Rightarrow> 'w \<Rightarrow> unit res \<times> 'w"
  ib_InstanceExists :: "string \<Rightarrow> 'w \<Rightarrow> bool res"

record 'w redis_service_broker =
  InstanceCreators :: "(string \<times> 'w instance_creator) list"
  InstanceBinders :: "(string \<times> 'w instance_binder) list"
  sb_Config :: config

record service_plan =
  plan_ID :: string
  plan_Name :: string
  plan_Description :: string
  plan_Bullets :: "string list"
  plan_DisplayName :: string

record service =
  svc_ID :: string
  svc_Name :: string
  svc_Description :: string
  svc_Bindable :: bool
  svc_Plans :: "service_plan list"
  svc_DisplayName :: string
  svc_LongDescription :: string
  svc_DocumentationUrl :: string
  svc_SupportUrl :: string
  svc_ImageUrl :: string
  svc_ProviderDisplayName :: string
  svc_Tags :: "string list"

datatype credential = StrCred string | IntCred int

definition PlanNameShared :: string where "PlanNameShared = ''shared-vm''"

definition plans :: "config \<Rightarrow> (string \<times> service_plan) list" where
  "plans config =
     (if SharedEnabled config then
        [(''shared'',
          \<lparr>plan_ID = SharedVMPlanID (RedisConfiguration config),
           plan_Name = PlanNameShared,
           plan_Description =
             ''This plan provides a Redis server on a shared VM configured for data persistence.'',
           plan_Bullets =
             [''Each instance shares the same VM'',
              ''Single dedicated Redis process'',
              ''Suitable for development & testing workloads''],
           plan_DisplayName = ''Shared-VM''\<rparr>)]
      else [])"

definition Services :: "'w redis_service_broker \<Rightarrow> service list" where
  "Services b =
     (let rc = RedisConfiguration (sb_Config b) in
      [\<lparr>svc_ID = ServiceID rc, svc_Name = ServiceName rc, svc_Description = sc_Description rc,
        svc_Bindable = True, svc_Plans = map snd (plans (sb_Config b)),
        svc_DisplayName = sc_DisplayName rc, svc_LongDescription = LongDescription rc,
        svc_DocumentationUrl = DocumentationURL rc, svc_SupportUrl = SupportURL rc,
        svc_ImageUrl = ''data:image/png;base64,'' @ IconImage rc,
        svc_ProviderDisplayName = ProviderDisplayName rc, svc_Tags = [''pivotal'', ''redis'']\<rparr>])"

text \<open>\<open>instanceExists, _ := x.InstanceExists(id)\<close>: an error counts as absence.\<close>

definition claims :: "bool res \<Rightarrow> bool" where
  "claims r \<longleftrightarrow> r = Ok True"

fun any_creator_claims :: "(string \<times> 'w instance_creator) list \<Rightarrow> string \<Rightarrow> 'w \<Rightarrow> bool" where
  "any_creator_claims [] i w = False"
| "any_creator_claims ((_, c) # cs) i w =
     (if claims (ic_InstanceExists c i w) then True else any_creator_claims cs i w)"

definition instanceExists :: "'w redis_service_broker \<Rightarrow> string \<Rightarrow> 'w \<Rightarrow> bool" where
  "instanceExists b i w = any_creator_claims (InstanceCreators b) i w"

text \<open>The loop that finds the name of the plan with a given ID: the empty name if there is none.\<close>

fun plan_identifier :: "(string \<times> service_plan) list \<Rightarrow> string \<Rightarrow> string" where
  "plan_identifier [] pid = ''''"
| "plan_identifier ((key, plan) # ps) pid =
     (if plan_ID plan = pid then key else plan_identifier ps pid)"

definition Provision ::
    "'w redis_service_broker \<Rightarrow> string \<Rightarrow> string \<Rightarrow> 'w \<Rightarrow> unit res \<times> 'w" where
  "Provision b instanceID planID w =
     (if instanceExists b instanceID w then (Err ErrInstanceAlreadyExists, w)
      else if planID = '''' then (Err (ErrorString ''plan_id required''), w)
      else (let planIdentifier = plan_identifier (plans (sb_Config b)) planID in
        if planIdentifier = '''' then (Err (ErrorString ''plan_id not recognized''), w)
        else (case map_of (InstanceCreators b) planIdentifier of
                None \<Rightarrow> (Err (ErrorString ''instance creator not found for plan''), w)
              | Some creator \<Rightarrow> ic_Create creator instanceID w)))"

fun deprovision_loop ::
    "(string \<times> 'w instance_creator) list \<Rightarrow> string \<Rightarrow> 'w \<Rightarrow> unit res \<times> 'w" where
  "deprovision_loop [] i w = (Err ErrInstanceDoesNotExist, w)"
| "deprovision_loop ((_, c) # cs) i w =
     (if claims (ic_InstanceExists c i w) then ic_Destroy c i w else deprovision_loop cs i w)"

definition Deprovision :: "'w redis_service_broker \<Rightarrow> string \<Rightarrow> 'w \<Rightarrow> unit res \<times> 'w" where
  "Deprovision b i w = deprovision_loop (InstanceCreators b) i w"

fun bind_loop ::
    "(string \<times> 'w instance_binder) list \<Rightarrow> string \<Rightarrow> string \<Rightarrow> 'w \<Rightarrow>
     (string \<times> credential) list res \<times> 'w" where
  "bind_loop [] i bd w = (Err ErrInstanceDoesNotExist, w)"
| "bind_loop ((_, r) # rs) i bd w =
     (if claims (ib_InstanceExists r i w) then
        io_bind (ib_Bind r i bd w)
          (\<lambda>c w. (Ok [(''host'', StrCred (ic_Host c)), (''port'', IntCred (ic_Port c)),
                      (''password'', StrCred (ic_Password c))], w))
      else bind_loop rs i bd w)"

definition Bind ::
    "'w redis_service_broker \<Rightarrow> string \<Rightarrow> string \<Rightarrow> 'w \<Rightarrow> (string \<times> credential) list res \<times> 'w" where
  "Bind b i bd w = bind_loop (InstanceBinders b) i bd w"

fun unbind_loop ::
    "(string \<times> 'w instance_binder) list \<Rightarrow> string \<Rightarrow> string \<Rightarrow> 'w \<Rightarrow> unit res \<times> 'w" where
  "unbind_loop [] i bd w = (Err ErrInstanceDoesNotExist, w)"
| "unbind_loop ((_, r) # rs) i bd w =
     (if claims (ib_InstanceExists r i w) then
        (case ib_Unbind r i bd w of
           (Err _, w') \<Rightarrow> (Err ErrBindingDoesNotExist, w')
         | (Ok u, w') \<Rightarrow> (Ok (), w')
         | (Panic m, w') \<Rightarrow> (Panic m, w'))
      else unbind_loop rs i bd w)"

definition Unbind :: "'w redis_service_broker \<Rightarrow> string \<Rightarrow> string \<Rightarrow> 'w \<Rightarrow> unit res \<times> 'w" where
  "Unbind b i bd w = unbind_loop (InstanceBinders b) i bd w"

definition LastOperation :: "'w redis_service_broker \<Rightarrow> string \<Rightarrow> unit res" where
  "LastOperation b i = Err (ErrorString ''not implemented'')"

definition Update :: "'w redis_service_broker \<Rightarrow> string \<Rightarrow> unit res" where
  "Update b i = Err (ErrorString ''not implemented'')"

definition GetBinding :: "'w redis_service_broker \<Rightarrow> string \<Rightarrow> string \<Rightarrow> unit res" where
  "GetBinding b i bd = Err (ErrorString ''not implemented'')"

definition GetInstance :: "'w redis_service_broker \<Rightarrow> string \<Rightarrow> unit res" where
  "GetInstance b i = Err (ErrorString ''not implemented'')"

definition LastBindingOperation :: "'w redis_service_broker \<Rightarrow> string \<Rightarrow> string \<Rightarrow> unit res" where
  "LastBindingOperation b i bd = Err (ErrorString ''not implemented'')"

section \<open>Lemmas on the loops\<close>

lemma any_creator_claims_iff:
  "any_creator_claims cs i w \<longleftrightarrow> (\<exists>kc \<in> set cs. claims (ic_InstanceExists (snd kc) i w))"
  by (induction cs) auto

lemma plan_identifier_plans:
  "plan_identifier (plans config) pid =
     (if SharedEnabled config \<and> pid = SharedVMPlanID (RedisConfiguration config)
      then ''shared'' else '''')"
  by (auto simp: plans_def)

lemma deprovision_loop_find:
  "deprovision_loop cs i w =
     (case find (\<lambda>kc. claims (ic_InstanceExists (snd kc) i w)) cs of
        None \<Rightarrow> (Err ErrInstanceDoesNotExist, w)
      | Some kc \<Rightarrow> ic_Destroy (snd kc) i w)"
  by (induction cs) auto

lemma find_unique_perm:
  assumes "mset xs = mset ys" and "\<And>x y. x \<in> set xs \<Longrightarrow> y \<in> set xs \<Longrightarrow> P x \<Longrightarrow> P y \<Longrightarrow> x = y"
  shows "find P xs = find P ys"
proof -
  have set: "set xs = set ys" using assms(1) by (rule mset_eq_setD)
  show ?thesis
  proof (cases "find P xs")
    case None
    then have "find P ys = None" using set by (simp add: find_None_iff)
    with None show ?thesis by simp
  next
    case (Some x)
    then have x: "x \<in> set xs" "P x" by (auto simp: find_Some_iff)
    then obtain y where y: "find P ys = Some y"
      using set by (cases "find P ys") (auto simp: find_None_iff)
    then have "y \<in> set xs" "P y" using set by (auto simp: find_Some_iff)
    with x y Some assms(2) show ?thesis by auto
  qed
qed

section \<open>The contract of an instance host, and what the broker makes of it\<close>

text \<open>
  The requests that change the set of instances, and the abstract service they implement: a set
  of instance IDs. A request that fails in the host may leave the instance it names in either
  state, and never touches another one.
\<close>

datatype request = ReqProvision string string | ReqDeprovision string

fun handle :: "'w redis_service_broker \<Rightarrow> request \<Rightarrow> 'w \<Rightarrow> unit res \<times> 'w" where
  "handle b (ReqProvision i pid) w = Provision b i pid w"
| "handle b (ReqDeprovision i) w = Deprovision b i w"

inductive spec_step :: "string set \<Rightarrow> request \<Rightarrow> unit res \<Rightarrow> string set \<Rightarrow> bool" where
  provisioned: "i \<notin> S \<Longrightarrow> spec_step S (ReqProvision i pid) (Ok ()) (insert i S)"
| already_exists: "i \<in> S \<Longrightarrow> spec_step S (ReqProvision i pid) (Err ErrInstanceAlreadyExists) S"
| provision_failed: "i \<notin> S \<Longrightarrow> \<not> is_ok r \<Longrightarrow> S' - {i} = S \<Longrightarrow> spec_step S (ReqProvision i pid) r S'"
| deprovisioned: "i \<in> S \<Longrightarrow> spec_step S (ReqDeprovision i) (Ok ()) (S - {i})"
| does_not_exist: "i \<notin> S \<Longrightarrow> spec_step S (ReqDeprovision i) (Err ErrInstanceDoesNotExist) S"
| deprovision_failed:
    "i \<in> S \<Longrightarrow> \<not> is_ok r \<Longrightarrow> S' - {i} = S - {i} \<Longrightarrow> spec_step S (ReqDeprovision i) r S'"

text \<open>A session: requests handled one after the other, and the runs of the abstract service.\<close>

fun serve :: "'w redis_service_broker \<Rightarrow> request list \<Rightarrow> 'w \<Rightarrow> unit res list \<times> 'w" where
  "serve b [] w = ([], w)"
| "serve b (req # reqs) w =
     (let (r, w1) = handle b req w; (rs, w2) = serve b reqs w1 in (r # rs, w2))"

lemma serve_Cons:
  "fst (serve b (req # reqs) w) = fst (handle b req w) # fst (serve b reqs (snd (handle b req w)))"
  "snd (serve b (req # reqs) w) = snd (serve b reqs (snd (handle b req w)))"
  by (simp_all add: Let_def split: prod.split)

declare serve.simps(2) [simp del]

inductive spec_run :: "string set \<Rightarrow> request list \<Rightarrow> unit res list \<Rightarrow> string set \<Rightarrow> bool" where
  finished: "spec_run S [] [] S"
| stepped: "spec_step S req r S' \<Longrightarrow> spec_run S' reqs rs S'' \<Longrightarrow> spec_run S (req # reqs) (r # rs) S''"

inductive_simps spec_step_provision: "spec_step S (ReqProvision i pid) r S'"
inductive_simps spec_step_deprovision: "spec_step S (ReqDeprovision i) r S'"

fun request_id :: "request \<Rightarrow> string" where
  "request_id (ReqProvision i _) = i"
| "request_id (ReqDeprovision i) = i"

locale instance_host =
  fixes exist :: "string \<Rightarrow> 'w \<Rightarrow> bool res"
    and create :: "string \<Rightarrow> 'w \<Rightarrow> unit res \<times> 'w"
    and destroy :: "string \<Rightarrow> 'w \<Rightarrow> unit res \<times> 'w"
    and inv :: "'w \<Rightarrow> bool"
    and valid_id :: "string \<Rightarrow> bool"
  assumes create_inv: "inv w \<Longrightarrow> valid_id i \<Longrightarrow> inv (snd (create i w))"
    and destroy_inv: "inv w \<Longrightarrow> valid_id i \<Longrightarrow> inv (snd (destroy i w))"
    and create_exists:
      "inv w \<Longrightarrow> valid_id i \<Longrightarrow> create i w = (Ok (), w') \<Longrightarrow> claims (exist i w')"
    and destroy_gone:
      "inv w \<Longrightarrow> valid_id i \<Longrightarrow> destroy i w = (Ok (), w') \<Longrightarrow> \<not> claims (exist i w')"
    and create_other: "inv w \<Longrightarrow> valid_id i \<Longrightarrow> valid_id j \<Longrightarrow> j \<noteq> i \<Longrightarrow>
        claims (exist j (snd (create i w))) = claims (exist j w)"
    and destroy_other: "inv w \<Longrightarrow> valid_id i \<Longrightarrow> valid_id j \<Longrightarrow> j \<noteq> i \<Longrightarrow>
        claims (exist j (snd (destroy i w))) = claims (exist j w)"
begin

definition the_instances :: "'w \<Rightarrow> string set" where
  "the_instances w = {i. valid_id i \<and> claims (exist i w)}"

definition hosted_by :: "'w redis_service_broker \<Rightarrow> bool" where
  "hosted_by b \<longleftrightarrow> InstanceCreators b =
     [(''shared'', \<lparr>ic_Create = create, ic_Destroy = destroy, ic_InstanceExists = exist\<rparr>)]"

lemma provision_cases:
  assumes "hosted_by b"
  shows "Provision b i pid w =
    (if claims (exist i w) then (Err ErrInstanceAlreadyExists, w)
     else if pid = '''' then (Err (ErrorString ''plan_id required''), w)
     else if SharedEnabled (sb_Config b) \<and> pid = SharedVMPlanID (RedisConfiguration (sb_Config b))
       then create i w
     else (Err (ErrorString ''plan_id not recognized''), w))"
  using assms by (auto simp: Provision_def instanceExists_def hosted_by_def plan_identifier_plans)

lemma deprovision_cases:
  assumes "hosted_by b"
  shows "Deprovision b i w =
    (if claims (exist i w) then destroy i w else (Err ErrInstanceDoesNotExist, w))"
  using assms by (auto simp: Deprovision_def hosted_by_def)

lemma create_instances:
  assumes "inv w" "valid_id i"
  shows "the_instances (snd (create i w)) - {i} = the_instances w - {i}"
    and "create i w = (Ok (), w') \<Longrightarrow> i \<in> the_instances w'"
  using create_other [OF assms] create_exists [OF assms] assms(2)
  by (auto simp: the_instances_def)

lemma destroy_instances:
  assumes "inv w" "valid_id i"
  shows "the_instances (snd (destroy i w)) - {i} = the_instances w - {i}"
    and "destroy i w = (Ok (), w') \<Longrightarrow> i \<notin> the_instances w'"
  using destroy_other [OF assms] destroy_gone [OF assms] assms(2)
  by (auto simp: the_instances_def)

lemma handle_inv:
  assumes "hosted_by b" "inv w" "valid_id (request_id req)"
  shows "inv (snd (handle b req w))"
  using assms by (cases req) (auto simp: provision_cases deprovision_cases create_inv destroy_inv)

lemma provision_refines:
  assumes "hosted_by b" "inv w" "valid_id i" "Provision b i pid w = (r, w')"
  shows "spec_step (the_instances w) (ReqProvision i pid) r (the_instances w')"
proof (cases "claims (exist i w)")
  case True
  with assms show ?thesis
    by (auto simp: provision_cases the_instances_def intro!: already_exists)
next
  case False
  then have i: "i \<notin> the_instances w" by (simp add: the_instances_def)
  then have other: "the_instances (snd (create i w)) - {i} = the_instances w"
    using create_instances(1) [OF assms(2,3)] by simp
  show ?thesis
  proof (cases "create i w = (r, w')")
    case True
    show ?thesis
    proof (cases r)
      case (Ok u)
      with True have "i \<in> the_instances w'" using create_instances(2) [OF assms(2,3)] by simp
      with other True have "the_instances w' = insert i (the_instances w)" by auto
      with Ok i show ?thesis by (simp add: spec_step_provision)
    qed (use True other i in \<open>auto simp: spec_step_provision\<close>)
  next
    case neq: False
    with False assms have "w' = w" "\<not> is_ok r"
      by (auto simp: provision_cases split: if_splits)
    with i show ?thesis by (auto simp: spec_step_provision)
  qed
qed

lemma deprovision_refines:
  assumes "hosted_by b" "inv w" "valid_id i" "Deprovision b i w = (r, w')"
  shows "spec_step (the_instances w) (ReqDeprovision i) r (the_instances w')"
proof (cases "claims (exist i w)")
  case True
  then have i: "i \<in> the_instances w" using assms(3) by (simp add: the_instances_def)
  have run: "destroy i w = (r, w')" using True assms by (simp add: deprovision_cases)
  then have other: "the_instances w' - {i} = the_instances w - {i}"
    using destroy_instances(1) [OF assms(2,3)] by simp
  show ?thesis
  proof (cases r)
    case (Ok u)
    with run have "i \<notin> the_instances w'" using destroy_instances(2) [OF assms(2,3)] by simp
    with other have "the_instances w' = the_instances w - {i}" by auto
    with Ok i show ?thesis by (simp add: spec_step_deprovision)
  qed (use other i in \<open>auto simp: spec_step_deprovision\<close>)
next
  case False
  with assms show ?thesis
    by (auto simp: deprovision_cases the_instances_def intro!: does_not_exist)
qed

lemma handle_refines:
  assumes "hosted_by b" "inv w" "valid_id (request_id req)" "handle b req w = (r, w')"
  shows "spec_step (the_instances w) req r (the_instances w')"
  using assms provision_refines deprovision_refines by (cases req) auto

lemma serve_inv:
  assumes "hosted_by b" "inv w" "\<And>req. req \<in> set reqs \<Longrightarrow> valid_id (request_id req)"
  shows "inv (snd (serve b reqs w))"
  using assms(2,3)
proof (induction reqs arbitrary: w)
  case (Cons req reqs)
  have "inv (snd (handle b req w))" using handle_inv [OF assms(1)] Cons.prems by simp
  with Cons show ?case by (simp add: serve_Cons)
qed simp

lemma serve_refines:
  assumes "hosted_by b" "inv w" "\<And>req. req \<in> set reqs \<Longrightarrow> valid_id (request_id req)"
  shows "spec_run (the_instances w) reqs (fst (serve b reqs w)) (the_instances (snd (serve b reqs w)))"
  using assms(2,3)
proof (induction reqs arbitrary: w)
  case (Cons req reqs)
  obtain r w1 where h: "handle b req w = (r, w1)" by fastforce
  have req: "valid_id (request_id req)" using Cons.prems by simp
  have "inv w1" using handle_inv [OF assms(1) Cons.prems(1) req] h by simp
  with Cons handle_refines [OF assms(1) Cons.prems(1) req h] h show ?case
    by (auto simp: serve_Cons intro: stepped)
qed (simp add: finished)

end

section \<open>Properties\<close>

text \<open>
  \<open>Provision\<close> succeeds exactly when no creator has the instance yet, the request names the
  shared plan, that plan is enabled, a creator is registered for it and that creator succeeds;
  the resulting state is the creator's.
\<close>

theorem provision_succeeds_iff:
  "Provision b i pid w = (Ok (), w') \<longleftrightarrow>
     \<not> instanceExists b i w \<and> pid \<noteq> '''' \<and> SharedEnabled (sb_Config b) \<and>
     pid = SharedVMPlanID (RedisConfiguration (sb_Config b)) \<and>
     (\<exists>c. map_of (InstanceCreators b) ''shared'' = Some c \<and> ic_Create c i w = (Ok (), w'))"
  by (auto simp: Provision_def plan_identifier_plans Let_def split: option.splits if_splits)

text \<open>
  The catalogue offers exactly the plans that \<open>Provision\<close> recognises: the shared plan when
  the instance limit is positive, and nothing otherwise.
\<close>

theorem catalog_offers_recognised_plans:
  "(\<exists>s \<in> set (Services b). \<exists>p \<in> set (svc_Plans s). plan_ID p = pid) \<longleftrightarrow>
     plan_identifier (plans (sb_Config b)) pid \<noteq> ''''"
  by (auto simp: Services_def plans_def Let_def)


definition example_creator :: "bool \<Rightarrow> nat instance_creator" where
  "example_creator e = \<lparr>ic_Create = (\<lambda>i w. (Ok (), w)), ic_Destroy = (\<lambda>i w. (Ok (), Suc w)),
     ic_InstanceExists = (\<lambda>i w. Ok e)\<rparr>"

definition example_broker :: "nat redis_service_broker" where
  "example_broker = \<lparr>InstanceCreators = [], InstanceBinders = [], sb_Config = zero_config\<rparr>"


text \<open>
  \<open>Unbind\<close> reports a missing binding for whatever the repository's error was, and a missing
  instance when no repository has it: no other error leaves it.
\<close>

theorem unbind_errors:
  "fst (Unbind b i bd w) = Err e \<longleftrightarrow>
     (\<exists>kr. find (\<lambda>kr. claims (ib_InstanceExists (snd kr) i w)) (InstanceBinders b) = Some kr \<and>
        (\<exists>e'. fst (ib_Unbind (snd kr) i bd w) = Err e') \<and> e = ErrBindingDoesNotExist) \<or>
     find (\<lambda>kr. claims (ib_InstanceExists (snd kr) i w)) (InstanceBinders b) = None \<and>
        e = ErrInstanceDoesNotExist"
proof -
  have "fst (unbind_loop rs i bd w) = Err e \<longleftrightarrow>
      (\<exists>kr. find (\<lambda>kr. claims (ib_InstanceExists (snd kr) i w)) rs = Some kr \<and>
        (\<exists>e'. fst (ib_Unbind (snd kr) i bd w) = Err e') \<and> e = ErrBindingDoesNotExist) \<or>
      find (\<lambda>kr. claims (ib_InstanceExists (snd kr) i w)) rs = None \<and>
        e = ErrInstanceDoesNotExist" for rs
    by (induction rs) (auto split: prod.splits res.splits)
  then show ?thesis by (simp add: Unbind_def)
qed

end
