(* ===== verification/Local_Repository.thy ===== *)
theory Local_Repository
  imports Redis_Conf Service_Broker
begin

text \<open>
  \<open>src/redis/local_repository.go\<close> and \<open>src/redis/instance.go\<close>: the instances of the shared
  plan as directories on the broker's disk. An instance is a directory below the data directory
  that holds a \<open>redis.conf\<close>; while it is being made or torn down it also holds a \<open>lock\<close> file.
\<close>

section \<open>The code\<close>

record redis_instance =
  inst_ID :: string
  inst_Host :: string
  inst_Port :: int
  inst_Password :: string

text \<open>\<open>net.TCPAddr\<close>: the host as the text that \<open>net.ParseIP\<close> is given.\<close>

record tcp_addr =
  addr_IP :: string
  addr_Port :: int

definition Address :: "redis_instance \<Rightarrow> tcp_addr" where
  "Address inst = \<lparr>addr_IP = inst_Host inst, addr_Port = inst_Port inst\<rparr>"

record local_repository =
  RedisConf :: service_configuration

definition NewLocalRepository :: "service_configuration \<Rightarrow> local_repository" where
  "NewLocalRepository redisConf =
     \<lparr>RedisConf =
        (if PidfileDirectory redisConf = ''''
         then redisConf\<lparr>PidfileDirectory := ''/var/vcap/sys/run/shared-instance-pidfiles''\<rparr>
         else redisConf)\<rparr>"

definition InstanceBaseDir :: "local_repository \<Rightarrow> string \<Rightarrow> string" where
  "InstanceBaseDir repo i = path_Join [InstanceDataDirectory (RedisConf repo), i]"

definition InstanceDataDir :: "local_repository \<Rightarrow> string \<Rightarrow> string" where
  "InstanceDataDir repo i = path_Join [InstanceBaseDir repo i, ''db'']"

definition InstanceLogDir :: "local_repository \<Rightarrow> string \<Rightarrow> string" where
  "InstanceLogDir repo i = path_Join [InstanceLogDirectory (RedisConf repo), i]"

definition InstanceLogFilePath :: "local_repository \<Rightarrow> string \<Rightarrow> string" where
  "InstanceLogFilePath repo i = path_Join [InstanceLogDir repo i, ''redis-server.log'']"

definition InstanceConfigPath :: "local_repository \<Rightarrow> string \<Rightarrow> string" where
  "InstanceConfigPath repo i = path_Join [InstanceBaseDir repo i, ''redis.conf'']"

definition InstancePidFilePath :: "local_repository \<Rightarrow> string \<Rightarrow> string" where
  "InstancePidFilePath repo i = path_Join [PidfileDirectory (RedisConf repo), i @ ''.pid'']"

definition lockFilePath :: "local_repository \<Rightarrow> redis_instance \<Rightarrow> string" where
  "lockFilePath repo inst = path_Join [InstanceBaseDir repo (inst_ID inst), ''lock'']"

definition FindByID :: "local_repository \<Rightarrow> string \<Rightarrow> world \<Rightarrow> redis_instance res" where
  "FindByID repo i w =
     res_bind (Conf_Load (InstanceConfigPath repo i) w) (\<lambda>conf.
     res_bind (strconv_Atoi (Conf_Get conf ''port'')) (\<lambda>port.
       Ok \<lparr>inst_ID = i, inst_Host = sc_Host (RedisConf repo), inst_Port = port,
           inst_Password = Conf_Get conf ''requirepass''\<rparr>))"

definition InstanceExists :: "local_repository \<Rightarrow> string \<Rightarrow> world \<Rightarrow> bool res" where
  "InstanceExists repo i w =
     (case os_Stat (InstanceBaseDir repo i) w of
        Err e \<Rightarrow> if os_IsNotExist e then Ok False else Err e
      | Panic m \<Rightarrow> Panic m
      | Ok _ \<Rightarrow> Ok True)"

definition Lock :: "local_repository \<Rightarrow> redis_instance \<Rightarrow> world \<Rightarrow> unit res \<times> world" where
  "Lock repo inst w = os_Create (lockFilePath repo inst) w"

definition Unlock :: "local_repository \<Rightarrow> redis_instance \<Rightarrow> world \<Rightarrow> unit res \<times> world" where
  "Unlock repo inst w = os_Remove (lockFilePath repo inst) w"

definition EnsureDirectoriesExist ::
    "local_repository \<Rightarrow> redis_instance \<Rightarrow> world \<Rightarrow> unit res \<times> world" where
  "EnsureDirectoriesExist repo inst w =
     io_bind (os_MkdirAll (InstanceDataDir repo (inst_ID inst)) (octal 7 5 0) w) (\<lambda>_ w.
     io_bind (os_MkdirAll (PidfileDirectory (RedisConf repo)) (octal 7 5 0) w) (\<lambda>_ w.
       os_MkdirAll (InstanceLogDir repo (inst_ID inst)) (octal 7 5 0) w))"

definition WriteConfigFile ::
    "local_repository \<Rightarrow> redis_instance \<Rightarrow> world \<Rightarrow> unit res \<times> world" where
  "WriteConfigFile repo inst w =
     CopyWithInstanceAdditions (DefaultConfigPath (RedisConf repo))
       (InstanceConfigPath repo (inst_ID inst)) (inst_ID inst) (strconv_Itoa (inst_Port inst))
       (inst_Password inst) (PidfileDirectory (RedisConf repo)) w"

text \<open>A failing step is logged under its name before the error is returned.\<close>

definition logged_step ::
    "string \<Rightarrow> (string \<times> string) list \<Rightarrow> unit res \<times> world \<Rightarrow> unit res \<times> world" where
  "logged_step action d p =
     (case p of (Err e, w) \<Rightarrow> (Err e, Logger_Error action e d w) | _ \<Rightarrow> p)"

definition Setup :: "local_repository \<Rightarrow> redis_instance \<Rightarrow> world \<Rightarrow> unit res \<times> world" where
  "Setup repo inst w =
     io_bind (logged_step ''ensure-dirs-exist'' [(''instance_id'', inst_ID inst)]
       (EnsureDirectoriesExist repo inst w)) (\<lambda>_ w.
     io_bind (logged_step ''lock-shared-instance'' [(''instance_id'', inst_ID inst)]
       (Lock repo inst w)) (\<lambda>_ w.
     io_bind (logged_step ''write-config-file'' [(''instance_id'', inst_ID inst)]
       (WriteConfigFile repo inst w)) (\<lambda>_ w.
       (Ok (), Logger_Info ''provision-instance''
          [(''instance_id'', inst_ID inst), (''plan'', ''shared-vm''),
           (''message'', ''Successfully provisioned Redis instance'')] w))))"

text \<open>The loop of \<open>allInstances\<close>: instances and errors are collected separately.\<close>

fun find_instances ::
    "local_repository \<Rightarrow> bool \<Rightarrow> string list \<Rightarrow> redis_instance list \<Rightarrow> gerror list \<Rightarrow> world \<Rightarrow>
     (redis_instance list \<times> gerror list) \<times> world" where
  "find_instances repo verbose [] insts errs w = ((insts, errs), w)"
| "find_instances repo verbose (n # ns) insts errs w =
     (case FindByID repo n w of
        Ok inst \<Rightarrow>
          find_instances repo verbose ns (insts @ [inst]) errs
            (if verbose then Logger_Info ''all-instances''
               [(''message'', ''Found shared instance: '' @ inst_ID inst)] w else w)
      | Err e \<Rightarrow>
          find_instances repo verbose ns insts (errs @ [e])
            (Logger_Error ''all-instances'' e
               [(''message'', ''Error getting instance details for instance ID: '' @ n)] w)
      | Panic m \<Rightarrow> ((insts, errs @ [ErrorString m]), w))"

definition allInstances ::
    "local_repository \<Rightarrow> bool \<Rightarrow> world \<Rightarrow> (redis_instance list \<times> gerror list) \<times> world" where
  "allInstances repo verbose w =
     (let dir = InstanceDataDirectory (RedisConf repo);
          w1 = (if verbose then Logger_Info ''all-instances''
                  [(''message'', ''Starting shared instance lookup in data directory: '' @ dir)] w
                else w)
      in case ioutil_ReadDir dir w1 of
           Ok names \<Rightarrow>
             (let pluralisedInstance = (if length names = 1 then ''instance'' else ''instances'');
                  w2 = (if verbose then Logger_Info ''all-instances''
                          [(''message'', strconv_Itoa (int (length names)) @ '' shared Redis ''
                             @ pluralisedInstance @ '' found'')] w1
                        else w1)
              in find_instances repo verbose names [] [] w2)
         | Err e \<Rightarrow>
             (([], [e]), Logger_Error ''all-instances'' e
                [(''message'', ''Error finding shared instances''), (''data-directory'', dir)] w1)
         | Panic m \<Rightarrow> (([], [ErrorString m]), w1))"

definition AllInstancesVerbose ::
    "local_repository \<Rightarrow> world \<Rightarrow> (redis_instance list \<times> gerror list) \<times> world" where
  "AllInstancesVerbose repo w = allInstances repo True w"

definition AllInstances ::
    "local_repository \<Rightarrow> world \<Rightarrow> (redis_instance list \<times> gerror list) \<times> world" where
  "AllInstances repo w = allInstances repo False w"

definition InstanceCount :: "local_repository \<Rightarrow> world \<Rightarrow> (int \<times> gerror list) \<times> world" where
  "InstanceCount repo w =
     (let ((insts, errs), w') = AllInstances repo w in ((int (length insts), errs), w'))"

definition Repo_Bind ::
    "local_repository \<Rightarrow> string \<Rightarrow> string \<Rightarrow> world \<Rightarrow> instance_credentials res \<times> world" where
  "Repo_Bind repo i bindingID w =
     (res_bind (FindByID repo i w) (\<lambda>inst.
        Ok \<lparr>ic_Host = inst_Host inst, ic_Port = inst_Port inst, ic_Password = inst_Password inst\<rparr>),
      w)"

definition Repo_Unbind :: "local_repository \<Rightarrow> string \<Rightarrow> string \<Rightarrow> world \<Rightarrow> unit res \<times> world" where
  "Repo_Unbind repo i bindingID w = (Ok (), w)"

text \<open>The pid file may be missing or stay behind: \<open>Delete\<close> only logs that.\<close>

definition remove_pidfile :: "local_repository \<Rightarrow> string \<Rightarrow> world \<Rightarrow> world" where
  "remove_pidfile repo i w =
     (let (r, w') = os_Remove (InstancePidFilePath repo i) w
      in if is_ok r then w'
         else Logger_Info ''deprovision-instance''
                [(''instance_id'', i), (''plan'', ''shared-vm''),
                 (''message'', ''Could not find pid file'')] w')"

definition Delete :: "local_repository \<Rightarrow> string \<Rightarrow> world \<Rightarrow> unit res \<times> world" where
  "Delete repo i w =
     io_bind (os_RemoveAll (InstanceBaseDir repo i) w) (\<lambda>_ w.
     io_bind (os_RemoveAll (InstanceLogDir repo i) w) (\<lambda>_ w.
       (Ok (), Logger_Info ''deprovision-instance''
          [(''instance_id'', i), (''plan'', ''shared-vm''),
           (''message'', ''Successfully deprovisioned Redis instance'')] (remove_pidfile repo i w))))"

definition InstancePid :: "local_repository \<Rightarrow> string \<Rightarrow> world \<Rightarrow> int res" where
  "InstancePid repo i w =
     res_bind (ioutil_ReadFile (InstancePidFilePath repo i) w) (\<lambda>c.
       strconv_ParseInt 32 (strings_TrimSpace c))"

section \<open>Where an instance lives\<close>

definition data_comps :: "local_repository \<Rightarrow> string list" where
  "data_comps repo = resolve [] (InstanceDataDirectory (RedisConf repo))"

definition log_comps :: "local_repository \<Rightarrow> string list" where
  "log_comps repo = resolve [] (InstanceLogDirectory (RedisConf repo))"

definition pid_comps :: "local_repository \<Rightarrow> string list" where
  "pid_comps repo = resolve [] (PidfileDirectory (RedisConf repo))"

text \<open>
  The directories are absolute and none lies within another one, and the default
  \<open>redis.conf\<close> is not an instance's file: the layout of every deployment.
\<close>

definition repo_ok :: "local_repository \<Rightarrow> bool" where
  "repo_ok repo \<longleftrightarrow>
     absolute (InstanceDataDirectory (RedisConf repo)) \<and>
     absolute (InstanceLogDirectory (RedisConf repo)) \<and>
     absolute (PidfileDirectory (RedisConf repo)) \<and>
     absolute (DefaultConfigPath (RedisConf repo)) \<and>
     parallel (data_comps repo) (log_comps repo) \<and>
     parallel (data_comps repo) (pid_comps repo) \<and>
     parallel (log_comps repo) (pid_comps repo) \<and>
     parallel (data_comps repo) (resolve [] (DefaultConfigPath (RedisConf repo)))"

lemma repo_okD:
  assumes "repo_ok repo"
  shows "absolute (InstanceDataDirectory (RedisConf repo))"
    "absolute (InstanceLogDirectory (RedisConf repo))"
    "absolute (PidfileDirectory (RedisConf repo))"
    "absolute (DefaultConfigPath (RedisConf repo))"
    "parallel (data_comps repo) (log_comps repo)"
    "parallel (data_comps repo) (pid_comps repo)"
    "parallel (log_comps repo) (pid_comps repo)"
    "parallel (data_comps repo) (resolve [] (DefaultConfigPath (RedisConf repo)))"
  using assms by (simp_all add: repo_ok_def)

lemma simple_literals [simp]:
  "simple_name ''db''" "simple_name ''lock''" "simple_name ''redis.conf''"
  "simple_name ''redis-server.log''"
  by (simp_all add: simple_name_def)

lemma absolute_dirs [simp]:
  assumes "repo_ok repo"
  shows "absolute (InstanceBaseDir repo i)" "absolute (InstanceDataDir repo i)"
    "absolute (InstanceLogDir repo i)" "absolute (InstanceConfigPath repo i)"
    "absolute (InstancePidFilePath repo i)" "absolute (InstanceLogFilePath repo i)"
  using assms
  by (simp_all add: InstanceBaseDir_def InstanceDataDir_def InstanceLogDir_def
      InstanceConfigPath_def InstancePidFilePath_def InstanceLogFilePath_def repo_okD)

lemma resolve_data_dir [path_simps]:
  "repo_ok repo \<Longrightarrow> resolve c (InstanceDataDirectory (RedisConf repo)) = data_comps repo"
  "repo_ok repo \<Longrightarrow> resolve c (InstanceLogDirectory (RedisConf repo)) = log_comps repo"
  "repo_ok repo \<Longrightarrow> resolve c (PidfileDirectory (RedisConf repo)) = pid_comps repo"
  unfolding data_comps_def log_comps_def pid_comps_def
  by (intro resolve_absolute, simp add: repo_okD)+

lemma resolve_instance_paths [path_simps]:
  assumes "repo_ok repo" and "simple_name i"
  shows "resolve c (InstanceBaseDir repo i) = data_comps repo @ [i]"
    "resolve c (InstanceDataDir repo i) = data_comps repo @ [i, ''db'']"
    "resolve c (InstanceConfigPath repo i) = data_comps repo @ [i, ''redis.conf'']"
    "inst_ID inst = i \<Longrightarrow> resolve c (lockFilePath repo inst) = data_comps repo @ [i, ''lock'']"
    "resolve c (InstanceLogDir repo i) = log_comps repo @ [i]"
    "resolve c (InstanceLogFilePath repo i) = log_comps repo @ [i, ''redis-server.log'']"
    "resolve c (InstancePidFilePath repo i) = pid_comps repo @ [i @ ''.pid'']"
proof -
  have pid: "simple_name (i @ ''.pid'')" using assms(2) by (intro simple_name_suffix) auto
  show base: "resolve c (InstanceBaseDir repo i) = data_comps repo @ [i]"
    using assms by (simp add: InstanceBaseDir_def path_simps repo_okD)
  show log: "resolve c (InstanceLogDir repo i) = log_comps repo @ [i]"
    using assms by (simp add: InstanceLogDir_def path_simps repo_okD)
  show "resolve c (InstancePidFilePath repo i) = pid_comps repo @ [i @ ''.pid'']"
    using assms pid by (simp add: InstancePidFilePath_def path_simps repo_okD)
  show "resolve c (InstanceDataDir repo i) = data_comps repo @ [i, ''db'']"
    "resolve c (InstanceConfigPath repo i) = data_comps repo @ [i, ''redis.conf'']"
    "inst_ID inst = i \<Longrightarrow> resolve c (lockFilePath repo inst) = data_comps repo @ [i, ''lock'']"
    "resolve c (InstanceLogFilePath repo i) = log_comps repo @ [i, ''redis-server.log'']"
    using assms base log
    by (simp_all add: InstanceDataDir_def InstanceConfigPath_def lockFilePath_def
        InstanceLogFilePath_def resolve_path_Join)
qed

text \<open>The objects that belong to an instance, and those an operation on it may touch.\<close>

definition instance_area :: "local_repository \<Rightarrow> string \<Rightarrow> string list set" where
  "instance_area repo i =
     {q. prefix (data_comps repo @ [i]) q} \<union> {q. prefix (log_comps repo @ [i]) q} \<union>
     {pid_comps repo @ [i @ ''.pid'']}"

definition instance_frame :: "local_repository \<Rightarrow> string \<Rightarrow> string list set" where
  "instance_frame repo i =
     instance_area repo i \<union> {q. prefix q (data_comps repo)} \<union> {q. prefix q (log_comps repo)} \<union>
     {q. prefix q (pid_comps repo)}"

lemma prefix_snoc_same: "prefix (d @ [x]) q \<Longrightarrow> prefix (d @ [y]) q \<Longrightarrow> x = y"
  by (auto simp: prefix_def)

lemma parallel_below:
  assumes "parallel a b" and "prefix a q"
  shows "\<not> prefix b q" and "\<not> prefix q b"
  using assms prefix_same_cases [of a q b] prefix_order.trans [of a q b]
  by (auto simp: parallel_def)

lemma area_roots:
  "q \<in> instance_area repo j \<Longrightarrow>
     prefix (data_comps repo @ [j]) q \<or> prefix (log_comps repo @ [j]) q \<or>
     q = pid_comps repo @ [j @ ''.pid'']"
  by (auto simp: instance_area_def)

lemma snoc_not_prefix [simp]: "prefix (d @ [x]) q \<Longrightarrow> \<not> prefix q d"
  by (auto dest!: prefix_length_le)

lemma frame_roots:
  "q \<in> instance_frame repo i \<Longrightarrow>
     prefix (data_comps repo @ [i]) q \<or> prefix q (data_comps repo) \<or>
     prefix (log_comps repo @ [i]) q \<or> prefix q (log_comps repo) \<or>
     q = pid_comps repo @ [i @ ''.pid''] \<or> prefix q (pid_comps repo)"
  by (auto simp: instance_frame_def instance_area_def)

lemma parallel_below_snoc:
  assumes "parallel a b" and "prefix a q"
  shows "\<not> prefix (b @ [x]) q" and "q \<noteq> b @ [x]"
proof -
  show "\<not> prefix (b @ [x]) q"
    using parallel_below(1) [OF assms] by (meson append_prefixD)
  then show "q \<noteq> b @ [x]" by auto
qed

lemma frames_apart:
  assumes ok: "repo_ok repo" and q: "q \<in> instance_area repo j" and ne: "j \<noteq> i"
  shows "q \<notin> instance_frame repo i"
proof
  let ?d = "data_comps repo" and ?l = "log_comps repo" and ?p = "pid_comps repo"
  assume "q \<in> instance_frame repo i"
  note roots = frame_roots [OF this]
  have par: "parallel ?d ?l" "parallel ?d ?p" "parallel ?l ?p"
    "parallel ?l ?d" "parallel ?p ?d" "parallel ?p ?l"
    using repo_okD(5-7) [OF ok] parallel_commute by metis+
  note below = parallel_below parallel_below_snoc
  consider "prefix (?d @ [j]) q" | "prefix (?l @ [j]) q" | "q = ?p @ [j @ ''.pid'']"
    using area_roots [OF q] by blast
  then show False
  proof cases
    case 1
    then have "prefix ?d q" by (rule append_prefixD)
    with roots 1 ne below [OF par(1)] below [OF par(2)] show False
      by (metis prefix_snoc_same snoc_not_prefix)
  next
    case 2
    then have "prefix ?l q" by (rule append_prefixD)
    with roots 2 ne below [OF par(3)] below [OF par(4)] show False
      by (metis prefix_snoc_same snoc_not_prefix)
  next
    case 3
    then have "prefix ?p q" by simp
    moreover have "\<not> prefix q ?p" and "q \<noteq> ?p @ [i @ ''.pid'']" using 3 ne by auto
    ultimately show False
      using roots below [OF par(5)] below [OF par(6)] by metis
  qed
qed

section \<open>Frames and the tree invariant\<close>

lemma area_members [simp]:
  "data_comps repo @ i # qs \<in> instance_area repo i"
  "log_comps repo @ i # qs \<in> instance_area repo i"
  "pid_comps repo @ [i @ ''.pid''] \<in> instance_area repo i"
  by (auto simp: instance_area_def)

lemma area_subset_frame: "instance_area repo i \<subseteq> instance_frame repo i"
  by (auto simp: instance_frame_def)

lemma prefix_snoc2: "prefix q (d @ [a, b]) \<longleftrightarrow> q = d @ [a, b] \<or> q = d @ [a] \<or> prefix q d"
  using prefix_snoc [of q "d @ [a]" b] prefix_snoc [of q d a] by simp

lemma mkdir_paths_in_frame:
  "{q. prefix q (data_comps repo @ [i, x])} \<subseteq> instance_frame repo i"
  "{q. prefix q (pid_comps repo)} \<subseteq> instance_frame repo i"
  "{q. prefix q (log_comps repo @ [i])} \<subseteq> instance_frame repo i"
  by (auto simp: instance_frame_def prefix_snoc prefix_snoc2)

text \<open>A call is local to an instance: it keeps the tree and touches only the instance's objects.\<close>

definition keeps_local :: "local_repository \<Rightarrow> string \<Rightarrow> world \<Rightarrow> world \<Rightarrow> bool" where
  "keeps_local repo i w w' \<longleftrightarrow> fs_frame (instance_frame repo i) w w' \<and> (fs_wf w \<longrightarrow> fs_wf w')"

lemma keeps_local_refl [simp]: "keeps_local repo i w w"
  by (simp add: keeps_local_def)

lemma keeps_local_trans:
  "keeps_local repo i a b \<Longrightarrow> keeps_local repo i b c \<Longrightarrow> keeps_local repo i a c"
  by (auto simp: keeps_local_def intro: fs_frame_trans)

lemma keeps_local_log [simp]: "keeps_local repo i w (log_write l a e d v) = keeps_local repo i w v"
  by (simp add: keeps_local_def fs_frame_def same_env_def)

lemma keeps_local_io_bind:
  assumes "keeps_local repo i w (snd p)"
    and "\<And>a w'. p = (Ok a, w') \<Longrightarrow> keeps_local repo i w' (snd (f a w'))"
  shows "keeps_local repo i w (snd (io_bind p f))"
  using assms by (intro io_bind_state [of "keeps_local repo i w"]) (auto intro: keeps_local_trans)

lemma keeps_local_logged_step:
  "keeps_local repo i w (snd p) \<Longrightarrow> keeps_local repo i w (snd (logged_step a d p))"
  by (auto simp: logged_step_def split: prod.splits res.splits intro: keeps_local_trans)

lemma logged_step_Ok [simp]: "logged_step a d p = (Ok u, w') \<longleftrightarrow> p = (Ok u, w')"
  by (auto simp: logged_step_def split: prod.splits res.splits)

lemma fs_frame_single_local:
  assumes "fs_frame {q} w w'" and "q \<in> instance_area repo i"
  shows "fs_frame (instance_frame repo i) w w'"
  using assms area_subset_frame by (blast intro: fs_frame_mono)

lemma Lock_local:
  "repo_ok repo \<Longrightarrow> simple_name (inst_ID inst) \<Longrightarrow>
     keeps_local repo (inst_ID inst) w (snd (Lock repo inst w))"
  using Create_frame [of w "lockFilePath repo inst"]
  by (auto simp: keeps_local_def Lock_def path_simps fs_wf_Create intro: fs_frame_single_local)

lemma Unlock_local:
  "repo_ok repo \<Longrightarrow> simple_name (inst_ID inst) \<Longrightarrow>
     keeps_local repo (inst_ID inst) w (snd (Unlock repo inst w))"
  using Remove_frame [of w "lockFilePath repo inst"]
  by (auto simp: keeps_local_def Unlock_def path_simps fs_wf_Remove intro: fs_frame_single_local)

lemma WriteConfigFile_local:
  "repo_ok repo \<Longrightarrow> simple_name (inst_ID inst) \<Longrightarrow>
     keeps_local repo (inst_ID inst) w (snd (WriteConfigFile repo inst w))"
  using fs_frame_single_local [OF Copy_frame]
  by (simp add: keeps_local_def WriteConfigFile_def path_simps fs_wf_Copy)

lemma MkdirAll_local:
  assumes "{q. prefix q (resolve (cwd w) p)} \<subseteq> instance_frame repo i"
  shows "keeps_local repo i w (snd (os_MkdirAll p perm w))"
  using fs_frame_mono [OF MkdirAll_frame assms] by (simp add: keeps_local_def fs_wf_MkdirAll)

lemma EnsureDirectoriesExist_local:
  "repo_ok repo \<Longrightarrow> simple_name (inst_ID inst) \<Longrightarrow>
     keeps_local repo (inst_ID inst) w (snd (EnsureDirectoriesExist repo inst w))"
  unfolding EnsureDirectoriesExist_def
  by (intro keeps_local_io_bind MkdirAll_local)
    (simp_all only: path_simps mkdir_paths_in_frame)

lemma Setup_local:
  "repo_ok repo \<Longrightarrow> simple_name (inst_ID inst) \<Longrightarrow>
     keeps_local repo (inst_ID inst) w (snd (Setup repo inst w))"
  unfolding Setup_def
  by (intro keeps_local_io_bind keeps_local_logged_step EnsureDirectoriesExist_local Lock_local
      WriteConfigFile_local) simp_all

lemma RemoveAll_local:
  assumes "{q. prefix (resolve (cwd w) p) q} \<subseteq> instance_frame repo i"
  shows "keeps_local repo i w (snd (os_RemoveAll p w))"
  using fs_frame_mono [OF RemoveAll_frame assms] by (simp add: keeps_local_def fs_wf_RemoveAll)

lemma Delete_local:
  assumes "repo_ok repo" and "simple_name i"
  shows "keeps_local repo i w (snd (Delete repo i w))"
proof -
  have "keeps_local repo i v (snd (os_Remove (InstancePidFilePath repo i) v))" for v
    using Remove_frame [of v "InstancePidFilePath repo i"] assms
    by (auto simp: keeps_local_def path_simps fs_wf_Remove intro: fs_frame_single_local)
  then have pid: "keeps_local repo i v (remove_pidfile repo i v)" for v
    by (auto simp: remove_pidfile_def split: prod.splits) (metis snd_conv)+
  have areas: "{q. prefix (data_comps repo @ [i]) q} \<subseteq> instance_frame repo i"
    "{q. prefix (log_comps repo @ [i]) q} \<subseteq> instance_frame repo i"
    by (auto simp: instance_frame_def instance_area_def)
  show ?thesis
    unfolding Delete_def Let_def
    by (intro keeps_local_io_bind RemoveAll_local)
      (use assms areas in \<open>auto simp: path_simps pid\<close>)
qed

text \<open>Listing the instances writes to the log and changes nothing else.\<close>

definition only_logs :: "world \<Rightarrow> world \<Rightarrow> bool" where
  "only_logs w w' \<longleftrightarrow> nodes w' = nodes w \<and> same_env w w'"

lemma only_logs_refl [simp]: "only_logs w w"
  by (simp add: only_logs_def)

lemma only_logs_log [simp]: "only_logs w (log_write l a e d v) = only_logs w v"
  by (simp add: only_logs_def same_env_def)

lemma find_instances_world:
  "only_logs w0 w \<Longrightarrow> only_logs w0 (snd (find_instances repo v ns insts errs w))"
  by (induction repo v ns insts errs w rule: find_instances.induct) (auto split: res.splits)

lemma allInstances_world: "only_logs w (snd (allInstances repo v w))"
  by (auto simp: allInstances_def Let_def split: res.splits intro!: find_instances_world)

lemma only_logs_node: "only_logs w w' \<Longrightarrow> node_at w' = node_at w"
  by (simp add: only_logs_def fun_eq_iff node_at_def)

lemma only_logs_frame: "only_logs w w' \<Longrightarrow> fs_frame D w w'"
  by (simp add: fs_frame_def only_logs_node) (simp add: only_logs_def)

lemma only_logs_wf: "only_logs w w' \<Longrightarrow> fs_wf w' = fs_wf w"
  by (simp add: fs_wf_def is_dir_at_def only_logs_node) (simp add: only_logs_def)

section \<open>Lookups, listings and counts\<close>

lemma FindByID_Ok_iff:
  "FindByID repo i w = Ok inst \<longleftrightarrow>
     (\<exists>conf. Conf_Load (InstanceConfigPath repo i) w = Ok conf \<and>
        strconv_Atoi (Conf_Get conf ''port'') = Ok (inst_Port inst) \<and>
        inst = \<lparr>inst_ID = i, inst_Host = sc_Host (RedisConf repo), inst_Port = inst_Port inst,
                inst_Password = Conf_Get conf ''requirepass''\<rparr>)"
  by (cases inst) (auto simp: FindByID_def res_bind_Ok_iff)

lemma FindByID_never_panics [simp]: "FindByID repo i w \<noteq> Panic m"
proof (cases "Conf_Load (InstanceConfigPath repo i) w")
  case (Ok conf)
  then show ?thesis
    by (cases "strconv_ParseInt 64 (Conf_Get conf ''port'')")
      (simp_all add: FindByID_def strconv_Atoi_def ParseInt_never_panics)
qed (simp_all add: FindByID_def)

lemma FindByID_id: "FindByID repo i w = Ok inst \<Longrightarrow> inst_ID inst = i"
  by (auto simp: FindByID_Ok_iff) (metis redis_instance.select_convs(1))

lemma keeps_localD:
  assumes "keeps_local repo i w w'" and "fs_wf w"
  shows "fs_wf w'" and "fs_frame (instance_frame repo i) w w'"
  using assms by (simp_all add: keeps_local_def)

lemma FindByID_other:
  assumes "repo_ok repo" "simple_name j" "j \<noteq> i" "fs_wf w" "keeps_local repo i w w'"
  shows "FindByID repo j w' = Ok inst \<longleftrightarrow> FindByID repo j w = Ok inst"
proof -
  have "resolve (cwd w) (InstanceConfigPath repo j) \<notin> instance_frame repo i"
    using frames_apart [OF assms(1) _ assms(3), of "data_comps repo @ [j, ''redis.conf'']"] assms(1,2)
    by (simp add: path_simps)
  from Load_frame [OF assms(4) keeps_localD [OF assms(5,4)] this] show ?thesis
    by (simp add: FindByID_Ok_iff)
qed

lemma os_Stat_Ok_iff:
  "fs_wf w \<Longrightarrow> os_Stat p w = Ok n \<longleftrightarrow>
     p \<noteq> '''' \<and> refuses w OpStat (resolve (cwd w) p) = None \<and> node_at w (resolve (cwd w) p) = Some n"
  by (auto simp: os_Stat_def at_path_def walk_Ok_iff split: option.splits)

lemma exists_claims_Stat: "claims (InstanceExists repo i w) \<longleftrightarrow> is_ok (os_Stat (InstanceBaseDir repo i) w)"
  by (cases "os_Stat (InstanceBaseDir repo i) w") (auto simp: claims_def InstanceExists_def)

lemma exists_claims_iff:
  assumes "repo_ok repo" "simple_name i" "fs_wf w"
  shows "claims (InstanceExists repo i w) \<longleftrightarrow>
    refuses w OpStat (data_comps repo @ [i]) = None \<and> node_at w (data_comps repo @ [i]) \<noteq> None"
  using assms absolute_nonempty [OF absolute_dirs(1)]
  by (auto simp: exists_claims_Stat is_ok_iff os_Stat_Ok_iff path_simps)

lemma exists_other:
  assumes "repo_ok repo" "simple_name j" "j \<noteq> i" "fs_wf w" "keeps_local repo i w w'"
  shows "claims (InstanceExists repo j w') = claims (InstanceExists repo j w)"
proof -
  have "data_comps repo @ [j] \<notin> instance_frame repo i"
    using frames_apart [OF assms(1) _ assms(3)] by simp
  with keeps_localD [OF assms(5,4)] assms show ?thesis
    by (simp add: exists_claims_iff fs_frame_def same_env_def)
qed

lemma entries_local:
  assumes "repo_ok repo" "keeps_local repo i w w'"
  shows "dir_entries w' (data_comps repo) - {i} = dir_entries w (data_comps repo) - {i}"
proof -
  have "node_at w' (data_comps repo @ [n]) = node_at w (data_comps repo @ [n])" if "n \<noteq> i" for n
    using frames_apart [OF assms(1) _ that, of "data_comps repo @ [n]"] assms(2)
    by (simp add: keeps_local_def fs_frame_def)
  then show ?thesis by (auto simp: dir_entries_def)
qed

lemma find_instances_length:
  "length (fst (fst (find_instances repo v ns insts errs w))) +
   length (snd (fst (find_instances repo v ns insts errs w))) =
   length insts + length errs + length ns"
  by (induction repo v ns insts errs w rule: find_instances.induct) (auto split: res.splits)

fun ok_value :: "'a res \<Rightarrow> 'a list" where
  "ok_value (Ok a) = [a]"
| "ok_value _ = []"

fun err_value :: "'a res \<Rightarrow> gerror list" where
  "err_value (Err e) = [e]"
| "err_value _ = []"

lemma FindByID_log: "FindByID repo i (log_write l a e d w) = FindByID repo i w"
  by (simp add: FindByID_def Conf_Load_def)

lemma find_instances_spec:
  "fst (find_instances repo v ns insts errs w) =
     (insts @ concat (map (\<lambda>n. ok_value (FindByID repo n w)) ns),
      errs @ concat (map (\<lambda>n. err_value (FindByID repo n w)) ns))"
  by (induction repo v ns insts errs w rule: find_instances.induct)
    (auto split: res.splits simp: FindByID_log)

lemma allInstances_spec:
  "fst (allInstances repo v w) =
     (case ioutil_ReadDir (InstanceDataDirectory (RedisConf repo)) w of
        Ok names \<Rightarrow> (concat (map (\<lambda>n. ok_value (FindByID repo n w)) names),
                     concat (map (\<lambda>n. err_value (FindByID repo n w)) names))
      | Err e \<Rightarrow> ([], [e])
      | Panic m \<Rightarrow> ([], [ErrorString m]))"
  by (auto simp: allInstances_def Let_def find_instances_spec FindByID_log
      split: res.splits)

lemma length_ok_err:
  "length (concat (map (\<lambda>n. ok_value (FindByID repo n w)) ns)) +
   length (concat (map (\<lambda>n. err_value (FindByID repo n w)) ns)) = length ns"
proof (induction ns)
  case (Cons n ns)
  then show ?case by (cases "FindByID repo n w") auto
qed simp

lemma InstanceCount_entries:
  assumes "repo_ok repo" "fs_wf w" "InstanceCount repo w = ((n, []), w')"
  shows "n = int (card (dir_entries w (data_comps repo)))" and "only_logs w w'"
proof -
  obtain insts where insts: "allInstances repo False w = ((insts, []), w')" "n = int (length insts)"
    using assms(3) by (auto simp: InstanceCount_def AllInstances_def split: prod.splits)
  then show "only_logs w w'" using allInstances_world [of w repo False] by simp
  from insts(1) obtain names where
    names: "ioutil_ReadDir (InstanceDataDirectory (RedisConf repo)) w = Ok names"
    and "insts = concat (map (\<lambda>n. ok_value (FindByID repo n w)) names)"
    and "[] = concat (map (\<lambda>n. err_value (FindByID repo n w)) names)"
    using allInstances_spec [of repo False w] by (auto split: res.splits)
  then have "length insts = length names"
    using length_ok_err [of repo w names] by (metis add.right_neutral list.size(3))
  moreover have "names = sort (child_names w (data_comps repo))"
    using names assms by (simp add: ReadDir_Ok_iff path_simps)
  ultimately show "n = int (card (dir_entries w (data_comps repo)))"
    using insts(2) length_child_names [OF assms(2)] by simp
qed

section \<open>What the operations achieve\<close>

lemma EnsureDirectoriesExist_keeps:
  assumes "node_at w q = Some n"
  shows "node_at (snd (EnsureDirectoriesExist repo inst w)) q = Some n"
  unfolding EnsureDirectoriesExist_def
  by (intro io_bind_state [of "\<lambda>w. node_at w q = Some n"]) (simp_all add: MkdirAll_keeps assms)

lemma EnsureDirectoriesExist_Ok:
  assumes "repo_ok repo" "simple_name (inst_ID inst)"
    and "EnsureDirectoriesExist repo inst w = (Ok (), w')"
    and "prefix q (data_comps repo @ [inst_ID inst, ''db''])"
  shows "is_dir_at w' q"
proof -
  obtain w1 w2 where w1: "os_MkdirAll (InstanceDataDir repo (inst_ID inst)) (octal 7 5 0) w = (Ok (), w1)"
    and w2: "os_MkdirAll (PidfileDirectory (RedisConf repo)) (octal 7 5 0) w1 = (Ok (), w2)"
    and w': "os_MkdirAll (InstanceLogDir repo (inst_ID inst)) (octal 7 5 0) w2 = (Ok (), w')"
    using assms(3) by (auto simp: EnsureDirectoriesExist_def io_bind_Ok_iff)
  have "is_dir_at w1 q" using MkdirAll_Ok [OF w1] assms by (simp add: path_simps)
  then have "is_dir_at w2 q"
    using MkdirAll_keeps [of w1 q _ "PidfileDirectory (RedisConf repo)" "octal 7 5 0"] w2
    by (auto simp: is_dir_at_alt)
  then show ?thesis
    using MkdirAll_keeps [of w2 q _ "InstanceLogDir repo (inst_ID inst)" "octal 7 5 0"] w'
    by (auto simp: is_dir_at_alt)
qed

lemma default_outside_data:
  assumes "repo_ok repo"
  shows "resolve c (DefaultConfigPath (RedisConf repo)) \<noteq> data_comps repo @ qs"
  using repo_okD(4,8) [OF assms] resolve_absolute [of "DefaultConfigPath (RedisConf repo)" c]
  by (metis parallelE prefixI)

text \<open>The state between the steps of a successful \<open>Setup\<close>.\<close>

lemma Setup_steps:
  assumes "Setup repo inst w = (Ok (), w')"
  obtains w1 w2 w3 where "EnsureDirectoriesExist repo inst w = (Ok (), w1)"
    "Lock repo inst w1 = (Ok (), w2)" "WriteConfigFile repo inst w2 = (Ok (), w3)"
    "w' = Logger_Info ''provision-instance'' [(''instance_id'', inst_ID inst), (''plan'', ''shared-vm''),
       (''message'', ''Successfully provisioned Redis instance'')] w3"
  using assms by (auto simp: Setup_def io_bind_Ok_iff)

lemma Setup_Ok:
  assumes "repo_ok repo" "simple_name (inst_ID inst)" "fs_wf w"
    and "Conf_Load (DefaultConfigPath (RedisConf repo)) w = Ok c" "wf_conf c"
    and "wf_addition (inst_ID inst) (strconv_Itoa (inst_Port inst)) (inst_Password inst)
           (PidfileDirectory (RedisConf repo))"
    and "refuses w OpOpen (data_comps repo @ [inst_ID inst, ''redis.conf'']) = None"
    and "Setup repo inst w = (Ok (), w')"
  shows "Conf_Load (InstanceConfigPath repo (inst_ID inst)) w' =
      Ok (instance_additions (inst_ID inst) (strconv_Itoa (inst_Port inst)) (inst_Password inst)
           (PidfileDirectory (RedisConf repo)) c)"
    and "is_file_at w' (data_comps repo @ [inst_ID inst, ''lock''])"
    and "is_dir_at w' (data_comps repo @ [inst_ID inst, ''db''])"
    and "is_dir_at w' (data_comps repo @ [inst_ID inst])"
proof -
  let ?i = "inst_ID inst"
  let ?base = "data_comps repo @ [?i]"
  obtain w1 w2 w3 where w1: "EnsureDirectoriesExist repo inst w = (Ok (), w1)"
    and w2: "Lock repo inst w1 = (Ok (), w2)" and w3: "WriteConfigFile repo inst w2 = (Ok (), w3)"
    and w': "node_at w' = node_at w3" "\<And>p. Conf_Load p w' = Conf_Load p w3"
    using assms(8) by (rule Setup_steps) (simp add: that)
  have k1: "keeps_local repo ?i w w1" and k2: "keeps_local repo ?i w1 w2"
    and k3: "keeps_local repo ?i w2 w3"
    using EnsureDirectoriesExist_local [OF assms(1,2), of w] Lock_local [OF assms(1,2), of w1]
      WriteConfigFile_local [OF assms(1,2), of w2] w1 w2 w3 by simp_all
  note wf1 = keeps_localD(1) [OF k1 assms(3)]
  note wf2 = keeps_localD(1) [OF k2 wf1]
  note env = fs_frame_env [OF keeps_localD(2) [OF k1 assms(3)]]
    fs_frame_env [OF keeps_localD(2) [OF k2 wf1]] fs_frame_env [OF keeps_localD(2) [OF k3 wf2]]
  have lock_frame: "fs_frame {?base @ [''lock'']} w1 w2"
    using Create_frame [of w1 "lockFilePath repo inst"] w2 assms(1,2)
    by (simp add: Lock_def path_simps)
  have conf_frame: "fs_frame {?base @ [''redis.conf'']} w2 w3"
    using Copy_frame w3 assms(1,2)
    by (metis (no_types) WriteConfigFile_def append.assoc append_Cons append_Nil
        resolve_instance_paths(3) snd_conv)
  have "Conf_Load (DefaultConfigPath (RedisConf repo)) w1 = Ok c"
    using Load_kept [OF assms(3) wf1 env(1) assms(4)] EnsureDirectoriesExist_keeps [of w _ _ repo inst] w1
    by simp
  then have "Conf_Load (DefaultConfigPath (RedisConf repo)) w2 = Ok c"
    by (rule Load_kept [OF wf1 wf2 env(2)])
      (use lock_frame default_outside_data [OF assms(1)] in \<open>simp add: fs_frame_def\<close>)
  from Copy_load [OF wf2 this assms(5,6) _ w3 [unfolded WriteConfigFile_def]]
  show "Conf_Load (InstanceConfigPath repo ?i) w' =
      Ok (instance_additions ?i (strconv_Itoa (inst_Port inst)) (inst_Password inst)
           (PidfileDirectory (RedisConf repo)) c)"
    using assms(1,2,7) env w'(2) by (simp add: path_simps same_env_def)
  have "is_file_at w2 (?base @ [''lock''])"
    using Create_Ok [OF w2 [unfolded Lock_def]] assms(1,2) by (auto simp: path_simps is_file_at_alt)
  then show "is_file_at w' (data_comps repo @ [?i, ''lock''])"
    using conf_frame w'(1) by (simp add: fs_frame_def is_file_at_alt)
  have dirs: "is_dir_at w1 (?base @ [''db''])" "is_dir_at w1 ?base"
    using EnsureDirectoriesExist_Ok [OF assms(1,2) w1] by simp_all
  have "is_dir_at w' q" if "is_dir_at w1 q" "q \<noteq> ?base @ [''lock'']" "q \<noteq> ?base @ [''redis.conf'']" for q
    using that lock_frame conf_frame w'(1) by (simp add: fs_frame_def is_dir_at_alt)
  from this [OF dirs(1)] this [OF dirs(2)]
  show "is_dir_at w' (data_comps repo @ [?i, ''db''])" "is_dir_at w' (data_comps repo @ [?i])"
    by simp_all
qed

lemma Setup_found:
  assumes "repo_ok repo" "simple_name (inst_ID inst)" "fs_wf w"
    and "Conf_Load (DefaultConfigPath (RedisConf repo)) w = Ok c" "wf_conf c"
    and "wf_addition (inst_ID inst) (strconv_Itoa (inst_Port inst)) (inst_Password inst)
           (PidfileDirectory (RedisConf repo))"
    and "refuses w OpOpen (data_comps repo @ [inst_ID inst, ''redis.conf'']) = None"
    and "Setup repo inst w = (Ok (), w')"
    and "inst_Host inst = sc_Host (RedisConf repo)" "in_int_range 64 (inst_Port inst)"
  shows "FindByID repo (inst_ID inst) w' = Ok inst"
  using Setup_Ok(1) [OF assms(1-8)] assms(9,10)
  by (simp add: FindByID_def additions_get Atoi_Itoa)

lemma remove_pidfile_node:
  "node_at (remove_pidfile repo i w) = node_at (snd (os_Remove (InstancePidFilePath repo i) w))"
  by (simp add: remove_pidfile_def split: prod.split)

lemma Delete_steps:
  assumes "Delete repo i w = (Ok (), w')"
  obtains w1 w2 where "os_RemoveAll (InstanceBaseDir repo i) w = (Ok (), w1)"
    "os_RemoveAll (InstanceLogDir repo i) w1 = (Ok (), w2)"
    "node_at w' = node_at (snd (os_Remove (InstancePidFilePath repo i) w2))"
  using assms by (auto simp: Delete_def io_bind_Ok_iff remove_pidfile_node)

lemma same_node_frame:
  "fs_frame D w w' \<Longrightarrow> node_at w q = None \<Longrightarrow> q \<notin> D \<Longrightarrow> node_at w' q = None"
  by (simp add: fs_frame_def)

lemma Delete_Ok:
  assumes ok: "repo_ok repo" "simple_name i" "fs_wf w" and run: "Delete repo i w = (Ok (), w')"
  shows "prefix (data_comps repo @ [i]) q \<or> prefix (log_comps repo @ [i]) q \<Longrightarrow> node_at w' q = None"
proof -
  obtain w1 w2 where w1: "os_RemoveAll (InstanceBaseDir repo i) w = (Ok (), w1)"
    and w2: "os_RemoveAll (InstanceLogDir repo i) w1 = (Ok (), w2)"
    and w': "node_at w' = node_at (snd (os_Remove (InstancePidFilePath repo i) w2))"
    using Delete_steps [OF run] .
  have wf1: "fs_wf w1" using fs_wf_RemoveAll [OF ok(3), of "InstanceBaseDir repo i"] w1 by simp
  have nonempty: "InstanceBaseDir repo i \<noteq> ''''" "InstanceLogDir repo i \<noteq> ''''"
    using absolute_nonempty absolute_dirs [OF ok(1)] by blast+
  have f2: "fs_frame {q. prefix (log_comps repo @ [i]) q} w1 w2"
    using RemoveAll_frame [of w1 "InstanceLogDir repo i"] w2 ok by (simp add: path_simps)
  have f3: "fs_frame {pid_comps repo @ [i @ ''.pid'']} w2 (snd (os_Remove (InstancePidFilePath repo i) w2))"
    using Remove_frame [of w2 "InstancePidFilePath repo i"] ok by (simp add: path_simps)
  have par: "parallel (data_comps repo) (pid_comps repo)" "parallel (log_comps repo) (pid_comps repo)"
    "parallel (data_comps repo) (log_comps repo)"
    using repo_okD(5-7) [OF ok(1)] by blast+
  have data: "node_at w2 q = None" if "prefix (data_comps repo @ [i]) q" for q
  proof -
    have "node_at w1 q = None"
      using RemoveAll_Ok [OF ok(3) w1 nonempty(1)] that ok by (simp add: path_simps)
    moreover have "prefix (data_comps repo) q" using that by (rule append_prefixD)
    ultimately show ?thesis
      using same_node_frame [OF f2] parallel_below_snoc(1) [OF par(3)] by simp
  qed
  have log: "node_at w2 q = None" if "prefix (log_comps repo @ [i]) q" for q
    using RemoveAll_Ok [OF wf1 w2 nonempty(2)] that ok by (simp add: path_simps)
  assume q: "prefix (data_comps repo @ [i]) q \<or> prefix (log_comps repo @ [i]) q"
  then have "q \<noteq> pid_comps repo @ [i @ ''.pid'']"
    using parallel_below_snoc(2) [OF par(1)] parallel_below_snoc(2) [OF par(2)]
    by (metis append_prefixD)
  with q data log f3 w' show ?thesis by (metis same_node_frame singletonD)
qed

section \<open>Properties\<close>

text \<open>
  C5. A successful \<open>Setup\<close> makes the instance: \<open>FindByID\<close> returns exactly the instance that was
  set up, with its port and password read back from the \<open>redis.conf\<close> it wrote,
  \<open>InstanceExists\<close> holds, its \<open>db\<close> directory is there, and it is locked.
\<close>

theorem setup_then_find:
  assumes "repo_ok repo" "simple_name (inst_ID inst)" "fs_wf w"
    and "Conf_Load (DefaultConfigPath (RedisConf repo)) w = Ok c" "wf_conf c"
    and "wf_addition (inst_ID inst) (strconv_Itoa (inst_Port inst)) (inst_Password inst)
           (PidfileDirectory (RedisConf repo))"
    and "\<And>op q. prefix (data_comps repo @ [inst_ID inst]) q \<Longrightarrow> refuses w op q = None"
    and "inst_Host inst = sc_Host (RedisConf repo)" "in_int_range 64 (inst_Port inst)"
    and "Setup repo inst w = (Ok (), w')"
  shows "FindByID repo (inst_ID inst) w' = Ok inst \<and> InstanceExists repo (inst_ID inst) w' = Ok True \<and>
    is_dir_at w' (data_comps repo @ [inst_ID inst, ''db'']) \<and>
    is_file_at w' (data_comps repo @ [inst_ID inst, ''lock''])"
proof -
  let ?i = "inst_ID inst"
  have open_ok: "refuses w OpOpen (data_comps repo @ [?i, ''redis.conf'']) = None"
    and stat_ok: "refuses w OpStat (data_comps repo @ [?i]) = None"
    by (rule assms(7), simp)+
  note made = Setup_Ok [OF assms(1-6) open_ok assms(10)]
  have "keeps_local repo ?i w w'" using Setup_local [OF assms(1,2), of w] assms(10) by simp
  note kept = keeps_localD [OF this assms(3)]
  have "refuses w' OpStat (data_comps repo @ [?i]) = None"
    using fs_frame_env [OF kept(2)] stat_ok by (simp add: same_env_def)
  moreover have "node_at w' (data_comps repo @ [?i]) \<noteq> None"
    using made(4) by (auto simp: is_dir_at_alt)
  ultimately have "claims (InstanceExists repo ?i w')"
    using exists_claims_iff [OF assms(1,2) kept(1)] by blast
  with made Setup_found [OF assms(1-6) open_ok assms(10,8,9)] show ?thesis
    by (simp add: claims_def)
qed

definition example_repo :: local_repository where
  "example_repo = NewLocalRepository (zero_service_configuration
     \<lparr>sc_Host := ''10.0.0.7'', InstanceDataDirectory := ''/data'', InstanceLogDirectory := ''/log'',
      PidfileDirectory := ''/run'', DefaultConfigPath := ''/etc/redis.conf'',
      ServiceInstanceLimit := 2, SharedVMPlanID := ''p1'', StartRedisTimeoutSeconds := 1\<rparr>)"

definition example_disk :: world where
  "example_disk = machine
     [([''data''], DirNode (octal 7 5 5)), ([''log''], DirNode (octal 7 5 5)),
      ([''run''], DirNode (octal 7 5 5)), ([''etc''], DirNode (octal 7 5 5)),
      ([''etc'', ''redis.conf''], FileNode (octal 6 4 4) ''maxmemory 1'')]"

definition example_instance :: redis_instance where
  "example_instance =
     \<lparr>inst_ID = ''i1'', inst_Host = ''10.0.0.7'', inst_Port = 40001, inst_Password = ''pw''\<rparr>"

lemma example_repo_ok: "repo_ok example_repo"
  by code_simp

lemma example_disk_wf: "fs_wf example_disk"
  by code_simp

lemma example_disk_refuses [simp]: "refuses example_disk op q = None"
  by (simp add: example_disk_def)

theorem setup_then_find_witness:
  "FindByID example_repo ''i1'' (snd (Setup example_repo example_instance example_disk))
     = Ok example_instance"
proof -
  let ?run = "Setup example_repo example_instance example_disk"
  have id: "inst_ID example_instance = ''i1''" by (simp add: example_instance_def)
  have a: "simple_name (inst_ID example_instance)" by code_simp
  have c: "Conf_Load (DefaultConfigPath (RedisConf example_repo)) example_disk
       = Ok [\<lparr>Key = ''maxmemory'', Value = ''1''\<rparr>]"
    "wf_conf [\<lparr>Key = ''maxmemory'', Value = ''1''\<rparr>]"
    "wf_addition (inst_ID example_instance) (strconv_Itoa (inst_Port example_instance))
       (inst_Password example_instance) (PidfileDirectory (RedisConf example_repo))"
    by code_simp+
  have d: "inst_Host example_instance = sc_Host (RedisConf example_repo)"
    "in_int_range 64 (inst_Port example_instance)"
    by code_simp+
  have run: "?run = (Ok (), snd ?run)" by (rule eq_pair_fst) code_simp
  from setup_then_find [OF example_repo_ok a example_disk_wf c example_disk_refuses d run]
  show ?thesis by (simp add: id)
qed

text \<open>
  A successful \<open>Delete\<close> leaves nothing of the instance's data and log directories, at any
  depth, so that the instance is no longer found; it keeps the tree well-formed.
\<close>

theorem delete_removes_instance:
  assumes "repo_ok repo" "simple_name i" "fs_wf w" and "Delete repo i w = (Ok (), w')"
  shows "(\<forall>qs. node_at w' (data_comps repo @ i # qs) = None \<and> node_at w' (log_comps repo @ i # qs) = None) \<and>
    \<not> claims (InstanceExists repo i w') \<and> \<not> is_ok (FindByID repo i w') \<and> fs_wf w'"
proof -
  have wf: "fs_wf w'" using keeps_localD(1) [OF Delete_local [OF assms(1,2)] assms(3)] assms(4) by simp
  have gone: "node_at w' (data_comps repo @ i # qs) = None" "node_at w' (log_comps repo @ i # qs) = None"
    for qs
    by (rule Delete_Ok [OF assms], simp)+
  then have "\<not> claims (InstanceExists repo i w')"
    by (simp add: exists_claims_iff [OF assms(1,2) wf])
  moreover have "Conf_Load (InstanceConfigPath repo i) w' \<noteq> Ok c" for c
    using gone(1) [of "[''redis.conf'']"] assms(1,2)
    by (auto simp: Conf_Load_def res_bind_Ok_iff ReadFile_Ok_iff [OF wf] path_simps)
  then have "\<not> is_ok (FindByID repo i w')"
    by (auto simp: is_ok_iff FindByID_Ok_iff)
  ultimately show ?thesis using gone wf by blast
qed

theorem delete_removes_instance_witness:
  "\<not> claims (InstanceExists example_repo ''i1''
      (snd (Delete example_repo ''i1'' (snd (Setup example_repo example_instance example_disk)))))"
proof -
  let ?w = "snd (Setup example_repo example_instance example_disk)"
  have "simple_name ''i1''" "fs_wf ?w" by code_simp+
  moreover have "Delete example_repo ''i1'' ?w = (Ok (), snd (Delete example_repo ''i1'' ?w))"
    by (rule eq_pair_fst) code_simp
  ultimately show ?thesis using delete_removes_instance [OF example_repo_ok] by blast
qed

text \<open>
  C6. Instances are isolated: \<open>Setup\<close>, \<open>Lock\<close>, \<open>Unlock\<close> and \<open>Delete\<close> of one
  instance change no file and no directory of another one, so that it is found as before, and
  never break the tree.
\<close>

theorem instance_isolation:
  assumes "repo_ok repo" "simple_name (inst_ID inst)" "simple_name j" "j \<noteq> inst_ID inst" "fs_wf w"
    and "w' \<in> {snd (Setup repo inst w), snd (Lock repo inst w), snd (Unlock repo inst w),
               snd (Delete repo (inst_ID inst) w)}"
  shows "(\<forall>q \<in> instance_area repo j. node_at w' q = node_at w q) \<and>
    (\<forall>k. FindByID repo j w' = Ok k \<longleftrightarrow> FindByID repo j w = Ok k) \<and>
    claims (InstanceExists repo j w') = claims (InstanceExists repo j w) \<and> fs_wf w'"
proof -
  have keeps: "keeps_local repo (inst_ID inst) w w'"
    using assms(1,2,6) Setup_local Lock_local Unlock_local Delete_local by blast
  note kept = keeps_localD [OF keeps assms(5)]
  have "node_at w' q = node_at w q" if "q \<in> instance_area repo j" for q
    using fs_frame_node [OF kept(2) frames_apart [OF assms(1) that assms(4)]] .
  then show ?thesis
    using FindByID_other [OF assms(1,3,4,5) keeps] exists_other [OF assms(1,3,4,5) keeps] kept(1)
    by blast
qed

theorem instance_isolation_witness:
  "claims (InstanceExists example_repo ''i1''
     (snd (Delete example_repo ''i2'' (snd (Setup example_repo example_instance example_disk)))))"
proof -
  let ?w = "snd (Setup example_repo example_instance example_disk)"
    and ?j = "example_instance\<lparr>inst_ID := ''i2''\<rparr>"
  have a: "simple_name (inst_ID ?j)" "simple_name ''i1''" "''i1'' \<noteq> inst_ID ?j" "fs_wf ?w" by code_simp+
  have "snd (Delete example_repo (inst_ID ?j) ?w) \<in> {snd (Setup example_repo ?j ?w),
      snd (Lock example_repo ?j ?w), snd (Unlock example_repo ?j ?w),
      snd (Delete example_repo (inst_ID ?j) ?w)}" by blast
  note iso = instance_isolation [OF example_repo_ok a this]
  have "claims (InstanceExists example_repo ''i1'' ?w)" by code_simp
  with iso show ?thesis by (simp add: example_instance_def)
qed

text \<open>
  C21. \<open>AllInstances\<close> and \<open>AllInstancesVerbose\<close> go through the entries of the data directory in
  name order: each entry is either in the list of instances, as \<open>FindByID\<close> returns it, or in the
  list of errors. They change nothing but the log, and a count without errors is the number of
  entries.
\<close>

theorem all_instances_partition:
  assumes "repo_ok repo" "fs_wf w"
    and "ioutil_ReadDir (InstanceDataDirectory (RedisConf repo)) w = Ok names"
  shows "fst (AllInstances repo w) =
      (concat (map (\<lambda>n. ok_value (FindByID repo n w)) names),
       concat (map (\<lambda>n. err_value (FindByID repo n w)) names)) \<and>
    fst (AllInstancesVerbose repo w) = fst (AllInstances repo w) \<and>
    sorted names \<and> set names = dir_entries w (data_comps repo) \<and>
    only_logs w (snd (AllInstances repo w)) \<and> only_logs w (snd (AllInstancesVerbose repo w)) \<and>
    (\<forall>n w'. InstanceCount repo w = ((n, []), w') \<longrightarrow> n = int (card (dir_entries w (data_comps repo))))"
proof -
  have "names = sort (child_names w (data_comps repo))"
    using assms by (simp add: ReadDir_Ok_iff path_simps)
  then have "sorted names" "set names = dir_entries w (data_comps repo)"
    by (simp_all add: set_child_names)
  then show ?thesis
    using assms(3) InstanceCount_entries(1) [OF assms(1,2)] allInstances_world
    by (simp add: AllInstances_def AllInstancesVerbose_def allInstances_spec)
qed

theorem all_instances_partition_witness:
  "fst (AllInstances example_repo (snd (Setup example_repo example_instance example_disk)))
     = ([example_instance], [])"
proof -
  let ?w = "snd (Setup example_repo example_instance example_disk)"
  have "fs_wf ?w" by code_simp
  moreover have "ioutil_ReadDir (InstanceDataDirectory (RedisConf example_repo)) ?w = Ok [''i1'']"
    by code_simp
  ultimately have "fst (AllInstances example_repo ?w) =
      (concat (map (\<lambda>n. ok_value (FindByID example_repo n ?w)) [''i1'']),
       concat (map (\<lambda>n. err_value (FindByID example_repo n ?w)) [''i1'']))"
    using all_instances_partition [OF example_repo_ok] by blast
  moreover have "FindByID example_repo ''i1'' ?w = Ok example_instance" by code_simp
  ultimately show ?thesis by simp
qed

end
