(* ===== verification/Process_Controller.thy ===== *)
theory Process_Controller
  imports Local_Repository
begin

text \<open>
  Starting, checking and killing the Redis processes: \<open>src/process/process.go\<close>,
  \<open>src/availability/ports.go\<close>, \<open>src/redis/process_controller.go\<close> and
  \<open>src/system/free_tcp_port.go\<close>.

  The network, the clock and the \<open>redis-server\<close> executable are parameters: \<open>dial\<close> tries a
  connection, \<open>sleep\<close> lets time pass, and \<open>Exec_run\<close> runs a command to its end. Each of them
  may change the machine. A \<open>time.Duration\<close> is a signed 64-bit word, so that the arithmetic of
  the polling loop wraps as it does in Go.
\<close>

section \<open>Processes\<close>

text \<open>
  A process that can be signalled is in \<open>procs\<close>; \<open>os.FindProcess\<close> succeeds for every number on
  Unix. The numbers 0 and -1 are refused by \<open>os.Process\<close> itself.
\<close>

definition os_Signal0 :: "int \<Rightarrow> world \<Rightarrow> unit res" where
  "os_Signal0 pid w =
     (if pid = - 1 then Err (ErrorString ''os: process already released'')
      else if pid = 0 then Err (ErrorString ''os: process not initialized'')
      else if pid \<notin> set (procs w) then Err (ErrorString ''os: process already finished'')
      else if kill_refused w pid then Err (PathError (Refused EPERM))
      else Ok ())"

definition os_Kill :: "int \<Rightarrow> world \<Rightarrow> unit res \<times> world" where
  "os_Kill pid w =
     (case os_Signal0 pid w of
        Ok _ \<Rightarrow> (Ok (), w\<lparr>procs := filter (\<lambda>p. p \<noteq> pid) (procs w)\<rparr>)
      | Err e \<Rightarrow> (Err e, w)
      | Panic m \<Rightarrow> (Panic m, w))"

definition ReadPID :: "string \<Rightarrow> world \<Rightarrow> int res" where
  "ReadPID pidFilePath w =
     res_bind (ioutil_ReadFile pidFilePath w) (\<lambda>contents. strconv_Atoi (strings_TrimSpace contents))"

definition Alive :: "int \<Rightarrow> world \<Rightarrow> bool" where
  "Alive pid w =
     (case os_Signal0 pid w of
        Ok _ \<Rightarrow> True
      | _ \<Rightarrow> False)"

text \<open>The error of \<open>Wait\<close> after a successful \<open>Kill\<close> is ignored.\<close>

definition Process_Kill :: "int \<Rightarrow> world \<Rightarrow> unit res \<times> world" where
  "Process_Kill pid w = io_bind (os_Kill pid w) (\<lambda>_ w. (Ok (), w))"

definition KillProvidedPID :: "(world \<Rightarrow> int res) \<Rightarrow> world \<Rightarrow> unit res \<times> world" where
  "KillProvidedPID pidProvider w =
     (case pidProvider w of
        Ok pid \<Rightarrow> Process_Kill pid w
      | Err e \<Rightarrow> (Err e, w)
      | Panic m \<Rightarrow> (Panic m, w))"

section \<open>Waiting for a port\<close>

type_synonym duration = "64 word"

definition millisecond :: duration where "millisecond = 1000000"
definition second :: duration where "second = 1000000000"

definition checkInterval :: duration where "checkInterval = millisecond * 10"

text \<open>
  \<open>Check\<close> and \<open>CheckTLS\<close> are the same loop around \<open>isListening\<close> and \<open>isListeningTLS\<close>; the
  probe is the parameter \<open>listening\<close>. The loop returns nothing when it does not end.
\<close>

partial_function (option) Check_loop ::
    "('w \<Rightarrow> bool \<times> 'w) \<Rightarrow> (duration \<Rightarrow> 'w \<Rightarrow> 'w) \<Rightarrow> duration \<Rightarrow> duration \<Rightarrow> 'w \<Rightarrow>
     (unit res \<times> 'w) option" where
  "Check_loop listening sleep timeout elapsed w =
     (if elapsed <s timeout then
        (case listening w of
           (up, w') \<Rightarrow>
             if up then Some (Ok (), w')
             else Check_loop listening sleep timeout (elapsed + checkInterval) (sleep checkInterval w'))
      else Some (Err (ErrorString ''timeout''), w))"

definition isListening :: "(tcp_addr \<Rightarrow> 'w \<Rightarrow> unit res \<times> 'w) \<Rightarrow> tcp_addr \<Rightarrow> 'w \<Rightarrow> bool \<times> 'w" where
  "isListening dialTCP address w = (let (r, w') = dialTCP address w in (is_ok r, w'))"

definition Check ::
    "(tcp_addr \<Rightarrow> 'w \<Rightarrow> unit res \<times> 'w) \<Rightarrow> (duration \<Rightarrow> 'w \<Rightarrow> 'w) \<Rightarrow> tcp_addr \<Rightarrow> duration \<Rightarrow> 'w \<Rightarrow>
     (unit res \<times> 'w) option" where
  "Check dialTCP sleep address timeout w =
     Check_loop (isListening dialTCP address) sleep timeout 0 w"

text \<open>\<open>TCPAddr.String\<close> for an address without a zone: IPv6 hosts are bracketed.\<close>

definition addr_String :: "tcp_addr \<Rightarrow> string" where
  "addr_String a =
     (if CHR '':'' \<in> set (addr_IP a) then ''['' @ addr_IP a @ '']:'' @ strconv_Itoa (addr_Port a)
      else addr_IP a @ '':'' @ strconv_Itoa (addr_Port a))"

definition isListeningTLS :: "(string \<Rightarrow> 'w \<Rightarrow> unit res \<times> 'w) \<Rightarrow> tcp_addr \<Rightarrow> 'w \<Rightarrow> bool \<times> 'w" where
  "isListeningTLS dialTLS address w = (let (r, w') = dialTLS (addr_String address) w in (is_ok r, w'))"

definition CheckTLS ::
    "(string \<Rightarrow> 'w \<Rightarrow> unit res \<times> 'w) \<Rightarrow> (duration \<Rightarrow> 'w \<Rightarrow> 'w) \<Rightarrow> tcp_addr \<Rightarrow> duration \<Rightarrow> 'w \<Rightarrow>
     (unit res \<times> 'w) option" where
  "CheckTLS dialTLS sleep address timeout w =
     Check_loop (isListeningTLS dialTLS address) sleep timeout 0 w"

declare Check_loop.simps [code]

text \<open>The machine after \<open>k\<close> unsuccessful rounds, and what the loop should return.\<close>

primrec after_rounds :: "('w \<Rightarrow> bool \<times> 'w) \<Rightarrow> (duration \<Rightarrow> 'w \<Rightarrow> 'w) \<Rightarrow> nat \<Rightarrow> 'w \<Rightarrow> 'w" where
  "after_rounds listening sleep 0 w = w"
| "after_rounds listening sleep (Suc k) w =
     after_rounds listening sleep k (sleep checkInterval (snd (listening w)))"

primrec poll :: "('w \<Rightarrow> bool \<times> 'w) \<Rightarrow> (duration \<Rightarrow> 'w \<Rightarrow> 'w) \<Rightarrow> nat \<Rightarrow> 'w \<Rightarrow> unit res \<times> 'w" where
  "poll listening sleep 0 w = (Err (ErrorString ''timeout''), w)"
| "poll listening sleep (Suc n) w =
     (if fst (listening w) then (Ok (), snd (listening w))
      else poll listening sleep n (sleep checkInterval (snd (listening w))))"

definition rounds :: "duration \<Rightarrow> nat" where
  "rounds t = nat ((sint t + 9999999) div 10000000)"

lemma sint_checkInterval [simp]: "sint checkInterval = 10000000"
  by (simp add: checkInterval_def millisecond_def)

lemma sint_add_small:
  assumes "0 \<le> sint (e :: duration)" "sint e + 10000000 < 2 ^ 63"
  shows "sint (e + checkInterval) = sint e + 10000000"
  using assms by (simp add: sint_word_ariths signed_take_bit_int_eq_self)

lemma Check_loop_poll:
  assumes "0 \<le> sint e" "sint timeout + 10000000 < 2 ^ 63"
    and "n = nat ((sint timeout - sint e + 9999999) div 10000000)"
  shows "Check_loop listening sleep timeout e w = Some (poll listening sleep n w)"
  using assms
proof (induction n arbitrary: e w)
  case 0
  then have "\<not> e <s timeout" by (auto simp: word_sless_alt)
  then show ?case by (subst Check_loop.simps) simp
next
  case (Suc n)
  then have less: "e <s timeout" by (simp add: word_sless_alt)
  then have step: "sint (e + checkInterval) = sint e + 10000000"
    using Suc.prems(1,2) by (intro sint_add_small) (auto simp: word_sless_alt)
  have "n = nat ((sint timeout - sint (e + checkInterval) + 9999999) div 10000000)"
    using Suc.prems(3) step by simp
  then have "Check_loop listening sleep timeout (e + checkInterval) v = Some (poll listening sleep n v)" for v
    using Suc.IH [of "e + checkInterval"] Suc.prems(1,2) step by simp
  with less show ?case
    by (subst Check_loop.simps) (simp split: prod.split)
qed

section \<open>The process controller\<close>

text \<open>
  \<open>OSProcessController\<close> with the interfaces and functions it holds as fields. \<open>Exec_run\<close> is
  \<open>Exec.Command(name, args).Run()\<close>.
\<close>

record os_process_controller =
  InstanceInformer :: "string \<Rightarrow> world \<Rightarrow> int res"
  ProcessChecker :: "int \<Rightarrow> world \<Rightarrow> bool"
  ProcessKiller :: "int \<Rightarrow> world \<Rightarrow> unit res \<times> world"
  PingFunc :: "redis_instance \<Rightarrow> world \<Rightarrow> unit res \<times> world"
  WaitUntilConnectableFunc :: "tcp_addr \<Rightarrow> duration \<Rightarrow> world \<Rightarrow> unit res \<times> world"
  RedisServerExecutablePath :: string
  Exec_run :: "string \<Rightarrow> string list \<Rightarrow> world \<Rightarrow> unit res \<times> world"

definition NewOSProcessController ::
    "(string \<Rightarrow> world \<Rightarrow> int res) \<Rightarrow> (int \<Rightarrow> world \<Rightarrow> bool) \<Rightarrow> (int \<Rightarrow> world \<Rightarrow> unit res \<times> world) \<Rightarrow>
     (redis_instance \<Rightarrow> world \<Rightarrow> unit res \<times> world) \<Rightarrow>
     (tcp_addr \<Rightarrow> duration \<Rightarrow> world \<Rightarrow> unit res \<times> world) \<Rightarrow> string \<Rightarrow>
     (string \<Rightarrow> string list \<Rightarrow> world \<Rightarrow> unit res \<times> world) \<Rightarrow> os_process_controller" where
  "NewOSProcessController informer checker killer ping wait executable exec =
     \<lparr>InstanceInformer = informer, ProcessChecker = checker, ProcessKiller = killer,
      PingFunc = ping, WaitUntilConnectableFunc = wait, RedisServerExecutablePath = executable,
      Exec_run = exec\<rparr>"

definition redisStartTimeout :: duration where "redisStartTimeout = 10 * second"

definition StartAndWaitUntilReadyWithConfig ::
    "os_process_controller \<Rightarrow> redis_instance \<Rightarrow> string list \<Rightarrow> duration \<Rightarrow> world \<Rightarrow> unit res \<times> world" where
  "StartAndWaitUntilReadyWithConfig ctl inst args timeout w =
     (let executable = (if RedisServerExecutablePath ctl \<noteq> '''' then RedisServerExecutablePath ctl
                        else ''redis-server'')
      in case Exec_run ctl executable args w of
           (Ok _, w') \<Rightarrow> WaitUntilConnectableFunc ctl (Address inst) timeout w'
         | (Err e, w') \<Rightarrow> (Err (Errorf ''redis failed to start: '' e), w')
         | (Panic m, w') \<Rightarrow> (Panic m, w'))"

definition StartAndWaitUntilReady ::
    "os_process_controller \<Rightarrow> redis_instance \<Rightarrow> string \<Rightarrow> string \<Rightarrow> string \<Rightarrow> duration \<Rightarrow> world \<Rightarrow>
     unit res \<times> world" where
  "StartAndWaitUntilReady ctl inst configPath instanceDataDir logfilePath timeout w =
     StartAndWaitUntilReadyWithConfig ctl inst
       [configPath, ''--dir'', instanceDataDir, ''--logfile'', logfilePath] timeout w"

definition Kill :: "os_process_controller \<Rightarrow> redis_instance \<Rightarrow> world \<Rightarrow> unit res \<times> world" where
  "Kill ctl inst w =
     (case InstanceInformer ctl (inst_ID inst) w of
        Ok pid \<Rightarrow> ProcessKiller ctl pid w
      | Err e \<Rightarrow> (Err e, Logger_Error ''redis instance has no pidfile'' e
                         [(''instance'', inst_ID inst)] w)
      | Panic m \<Rightarrow> (Panic m, w))"

text \<open>
  The two log calls of the stale branch are given the variable \<open>err\<close>, which is nil there: the
  log entries carry no error, neither the one of the ping nor the one of the removal.
\<close>

definition restart_stale ::
    "os_process_controller \<Rightarrow> redis_instance \<Rightarrow> string \<Rightarrow> string \<Rightarrow> string \<Rightarrow> string \<Rightarrow> world \<Rightarrow>
     unit res \<times> world" where
  "restart_stale ctl inst configPath instanceDataDir pidfilePath logfilePath w =
     (let d = [(''instance'', inst_ID inst)];
          w1 = log_write ERROR ''failed to PING redis-server'' None d w
      in case os_Remove pidfilePath w1 of
           (Ok _, w2) \<Rightarrow>
             StartAndWaitUntilReady ctl inst configPath instanceDataDir logfilePath redisStartTimeout
               (Logger_Info ''removed stale pidfile'' d w2)
         | (Err e, w2) \<Rightarrow> (Err e, log_write ERROR ''failed to delete stale pidfile'' None d w2)
         | (Panic m, w2) \<Rightarrow> (Panic m, w2))"

definition start_missing ::
    "os_process_controller \<Rightarrow> redis_instance \<Rightarrow> string \<Rightarrow> string \<Rightarrow> string \<Rightarrow> world \<Rightarrow> unit res \<times> world" where
  "start_missing ctl inst configPath instanceDataDir logfilePath w =
     StartAndWaitUntilReady ctl inst configPath instanceDataDir logfilePath redisStartTimeout
       (Logger_Info ''redis instance is not running'' [(''instance'', inst_ID inst)] w)"

definition EnsureRunning ::
    "os_process_controller \<Rightarrow> redis_instance \<Rightarrow> string \<Rightarrow> string \<Rightarrow> string \<Rightarrow> string \<Rightarrow> world \<Rightarrow>
     unit res \<times> world" where
  "EnsureRunning ctl inst configPath instanceDataDir pidfilePath logfilePath w =
     (case InstanceInformer ctl (inst_ID inst) w of
        Ok pid \<Rightarrow>
          if ProcessChecker ctl pid w then
            (case PingFunc ctl inst w of
               (Ok _, w1) \<Rightarrow>
                 (Ok (), Logger_Info ''redis instance already running'' [(''instance'', inst_ID inst)] w1)
             | (Err _, w1) \<Rightarrow>
                 restart_stale ctl inst configPath instanceDataDir pidfilePath logfilePath w1
             | (Panic m, w1) \<Rightarrow> (Panic m, w1))
          else start_missing ctl inst configPath instanceDataDir logfilePath w
      | Err e \<Rightarrow>
          start_missing ctl inst configPath instanceDataDir logfilePath
            (Logger_Error ''redis instance has no pidfile'' e [(''instance'', inst_ID inst)] w)
      | Panic m \<Rightarrow> (Panic m, w))"

text \<open>The regular expression finds the digits at the end of the name.\<close>

definition getRedisPort :: "string \<Rightarrow> int res" where
  "getRedisPort name =
     (let portStr = rev (takeWhile is_digit (rev name)) in
      if portStr = '''' then Err (ErrorString ''failed to get port'') else strconv_Atoi portStr)"

section \<open>Free ports\<close>

text \<open>
  \<open>net.Listen\<close> is a parameter that returns the text of the listener's address, or nothing when
  it fails. The code ignores the error and calls a method of the nil listener.
\<close>

definition getPortFromAddr :: "string \<Rightarrow> int res" where
  "getPortFromAddr addr = strconv_ParseInt 32 (last (strings_Split (CHR '':'') addr))"

definition FindFreePort :: "('w \<Rightarrow> string option \<times> 'w) \<Rightarrow> 'w \<Rightarrow> int res \<times> 'w" where
  "FindFreePort listen w =
     (case listen w of
        (None, w') \<Rightarrow> (Panic ''nil pointer dereference'', w')
      | (Some addr, w') \<Rightarrow> (getPortFromAddr addr, w'))"

section \<open>Lemmas\<close>

lemma poll_Ok_iff:
  "fst (poll listening sleep n w) = Ok () \<longleftrightarrow>
     (\<exists>k < n. fst (listening (after_rounds listening sleep k w)))"
proof (induction n arbitrary: w)
  case (Suc n)
  show ?case
  proof (cases "fst (listening w)")
    case True
    then show ?thesis by (auto intro: exI [of _ 0])
  next
    case False
    have "(\<exists>k < Suc n. fst (listening (after_rounds listening sleep k w))) \<longleftrightarrow>
        (\<exists>k < n. fst (listening (after_rounds listening sleep k (sleep checkInterval (snd (listening w))))))"
      using False by (simp add: Ex_less_Suc2)
    with False Suc show ?thesis by simp
  qed
qed simp

lemma poll_err: "fst (poll listening sleep n w) \<noteq> Ok () \<Longrightarrow>
    poll listening sleep n w = (Err (ErrorString ''timeout''), after_rounds listening sleep n w)"
  by (induction n arbitrary: w) auto

lemma Check_poll:
  assumes "sint timeout + 10000000 < 2 ^ 63"
  shows "Check dialTCP sleep address timeout w =
    Some (poll (isListening dialTCP address) sleep (rounds timeout) w)"
  unfolding Check_def by (rule Check_loop_poll) (use assms in \<open>simp_all add: rounds_def\<close>)

lemma os_Signal0_Ok: "os_Signal0 pid w = Ok () \<longleftrightarrow>
    pid \<noteq> - 1 \<and> pid \<noteq> 0 \<and> pid \<in> set (procs w) \<and> \<not> kill_refused w pid"
  by (simp add: os_Signal0_def)

lemma Process_Kill_Ok:
  assumes "Process_Kill pid w = (Ok (), w')"
  shows "Alive pid w" and "w' = w\<lparr>procs := filter (\<lambda>p. p \<noteq> pid) (procs w)\<rparr>"
  using assms
  by (auto simp: Process_Kill_def os_Kill_def Alive_def io_bind_Ok_iff split: res.splits)

lemma Process_Kill_err: "fst (Process_Kill pid w) \<noteq> Ok () \<Longrightarrow> snd (Process_Kill pid w) = w"
  by (auto simp: Process_Kill_def os_Kill_def split: res.splits)

lemma getPortFromAddr_port:
  assumes "in_int_range 32 p"
  shows "getPortFromAddr (h @ '':'' @ strconv_Itoa p) = Ok p"
proof -
  have "CHR '':'' \<notin> set (strconv_Itoa p)"
    using Itoa_chars [of "CHR '':''" p] by (auto simp: is_digit_def)
  then show ?thesis
    using assms by (simp add: getPortFromAddr_def ParseInt_Itoa)
qed

lemma getPortFromAddr_never_panics [simp]: "getPortFromAddr addr \<noteq> Panic m"
  by (simp add: getPortFromAddr_def ParseInt_never_panics)

text \<open>The controller as \<open>src/cmd/broker/main.go\<close> and \<open>src/cmd/processmonitor/main.go\<close> wire it.\<close>

definition os_controller ::
    "local_repository \<Rightarrow> (redis_instance \<Rightarrow> world \<Rightarrow> unit res \<times> world) \<Rightarrow>
     (tcp_addr \<Rightarrow> duration \<Rightarrow> world \<Rightarrow> unit res \<times> world) \<Rightarrow> string \<Rightarrow>
     (string \<Rightarrow> string list \<Rightarrow> world \<Rightarrow> unit res \<times> world) \<Rightarrow> os_process_controller" where
  "os_controller repo ping wait executable exec =
     NewOSProcessController (InstancePid repo) Alive Process_Kill ping wait executable exec"

lemma os_controller_simps [simp]:
  "InstanceInformer (os_controller repo ping wait x exec) = InstancePid repo"
  "ProcessChecker (os_controller repo ping wait x exec) = Alive"
  "ProcessKiller (os_controller repo ping wait x exec) = Process_Kill"
  "PingFunc (os_controller repo ping wait x exec) = ping"
  "WaitUntilConnectableFunc (os_controller repo ping wait x exec) = wait"
  "RedisServerExecutablePath (os_controller repo ping wait x exec) = x"
  "Exec_run (os_controller repo ping wait x exec) = exec"
  by (simp_all add: os_controller_def NewOSProcessController_def)

lemma InstancePid_never_panics [simp]: "InstancePid repo i w \<noteq> Panic m"
  by (cases "ioutil_ReadFile (InstancePidFilePath repo i) w")
    (simp_all add: InstancePid_def ParseInt_never_panics)

lemma InstancePid_log [simp]: "InstancePid repo i (log_write l a e d w) = InstancePid repo i w"
  by (simp add: InstancePid_def)

lemma Alive_log [simp]: "Alive pid (log_write l a e d w) = Alive pid w"
  by (simp add: Alive_def os_Signal0_def)

text \<open>An instance runs: its pid file names a live process, and it answers.\<close>

definition running :: "os_process_controller \<Rightarrow> redis_instance \<Rightarrow> world \<Rightarrow> bool" where
  "running ctl inst w \<longleftrightarrow>
     (\<exists>pid. InstanceInformer ctl (inst_ID inst) w = Ok pid \<and> ProcessChecker ctl pid w) \<and>
     fst (PingFunc ctl inst w) = Ok ()"

lemma EnsureRunning_runs:
  assumes ctl: "ctl = os_controller repo ping wait x exec"
    and ping: "\<And>w. snd (ping inst w) = w"
      "\<And>l a e d w. fst (ping inst (log_write l a e d w)) = fst (ping inst w)"
    and start: "\<And>w w'. StartAndWaitUntilReady ctl inst conf dir logf redisStartTimeout w = (Ok (), w')
      \<Longrightarrow> running ctl inst w'"
    and run: "EnsureRunning ctl inst conf dir pidf logf w = (Ok (), w')"
  shows "running ctl inst w'"
proof -
  have kept: "running ctl inst (log_write l a e d v) = running ctl inst v" for l a e d v
    by (simp add: running_def ctl ping)
  have missing: "running ctl inst w'" if "start_missing ctl inst conf dir logf v = (Ok (), w')" for v
    using that start by (simp add: start_missing_def)
  have stale: "running ctl inst w'" if "restart_stale ctl inst conf dir pidf logf v = (Ok (), w')" for v
    using that start by (auto simp: restart_stale_def Let_def split: prod.splits res.splits)
  show ?thesis
  proof (cases "InstancePid repo (inst_ID inst) w")
    case (Ok pid)
    show ?thesis
    proof (cases "Alive pid w \<and> fst (ping inst w) = Ok ()")
      case True
      then have "running ctl inst w" using Ok by (simp add: running_def ctl)
      moreover have "w' = Logger_Info ''redis instance already running'' [(''instance'', inst_ID inst)] w"
        using run True Ok ping(1) [of w] by (auto simp: EnsureRunning_def ctl split: prod.splits)
      ultimately show ?thesis by (simp add: kept)
    next
      case False
      with run Ok missing stale show ?thesis
        by (auto simp: EnsureRunning_def ctl split: prod.splits res.splits if_splits)
    qed
  qed (use run missing in \<open>auto simp: EnsureRunning_def ctl\<close>)
qed

section \<open>Properties\<close>

text \<open>
  C23. Polling ends: for every timeout below the last 10 ms of the 292 years a \<open>time.Duration\<close>
  holds, \<open>Check\<close> returns; it succeeds exactly when one of the first \<open>\<lceil>timeout / 10ms\<rceil>\<close> probes,
  one per sleep, finds the port open, and otherwise returns the timeout error after them all.
\<close>

theorem check_returns:
  assumes "sint timeout + 10000000 < 2 ^ 63"
  shows "\<exists>r w'. Check dialTCP sleep address timeout w = Some (r, w') \<and>
    (r = Ok () \<longleftrightarrow> (\<exists>k < rounds timeout. fst (isListening dialTCP address
        (after_rounds (isListening dialTCP address) sleep k w)))) \<and>
    (r \<noteq> Ok () \<longrightarrow> r = Err (ErrorString ''timeout'') \<and>
        w' = after_rounds (isListening dialTCP address) sleep (rounds timeout) w)"
proof -
  let ?p = "poll (isListening dialTCP address) sleep (rounds timeout) w"
  have "Check dialTCP sleep address timeout w = Some (fst ?p, snd ?p)"
    by (simp add: Check_poll [OF assms])
  moreover have "fst ?p \<noteq> Ok () \<longrightarrow> fst ?p = Err (ErrorString ''timeout'') \<and>
      snd ?p = after_rounds (isListening dialTCP address) sleep (rounds timeout) w"
    using poll_err [of "isListening dialTCP address"] by (metis fst_conv snd_conv)
  ultimately show ?thesis
    using poll_Ok_iff [of "isListening dialTCP address" sleep "rounds timeout" w] by blast
qed

text \<open>A clock as the machine: the port opens after two sleeps.\<close>

theorem check_returns_witness:
  "\<exists>w'. Check (\<lambda>a t. (if 2 \<le> t then Ok () else Err (ErrorString ''refused''), t))
     (\<lambda>d t. t + 1) \<lparr>addr_IP = ''127.0.0.1'', addr_Port = 6379\<rparr> (millisecond * 30) (0 :: nat)
     = Some (Ok (), w')"
proof -
  let ?dial = "\<lambda>a t. (if 2 \<le> t then Ok () else Err (ErrorString ''refused''), t)"
    and ?addr = "\<lparr>addr_IP = ''127.0.0.1'', addr_Port = 6379\<rparr>"
  have t: "sint (millisecond * 30) + 10000000 < 2 ^ 63" by (simp add: millisecond_def)
  have "rounds (millisecond * 30) = 3" by (simp add: rounds_def millisecond_def)
  moreover have "fst (isListening ?dial ?addr (after_rounds (isListening ?dial ?addr) (\<lambda>d t. t + 1) 2 (0 :: nat)))"
    by (simp add: isListening_def numeral_2_eq_2)
  ultimately have "\<exists>k < rounds (millisecond * 30).
      fst (isListening ?dial ?addr (after_rounds (isListening ?dial ?addr) (\<lambda>d t. t + 1) k (0 :: nat)))"
    by (intro exI [of _ 2]) simp
  with check_returns [OF t, of ?dial "\<lambda>d t. t + 1" ?addr "0 :: nat"] show ?thesis by blast
qed

text \<open>
  C24. \<open>Kill\<close> succeeds exactly when the pid file can be read and names a live process that may be
  signalled; then that process, and no other one, is gone. It never touches a file.
\<close>

theorem kill_exactly_the_instance:
  "(fst (Kill (os_controller repo ping wait x exec) inst w) = Ok () \<longleftrightarrow>
      (\<exists>pid. InstancePid repo (inst_ID inst) w = Ok pid \<and> Alive pid w)) \<and>
   set (procs (snd (Kill (os_controller repo ping wait x exec) inst w))) =
      {p \<in> set (procs w). \<not> (InstancePid repo (inst_ID inst) w = Ok p \<and> Alive p w)} \<and>
   nodes (snd (Kill (os_controller repo ping wait x exec) inst w)) = nodes w"
proof (cases "InstancePid repo (inst_ID inst) w")
  case (Ok pid)
  then show ?thesis
    by (cases "os_Signal0 pid w") (auto simp: Kill_def Process_Kill_def os_Kill_def Alive_def)
qed (simp_all add: Kill_def)


text \<open>
  A \<open>redis-server\<close> that becomes process 4711, writes its pid file, and reports failure unless
  that file can be read back.
\<close>

definition example_server :: "string \<Rightarrow> string list \<Rightarrow> world \<Rightarrow> unit res \<times> world" where
  "example_server name args w =
     (let w1 = snd (ioutil_WriteFile (InstancePidFilePath example_repo ''i1'') ''4711'' (octal 6 4 4) w);
          w2 = w1\<lparr>procs := 4711 # procs w1\<rparr>
      in if InstancePid example_repo ''i1'' w2 = Ok 4711 \<and> Alive 4711 w2 then (Ok (), w2)
         else (Err (ErrorString ''exit status 1''), w2))"

definition example_controller :: os_process_controller where
  "example_controller = os_controller example_repo (\<lambda>_ w. (Ok (), w)) (\<lambda>_ _ w. (Ok (), w)) ''''
     example_server"


text \<open>
  \<open>FindFreePort\<close> returns the port of the listener, whatever the host part of its address is,
  IPv6 included. It panics exactly when the system refuses to listen, whose error it ignores.
\<close>

theorem free_port_spec:
  "(case listen w of
      (Some addr, w') \<Rightarrow>
        (\<forall>h p. addr = h @ '':'' @ strconv_Itoa p \<and> 0 \<le> p \<and> p < 65536 \<longrightarrow>
           FindFreePort listen w = (Ok p, w'))
    | (None, w') \<Rightarrow> True) \<and>
   ((\<exists>m. fst (FindFreePort listen w) = Panic m) \<longleftrightarrow> fst (listen w) = None)"
  by (auto simp: FindFreePort_def getPortFromAddr_port in_int_range_def
      simp del: append.simps split: prod.splits option.splits)

theorem free_port_spec_witness:
  "FindFreePort (\<lambda>w. (Some ''[::]:40001'', w)) () = (Ok 40001, ())"
proof -
  have "''[::]:40001'' = ''[::]'' @ '':'' @ strconv_Itoa 40001" by code_simp
  with free_port_spec [of "\<lambda>w. (Some ''[::]:40001'', w)" "()"] show ?thesis
    by (auto simp del: append.simps)
qed
end
