(* ===== verification/Instance_Creator.thy ===== *)
theory Instance_Creator
  imports Process_Controller
begin

text \<open>
  \<open>src/redis/local_instance_creator.go\<close>: creating and destroying the instances of the shared
  plan. The Go struct holds two interfaces and a function; they are records of functions here,
  over any state. The laws the creator relies on are the locale \<open>hosted_repository\<close>; in it the
  creator is shown to be a host of the service broker (the locale \<open>instance_host\<close>) that never
  exceeds the instance limit.
\<close>

section \<open>The code\<close>

record 'w local_instance_repository =
  rp_FindByID :: "string \<Rightarrow> 'w \<Rightarrow> redis_instance res"
  rp_InstanceExists :: "string \<Rightarrow> 'w \<Rightarrow> bool res"
  rp_Setup :: "redis_instance \<Rightarrow> 'w \<Rightarrow> unit res \<times> 'w"
  rp_Delete :: "string \<Rightarrow> 'w \<Rightarrow> unit res \<times> 'w"
  rp_InstanceDataDir :: "string \<Rightarrow> string"
  rp_InstanceConfigPath :: "string \<Rightarrow> string"
  rp_InstanceLogFilePath :: "string \<Rightarrow> string"
  rp_InstancePidFilePath :: "string \<Rightarrow> string"
  rp_InstanceCount :: "'w \<Rightarrow> (int \<times> gerror list) \<times> 'w"
  rp_Lock :: "redis_instance \<Rightarrow> 'w \<Rightarrow> unit res \<times> 'w"
  rp_Unlock :: "redis_instance \<Rightarrow> 'w \<Rightarrow> unit res \<times> 'w"

record 'w process_controller =
  pc_StartAndWaitUntilReady ::
    "redis_instance \<Rightarrow> string \<Rightarrow> string \<Rightarrow> string \<Rightarrow> duration \<Rightarrow> 'w \<Rightarrow> unit res \<times> 'w"
  pc_Kill :: "redis_instance \<Rightarrow> 'w \<Rightarrow> unit res \<times> 'w"

text \<open>\<open>uuid.NewRandom().String()\<close> is the field \<open>lic_NewUUID\<close>.\<close>

record 'w local_instance_creator =
  lic_Repository :: "'w local_instance_repository"
  lic_FindFreePort :: "'w \<Rightarrow> int res \<times> 'w"
  lic_ProcessController :: "'w process_controller"
  lic_RedisConfiguration :: service_configuration
  lic_NewUUID :: "'w \<Rightarrow> string \<times> 'w"

text \<open>\<open>time.Duration(seconds) * time.Second\<close> wraps in 64 bits.\<close>

definition startLocalInstance ::
    "'w local_instance_creator \<Rightarrow> redis_instance \<Rightarrow> 'w \<Rightarrow> unit res \<times> 'w" where
  "startLocalInstance lic inst w =
     (let configPath = rp_InstanceConfigPath (lic_Repository lic) (inst_ID inst);
          instanceDataDir = rp_InstanceDataDir (lic_Repository lic) (inst_ID inst);
          logfilePath = rp_InstanceLogFilePath (lic_Repository lic) (inst_ID inst);
          timeout = of_int (StartRedisTimeoutSeconds (lic_RedisConfiguration lic)) * second
      in pc_StartAndWaitUntilReady (lic_ProcessController lic) inst configPath instanceDataDir
           logfilePath timeout w)"

text \<open>The part of \<open>Create\<close> after the instance has been chosen.\<close>

definition install :: "'w local_instance_creator \<Rightarrow> redis_instance \<Rightarrow> 'w \<Rightarrow> unit res \<times> 'w" where
  "install lic inst w =
     io_bind (rp_Setup (lic_Repository lic) inst w) (\<lambda>_ w.
     io_bind (startLocalInstance lic inst w) (\<lambda>_ w.
     io_bind (rp_Unlock (lic_Repository lic) inst w) (\<lambda>_ w.
       (Ok (), w))))"

text \<open>The part of \<open>Create\<close> after the count: choose a port and a password, then install.\<close>

definition makeInstance :: "'w local_instance_creator \<Rightarrow> string \<Rightarrow> 'w \<Rightarrow> unit res \<times> 'w" where
  "makeInstance lic instanceID w =
     io_bind (lic_FindFreePort lic w) (\<lambda>port w.
       (let (uuid, w) = lic_NewUUID lic w in
        install lic
          \<lparr>inst_ID = instanceID, inst_Host = sc_Host (lic_RedisConfiguration lic),
           inst_Port = port, inst_Password = uuid\<rparr> w))"

definition Create :: "'w local_instance_creator \<Rightarrow> string \<Rightarrow> 'w \<Rightarrow> unit res \<times> 'w" where
  "Create lic instanceID w =
     (let ((instanceCount, errs), w) = rp_InstanceCount (lic_Repository lic) w in
      if errs \<noteq> [] then
        (Err (ErrorString
           ''Failed to determine current instance count, view broker logs for details''), w)
      else if instanceCount \<ge> ServiceInstanceLimit (lic_RedisConfiguration lic) then
        (Err ErrInstanceLimitMet, w)
      else makeInstance lic instanceID w)"

definition Destroy :: "'w local_instance_creator \<Rightarrow> string \<Rightarrow> 'w \<Rightarrow> unit res \<times> 'w" where
  "Destroy lic instanceID w =
     (case rp_FindByID (lic_Repository lic) instanceID w of
        Err e \<Rightarrow> (Err e, w)
      | Panic m \<Rightarrow> (Panic m, w)
      | Ok inst \<Rightarrow>
          io_bind (rp_Lock (lic_Repository lic) inst w) (\<lambda>_ w.
          io_bind (pc_Kill (lic_ProcessController lic) inst w) (\<lambda>_ w.
            rp_Delete (lic_Repository lic) instanceID w)))"

lemma makeInstance_Ok:
  assumes "makeInstance lic i w = (Ok (), w')"
  obtains port w1 u w2 where "lic_FindFreePort lic w = (Ok port, w1)" "lic_NewUUID lic w1 = (u, w2)"
    "install lic \<lparr>inst_ID = i, inst_Host = sc_Host (lic_RedisConfiguration lic),
       inst_Port = port, inst_Password = u\<rparr> w2 = (Ok (), w')"
proof -
  obtain port w1 where "lic_FindFreePort lic w = (Ok port, w1)"
    and rest: "(let (uuid, w) = lic_NewUUID lic w1 in
        install lic
          \<lparr>inst_ID = i, inst_Host = sc_Host (lic_RedisConfiguration lic),
           inst_Port = port, inst_Password = uuid\<rparr> w) = (Ok (), w')"
    using assms by (auto simp: makeInstance_def io_bind_Ok_iff)
  then show thesis by (cases "lic_NewUUID lic w1") (auto intro: that)
qed

lemma install_Ok:
  assumes "install lic inst w = (Ok (), w')"
  obtains w1 w2 where "rp_Setup (lic_Repository lic) inst w = (Ok (), w1)"
    "startLocalInstance lic inst w1 = (Ok (), w2)" "rp_Unlock (lic_Repository lic) inst w2 = (Ok (), w')"
  using assms by (auto simp: install_def io_bind_Ok_iff)

lemma Destroy_Ok:
  assumes "Destroy lic i w = (Ok (), w')"
  obtains inst w1 w2 where "rp_FindByID (lic_Repository lic) i w = Ok inst"
    "rp_Lock (lic_Repository lic) inst w = (Ok (), w1)"
    "pc_Kill (lic_ProcessController lic) inst w1 = (Ok (), w2)"
    "rp_Delete (lic_Repository lic) i w2 = (Ok (), w')"
  using assms by (auto simp: Destroy_def io_bind_Ok_iff split: res.splits)

lemma Create_cases:
  obtains (refused) e where "Create lic i w = (Err e, snd (rp_InstanceCount (lic_Repository lic) w))"
  | (made) n w1 where "rp_InstanceCount (lic_Repository lic) w = ((n, []), w1)"
      "n < ServiceInstanceLimit (lic_RedisConfiguration lic)" "Create lic i w = makeInstance lic i w1"
proof -
  obtain n errs w1 where count: "rp_InstanceCount (lic_Repository lic) w = ((n, errs), w1)"
    by (metis prod.collapse)
  consider "errs \<noteq> []" | "errs = []" "n \<ge> ServiceInstanceLimit (lic_RedisConfiguration lic)"
    | "errs = []" "n < ServiceInstanceLimit (lic_RedisConfiguration lic)"
    by fastforce
  then show thesis
    by cases (use count in \<open>auto simp: Create_def intro: refused made\<close>)
qed

section \<open>The contract of a repository with its controller\<close>

text \<open>
  \<open>touches i\<close> relates two states that differ only in what belongs to instance \<open>i\<close>, and
  \<open>entries\<close> are the instances a count sees.
\<close>

locale hosted_repository =
  fixes lic :: "'w local_instance_creator"
    and inv :: "'w \<Rightarrow> bool"
    and valid_id :: "string \<Rightarrow> bool"
    and touches :: "string \<Rightarrow> 'w \<Rightarrow> 'w \<Rightarrow> bool"
    and entries :: "'w \<Rightarrow> string set"
  assumes touches_refl: "touches i w w"
    and touches_trans: "touches i w w' \<Longrightarrow> touches i w' w'' \<Longrightarrow> touches i w w''"
    and touches_inv: "inv w \<Longrightarrow> valid_id i \<Longrightarrow> touches i w w' \<Longrightarrow> inv w'"
    and touches_other: "inv w \<Longrightarrow> valid_id i \<Longrightarrow> valid_id j \<Longrightarrow> j \<noteq> i \<Longrightarrow> touches i w w' \<Longrightarrow>
      claims (rp_InstanceExists (lic_Repository lic) j w') =
      claims (rp_InstanceExists (lic_Repository lic) j w)"
    and touches_entries: "inv w \<Longrightarrow> touches i w w' \<Longrightarrow> entries w' - {i} = entries w - {i}"
    and finite_entries: "finite (entries w)"
    and exists_entry: "inv w \<Longrightarrow> valid_id i \<Longrightarrow>
      claims (rp_InstanceExists (lic_Repository lic) i w) \<Longrightarrow> i \<in> entries w"
    and found_id: "rp_FindByID (lic_Repository lic) i w = Ok inst \<Longrightarrow> inst_ID inst = i"
    and count_touches: "inv w \<Longrightarrow> touches i w (snd (rp_InstanceCount (lic_Repository lic) w))"
    and count_entries: "inv w \<Longrightarrow> rp_InstanceCount (lic_Repository lic) w = ((n, errs), w') \<Longrightarrow>
      entries w' = entries w \<and> (errs = [] \<longrightarrow> n = int (card (entries w)))"
    and port_touches: "inv w \<Longrightarrow> touches i w (snd (lic_FindFreePort lic w))"
    and uuid_touches: "inv w \<Longrightarrow> touches i w (snd (lic_NewUUID lic w))"
    and setup_touches: "inv w \<Longrightarrow> valid_id (inst_ID inst) \<Longrightarrow>
      touches (inst_ID inst) w (snd (rp_Setup (lic_Repository lic) inst w))"
    and start_touches: "inv w \<Longrightarrow> valid_id (inst_ID inst) \<Longrightarrow>
      touches (inst_ID inst) w (snd (startLocalInstance lic inst w))"
    and lock_touches: "inv w \<Longrightarrow> valid_id (inst_ID inst) \<Longrightarrow>
      touches (inst_ID inst) w (snd (rp_Lock (lic_Repository lic) inst w))"
    and unlock_touches: "inv w \<Longrightarrow> valid_id (inst_ID inst) \<Longrightarrow>
      touches (inst_ID inst) w (snd (rp_Unlock (lic_Repository lic) inst w))"
    and kill_touches: "inv w \<Longrightarrow> valid_id (inst_ID inst) \<Longrightarrow>
      touches (inst_ID inst) w (snd (pc_Kill (lic_ProcessController lic) inst w))"
    and delete_touches: "inv w \<Longrightarrow> valid_id i \<Longrightarrow>
      touches i w (snd (rp_Delete (lic_Repository lic) i w))"
    and setup_exists: "inv w \<Longrightarrow> valid_id (inst_ID inst) \<Longrightarrow>
      rp_Setup (lic_Repository lic) inst w = (Ok (), w') \<Longrightarrow>
      claims (rp_InstanceExists (lic_Repository lic) (inst_ID inst) w')"
    and start_exists: "inv w \<Longrightarrow> valid_id (inst_ID inst) \<Longrightarrow>
      startLocalInstance lic inst w = (Ok (), w') \<Longrightarrow>
      claims (rp_InstanceExists (lic_Repository lic) (inst_ID inst) w) \<Longrightarrow>
      claims (rp_InstanceExists (lic_Repository lic) (inst_ID inst) w')"
    and unlock_exists: "inv w \<Longrightarrow> valid_id (inst_ID inst) \<Longrightarrow>
      rp_Unlock (lic_Repository lic) inst w = (Ok (), w') \<Longrightarrow>
      claims (rp_InstanceExists (lic_Repository lic) (inst_ID inst) w) \<Longrightarrow>
      claims (rp_InstanceExists (lic_Repository lic) (inst_ID inst) w')"
    and delete_gone: "inv w \<Longrightarrow> valid_id i \<Longrightarrow>
      rp_Delete (lic_Repository lic) i w = (Ok (), w') \<Longrightarrow>
      \<not> claims (rp_InstanceExists (lic_Repository lic) i w')"
begin

lemma touches_io_bind:
  assumes "inv w" "valid_id i" "touches i w (snd p)"
    and "\<And>a w'. p = (Ok a, w') \<Longrightarrow> inv w' \<Longrightarrow> touches i w' (snd (f a w'))"
  shows "touches i w (snd (io_bind p f))"
proof (rule io_bind_state [of "touches i w"])
  fix a w'
  assume "p = (Ok a, w')" "touches i w w'"
  with assms touches_inv [OF assms(1,2)] show "touches i w (snd (f a w'))"
    by (blast intro: touches_trans)
qed (rule assms)

lemma install_touches:
  assumes "inv w" "valid_id (inst_ID inst)"
  shows "touches (inst_ID inst) w (snd (install lic inst w))"
  using assms unfolding install_def
  by (intro touches_io_bind setup_touches start_touches unlock_touches) (auto simp: touches_refl)

lemma install_exists:
  assumes "inv w" "valid_id (inst_ID inst)" "install lic inst w = (Ok (), w')"
  shows "claims (rp_InstanceExists (lic_Repository lic) (inst_ID inst) w')"
proof -
  obtain w1 w2 where w1: "rp_Setup (lic_Repository lic) inst w = (Ok (), w1)"
    and w2: "startLocalInstance lic inst w1 = (Ok (), w2)"
    and w': "rp_Unlock (lic_Repository lic) inst w2 = (Ok (), w')"
    using assms(3) by (rule install_Ok)
  have inv1: "inv w1" using setup_touches [OF assms(1,2)] w1 touches_inv [OF assms(1,2)] by force
  then have inv2: "inv w2" using start_touches [OF inv1 assms(2)] w2 touches_inv [OF inv1 assms(2)] by force
  show ?thesis
    using setup_exists [OF assms(1,2) w1] start_exists [OF inv1 assms(2) w2]
      unlock_exists [OF inv2 assms(2) w'] by blast
qed

lemma makeInstance_touches:
  assumes "inv w" "valid_id i"
  shows "touches i w (snd (makeInstance lic i w))"
proof -
  have "touches i v (snd (let (uuid, w) = lic_NewUUID lic v in
      install lic \<lparr>inst_ID = i, inst_Host = h, inst_Port = p, inst_Password = uuid\<rparr> w))"
    if v: "inv v" for v p h
  proof -
    obtain u v' where u: "lic_NewUUID lic v = (u, v')" by (metis prod.collapse)
    then have t: "touches i v v'" using uuid_touches [OF v, of i] by simp
    with touches_inv [OF v assms(2)] have "inv v'" by blast
    from install_touches [OF this, of "\<lparr>inst_ID = i, inst_Host = h, inst_Port = p, inst_Password = u\<rparr>"]
    show ?thesis using t u assms(2) touches_trans by (auto intro: touches_trans)
  qed
  then show ?thesis
    unfolding makeInstance_def using assms port_touches by (intro touches_io_bind) auto
qed

lemma Create_touches:
  assumes "inv w" "valid_id i"
  shows "touches i w (snd (Create lic i w))"
proof (cases rule: Create_cases [of lic i w])
  case (refused e)
  with count_touches [OF assms(1), of i] show ?thesis by simp
next
  case (made n w1)
  have c: "touches i w w1"
    using count_touches [OF assms(1), of i] made(1) by simp
  with made makeInstance_touches [OF touches_inv [OF assms c] assms(2)] show ?thesis
    by (auto intro: touches_trans)
qed

lemma Create_exists:
  assumes "inv w" "valid_id i" "Create lic i w = (Ok (), w')"
  shows "claims (rp_InstanceExists (lic_Repository lic) i w')"
proof (cases rule: Create_cases [of lic i w])
  case (refused e)
  with assms show ?thesis by simp
next
  case (made n w1)
  have inv1: "inv w1" using touches_inv [OF assms(1,2) count_touches [OF assms(1)]] made(1) by simp
  obtain port w2 u w3 where w2: "lic_FindFreePort lic w1 = (Ok port, w2)"
    and w3: "lic_NewUUID lic w2 = (u, w3)"
    and inst: "install lic \<lparr>inst_ID = i, inst_Host = sc_Host (lic_RedisConfiguration lic),
       inst_Port = port, inst_Password = u\<rparr> w3 = (Ok (), w')"
    using made(3) assms(3) makeInstance_Ok by metis
  have "inv w2" using touches_inv [OF inv1 assms(2) port_touches [OF inv1]] w2 by simp
  then have "inv w3" using touches_inv [OF _ assms(2) uuid_touches] w3 by (metis snd_conv)
  from install_exists [OF this _ inst] assms(2) show ?thesis by simp
qed

lemma Destroy_touches:
  assumes "inv w" "valid_id i"
  shows "touches i w (snd (Destroy lic i w))"
proof (cases "rp_FindByID (lic_Repository lic) i w")
  case (Ok inst)
  then have "inst_ID inst = i" by (rule found_id)
  then have "touches i w (snd (io_bind (rp_Lock (lic_Repository lic) inst w) (\<lambda>_ w.
      io_bind (pc_Kill (lic_ProcessController lic) inst w) (\<lambda>_ w. rp_Delete (lic_Repository lic) i w))))"
    using assms lock_touches [of _ inst] kill_touches [of _ inst] delete_touches
    by (intro touches_io_bind) auto
  with Ok show ?thesis by (simp add: Destroy_def)
qed (simp_all add: Destroy_def touches_refl)

lemma Destroy_gone:
  assumes "inv w" "valid_id i" "Destroy lic i w = (Ok (), w')"
  shows "\<not> claims (rp_InstanceExists (lic_Repository lic) i w')"
proof -
  obtain inst w1 w2 where inst: "rp_FindByID (lic_Repository lic) i w = Ok inst"
    and w1: "rp_Lock (lic_Repository lic) inst w = (Ok (), w1)"
    and w2: "pc_Kill (lic_ProcessController lic) inst w1 = (Ok (), w2)"
    and w': "rp_Delete (lic_Repository lic) i w2 = (Ok (), w')"
    using assms(3) by (rule Destroy_Ok)
  have id: "valid_id (inst_ID inst)" using found_id [OF inst] assms(2) by simp
  have "inv w1" using touches_inv [OF assms(1) id lock_touches [OF assms(1) id]] w1 by simp
  then have "inv w2" using touches_inv [OF _ id kill_touches [OF _ id]] w2 by (metis snd_conv)
  from delete_gone [OF this assms(2) w'] show ?thesis .
qed

end

sublocale hosted_repository < host: instance_host
  "rp_InstanceExists (lic_Repository lic)" "Create lic" "Destroy lic" inv valid_id
proof
  fix w i
  assume w: "inv w" "valid_id i"
  show "inv (snd (Create lic i w))" "inv (snd (Destroy lic i w))"
    using touches_inv [OF w] Create_touches [OF w] Destroy_touches [OF w] by blast+
  show "claims (rp_InstanceExists (lic_Repository lic) i w')" if "Create lic i w = (Ok (), w')" for w'
    using Create_exists [OF w that] .
  show "\<not> claims (rp_InstanceExists (lic_Repository lic) i w')" if "Destroy lic i w = (Ok (), w')" for w'
    using Destroy_gone [OF w that] .
  fix j
  assume j: "valid_id j" "j \<noteq> i"
  show "claims (rp_InstanceExists (lic_Repository lic) j (snd (Create lic i w))) =
      claims (rp_InstanceExists (lic_Repository lic) j w)"
    using touches_other [OF w j Create_touches [OF w]] .
  show "claims (rp_InstanceExists (lic_Repository lic) j (snd (Destroy lic i w))) =
      claims (rp_InstanceExists (lic_Repository lic) j w)"
    using touches_other [OF w j Destroy_touches [OF w]] .
qed

lemma card_except_one:
  assumes "finite A" "finite B" "B - {x} = A - {x}" and "x \<in> A \<or> int (card A) < n" "int (card A) \<le> n"
  shows "int (card B) \<le> n"
proof -
  have "B \<subseteq> insert x A" using assms(3) by auto
  then have "card B \<le> card (insert x A)" using assms(1) by (intro card_mono) auto
  with assms show ?thesis by (auto simp: card_insert_if split: if_splits)
qed

context hosted_repository
begin

text \<open>The instance limit is kept by every request, failing ones included.\<close>

definition within_limit :: "'w \<Rightarrow> bool" where
  "within_limit w \<longleftrightarrow> int (card (entries w)) \<le> ServiceInstanceLimit (lic_RedisConfiguration lic)"

lemma Create_limit:
  assumes "inv w" "valid_id i" "within_limit w"
  shows "within_limit (snd (Create lic i w))"
proof (cases rule: Create_cases [of lic i w])
  case (refused e)
  then have "entries (snd (Create lic i w)) = entries w"
    using count_entries [OF assms(1)] by (metis prod.collapse snd_conv)
  with assms(3) show ?thesis by (simp add: within_limit_def)
next
  case (made n w1)
  then have "int (card (entries w)) < ServiceInstanceLimit (lic_RedisConfiguration lic)"
    using count_entries [OF assms(1)] by metis
  moreover have "entries (snd (Create lic i w)) - {i} = entries w - {i}"
    using touches_entries [OF assms(1) Create_touches [OF assms(1,2)]] .
  ultimately show ?thesis
    using card_except_one [OF finite_entries finite_entries, of "snd (Create lic i w)" i w
        "ServiceInstanceLimit (lic_RedisConfiguration lic)"]
    by (simp add: within_limit_def)
qed

lemma Destroy_limit:
  assumes "inv w" "valid_id i" "within_limit w" "claims (rp_InstanceExists (lic_Repository lic) i w)"
  shows "within_limit (snd (Destroy lic i w))"
proof -
  have "entries (snd (Destroy lic i w)) - {i} = entries w - {i}"
    using touches_entries [OF assms(1) Destroy_touches [OF assms(1,2)]] .
  then show ?thesis
    using card_except_one [OF finite_entries finite_entries, of "snd (Destroy lic i w)" i w
        "ServiceInstanceLimit (lic_RedisConfiguration lic)"]
      exists_entry [OF assms(1,2,4)] assms(3)
    by (simp add: within_limit_def)
qed

lemma handle_limit:
  assumes "host.hosted_by b" "inv w" "valid_id (request_id req)" "within_limit w"
  shows "within_limit (snd (handle b req w))"
  using assms Create_limit Destroy_limit
  by (cases req) (auto simp: host.provision_cases host.deprovision_cases)

lemma serve_limit:
  assumes "host.hosted_by b" "inv w" "\<And>req. req \<in> set reqs \<Longrightarrow> valid_id (request_id req)"
    and "within_limit w"
  shows "within_limit (snd (serve b reqs w))"
  using assms(2,3,4)
proof (induction reqs arbitrary: w)
  case (Cons req reqs)
  then have "inv (snd (handle b req w))" "within_limit (snd (handle b req w))"
    using host.handle_inv [OF assms(1)] handle_limit [OF assms(1)] by simp_all
  with Cons show ?case by (simp add: serve_Cons)
qed simp

end

end
