(* ===== verification/Shared_Broker.thy ===== *)
theory Shared_Broker
  imports Instance_Creator
begin

text \<open>
  \<open>src/cmd/broker/main.go\<close>: the broker as it is put together, from the repository, the process
  controller, the instance creator and the service broker, and the properties of the whole.

  What the program gets from outside is the record \<open>platform\<close>: listening on a port, random
  UUIDs, pinging a Redis server, running a command, dialling and sleeping.
\<close>

section \<open>The code\<close>

record platform =
  pf_listen :: "world \<Rightarrow> string option \<times> world"
  pf_uuid :: "world \<Rightarrow> string \<times> world"
  pf_ping :: "redis_instance \<Rightarrow> world \<Rightarrow> unit res \<times> world"
  pf_exec :: "string \<Rightarrow> string list \<Rightarrow> world \<Rightarrow> unit res \<times> world"
  pf_dial :: "tcp_addr \<Rightarrow> world \<Rightarrow> unit res \<times> world"
  pf_sleep :: "duration \<Rightarrow> world \<Rightarrow> world"

text \<open>
  The values of the Go interfaces. \<open>availability.Check\<close> returns for every timeout of less than
  292 years (\<open>check_returns\<close>), so \<open>the\<close> selects its result.
\<close>

definition repository_of :: "local_repository \<Rightarrow> world local_instance_repository" where
  "repository_of repo =
     \<lparr>rp_FindByID = FindByID repo, rp_InstanceExists = InstanceExists repo, rp_Setup = Setup repo,
      rp_Delete = Delete repo, rp_InstanceDataDir = InstanceDataDir repo,
      rp_InstanceConfigPath = InstanceConfigPath repo,
      rp_InstanceLogFilePath = InstanceLogFilePath repo,
      rp_InstancePidFilePath = InstancePidFilePath repo, rp_InstanceCount = InstanceCount repo,
      rp_Lock = Lock repo, rp_Unlock = Unlock repo\<rparr>"

definition controller_of :: "os_process_controller \<Rightarrow> world process_controller" where
  "controller_of ctl =
     \<lparr>pc_StartAndWaitUntilReady = StartAndWaitUntilReady ctl, pc_Kill = Kill ctl\<rparr>"

definition creator_of :: "'w local_instance_creator \<Rightarrow> 'w instance_creator" where
  "creator_of lic =
     \<lparr>ic_Create = Create lic, ic_Destroy = Destroy lic,
      ic_InstanceExists = rp_InstanceExists (lic_Repository lic)\<rparr>"

definition binder_of :: "local_repository \<Rightarrow> world instance_binder" where
  "binder_of repo =
     \<lparr>ib_Bind = Repo_Bind repo, ib_Unbind = Repo_Unbind repo, ib_InstanceExists = InstanceExists repo\<rparr>"

definition processController :: "platform \<Rightarrow> local_repository \<Rightarrow> os_process_controller" where
  "processController pf repo =
     os_controller repo (pf_ping pf)
       (\<lambda>address timeout w. the (Check (pf_dial pf) (pf_sleep pf) address timeout w)) '''' (pf_exec pf)"

definition localCreator ::
    "platform \<Rightarrow> config \<Rightarrow> local_repository \<Rightarrow> world local_instance_creator" where
  "localCreator pf config repo =
     \<lparr>lic_Repository = repository_of repo, lic_FindFreePort = FindFreePort (pf_listen pf),
      lic_ProcessController = controller_of (processController pf repo),
      lic_RedisConfiguration = RedisConfiguration config, lic_NewUUID = pf_uuid pf\<rparr>"

definition serviceBroker ::
    "platform \<Rightarrow> config \<Rightarrow> local_repository \<Rightarrow> world redis_service_broker" where
  "serviceBroker pf config repo =
     \<lparr>InstanceCreators = [(''shared'', creator_of (localCreator pf config repo))],
      InstanceBinders = [(''shared'', binder_of repo)], sb_Config = config\<rparr>"

text \<open>The environment variables are a function; an unset variable is empty.\<close>

definition configPath :: "(string \<Rightarrow> string) \<Rightarrow> string res" where
  "configPath env =
     (if env ''BROKER_CONFIG_PATH'' = '''' then Panic ''BROKER_CONFIG_PATH not set''
      else Ok (env ''BROKER_CONFIG_PATH''))"

definition setPidDir :: "(string \<Rightarrow> string) \<Rightarrow> local_repository \<Rightarrow> local_repository" where
  "setPidDir env repo =
     (if env ''SHARED_PID_DIR'' \<noteq> ''''
      then repo\<lparr>RedisConf := (RedisConf repo)\<lparr>PidfileDirectory := env ''SHARED_PID_DIR''\<rparr>\<rparr>
      else repo)"

text \<open>
  \<open>main\<close> up to the point where it serves requests. \<open>logger.Fatal\<close> logs and panics.
\<close>

definition broker_main ::
    "platform \<Rightarrow> (string \<Rightarrow> config res) \<Rightarrow> (string \<Rightarrow> string) \<Rightarrow> world \<Rightarrow>
     world redis_service_broker res \<times> world" where
  "broker_main pf yaml_decode env w =
     (case configPath env of
        Ok path \<Rightarrow>
          (let w1 = Logger_Info (''Config File: '' @ path) [] (Logger_Info ''Starting CF Redis broker'' [] w)
           in case ParseConfig yaml_decode path w1 of
                (_, Some e) \<Rightarrow>
                  (Panic ''Loading config file'',
                   log_write FATAL ''Loading config file'' (Some e) [(''broker-config-path'', path)] w1)
              | (config, None) \<Rightarrow>
                  (let localRepo = setPidDir env (NewLocalRepository (RedisConfiguration config));
                       w2 = snd (AllInstancesVerbose localRepo w1)
                   in (Ok (serviceBroker pf config localRepo), w2)))
      | Err e \<Rightarrow> (Err e, w)
      | Panic m \<Rightarrow> (Panic m, w))"

lemma creator_simps [simp]:
  "lic_Repository (localCreator pf config repo) = repository_of repo"
  "lic_FindFreePort (localCreator pf config repo) = FindFreePort (pf_listen pf)"
  "lic_ProcessController (localCreator pf config repo) = controller_of (processController pf repo)"
  "lic_RedisConfiguration (localCreator pf config repo) = RedisConfiguration config"
  "lic_NewUUID (localCreator pf config repo) = pf_uuid pf"
  by (simp_all add: localCreator_def)

lemma repository_simps [simp]:
  "rp_FindByID (repository_of repo) = FindByID repo"
  "rp_InstanceExists (repository_of repo) = InstanceExists repo"
  "rp_Setup (repository_of repo) = Setup repo" "rp_Delete (repository_of repo) = Delete repo"
  "rp_InstanceDataDir (repository_of repo) = InstanceDataDir repo"
  "rp_InstanceConfigPath (repository_of repo) = InstanceConfigPath repo"
  "rp_InstanceLogFilePath (repository_of repo) = InstanceLogFilePath repo"
  "rp_InstanceCount (repository_of repo) = InstanceCount repo"
  "rp_Lock (repository_of repo) = Lock repo" "rp_Unlock (repository_of repo) = Unlock repo"
  by (simp_all add: repository_of_def)

lemma controller_simps [simp]:
  "pc_StartAndWaitUntilReady (controller_of ctl) = StartAndWaitUntilReady ctl"
  "pc_Kill (controller_of ctl) = Kill ctl"
  by (simp_all add: controller_of_def)

section \<open>Changes that touch one instance only\<close>

text \<open>Up to the table of processes, which a start or a kill changes.\<close>

definition touches_only :: "local_repository \<Rightarrow> string \<Rightarrow> world \<Rightarrow> world \<Rightarrow> bool" where
  "touches_only repo i w w' \<longleftrightarrow> keeps_local repo i (w\<lparr>procs := procs w'\<rparr>) w'"

lemma procs_irrelevant [simp]:
  "node_at (w\<lparr>procs := ps\<rparr>) = node_at w" "fs_wf (w\<lparr>procs := ps\<rparr>) = fs_wf w"
  "walk (w\<lparr>procs := ps\<rparr>) = walk w" "dir_entries (w\<lparr>procs := ps\<rparr>) q = dir_entries w q"
  by (auto simp: node_at_def fs_wf_def is_dir_at_def is_file_at_def walk_def dir_entries_def fun_eq_iff)

lemma reads_procs [simp]:
  "os_Stat p (w\<lparr>procs := ps\<rparr>) = os_Stat p w" "ioutil_ReadFile p (w\<lparr>procs := ps\<rparr>) = ioutil_ReadFile p w"
  by (simp_all add: os_Stat_def ioutil_ReadFile_def at_path_def cong: option.case_cong)

lemma repo_reads_procs [simp]:
  "InstanceExists repo i (w\<lparr>procs := ps\<rparr>) = InstanceExists repo i w"
  "FindByID repo i (w\<lparr>procs := ps\<rparr>) = FindByID repo i w"
  by (simp_all add: InstanceExists_def FindByID_def Conf_Load_def)

lemma touches_only_iff:
  "touches_only repo i w w' \<longleftrightarrow>
     (\<forall>q. q \<notin> instance_frame repo i \<longrightarrow> node_at w' q = node_at w q) \<and> (fs_wf w \<longrightarrow> fs_wf w') \<and>
     refuses w' = refuses w \<and> written w' = written w \<and> umask w' = umask w \<and> cwd w' = cwd w \<and>
     kill_refused w' = kill_refused w"
  by (auto simp: touches_only_def keeps_local_def fs_frame_def same_env_def)

lemma touches_only_refl [simp]: "touches_only repo i w w"
  by (simp add: touches_only_iff)

lemma touches_only_trans:
  "touches_only repo i a b \<Longrightarrow> touches_only repo i b c \<Longrightarrow> touches_only repo i a c"
  by (simp add: touches_only_iff)

lemma keeps_touches: "keeps_local repo i w w' \<Longrightarrow> touches_only repo i w w'"
  by (auto simp: touches_only_iff keeps_local_def fs_frame_def same_env_def)

lemma only_logs_touches: "only_logs w w' \<Longrightarrow> touches_only repo i w w'"
  by (simp add: keeps_touches keeps_local_def only_logs_frame only_logs_wf)

lemma touches_exists_other:
  assumes "repo_ok repo" "simple_name j" "j \<noteq> i" "fs_wf w" "touches_only repo i w w'"
  shows "claims (InstanceExists repo j w') = claims (InstanceExists repo j w)"
  using exists_other [of repo j i "w\<lparr>procs := procs w'\<rparr>" w'] assms by (simp add: touches_only_def)

lemma touches_found_other:
  assumes "repo_ok repo" "simple_name j" "j \<noteq> i" "fs_wf w" "touches_only repo i w w'"
  shows "FindByID repo j w' = Ok inst \<longleftrightarrow> FindByID repo j w = Ok inst"
  using FindByID_other [of repo j i "w\<lparr>procs := procs w'\<rparr>" w'] assms by (simp add: touches_only_def)

lemma touches_entries:
  assumes "repo_ok repo" "touches_only repo i w w'"
  shows "dir_entries w' (data_comps repo) - {i} = dir_entries w (data_comps repo) - {i}"
  using entries_local [of repo i "w\<lparr>procs := procs w'\<rparr>" w'] assms by (simp add: touches_only_def)

lemma Kill_touches: "touches_only repo i w (snd (Kill (os_controller repo ping wait x exec) inst w))"
proof (cases "InstancePid repo (inst_ID inst) w")
  case (Ok pid)
  have "touches_only repo i w (w\<lparr>procs := ps\<rparr>)" for ps by (simp add: touches_only_iff)
  with Ok show ?thesis
    by (auto simp: Kill_def Process_Kill_def os_Kill_def split: res.splits)
qed (simp_all add: Kill_def touches_only_iff)

section \<open>The deployed broker\<close>

text \<open>
  What is relied on outside the repository. Listening on a free port and drawing a UUID leave the
  files alone. A \<open>redis-server\<close> that is started for an instance keeps to the directory, log file
  and pid file it is given, and leaves the instance's directory and its \<open>redis.conf\<close> as they are.
\<close>

definition platform_contract :: "platform \<Rightarrow> config \<Rightarrow> local_repository \<Rightarrow> bool" where
  "platform_contract pf config repo \<longleftrightarrow>
     (\<forall>w. only_logs w (snd (pf_listen pf w))) \<and> (\<forall>w. only_logs w (snd (pf_uuid pf w))) \<and>
     (\<forall>inst w. simple_name (inst_ID inst) \<longrightarrow>
        touches_only repo (inst_ID inst) w
          (snd (startLocalInstance (localCreator pf config repo) inst w)) \<and>
        (\<forall>q \<in> {data_comps repo @ [inst_ID inst], data_comps repo @ [inst_ID inst, ''redis.conf'']}.
           node_at (snd (startLocalInstance (localCreator pf config repo) inst w)) q = node_at w q))"

text \<open>
  A state of a deployed broker: the directories are laid out as they should be, the file tree is
  one, and the broker may look at the entries of its own data directory.
\<close>

definition deployed :: "platform \<Rightarrow> config \<Rightarrow> local_repository \<Rightarrow> world \<Rightarrow> bool" where
  "deployed pf config repo w \<longleftrightarrow>
     repo_ok repo \<and> platform_contract pf config repo \<and> fs_wf w \<and>
     (\<forall>i. refuses w OpStat (data_comps repo @ [i]) = None)"

lemma deployedD:
  assumes "deployed pf config repo w"
  shows "repo_ok repo" "fs_wf w" "refuses w OpStat (data_comps repo @ [i]) = None"
    "only_logs w' (snd (pf_listen pf w'))" "only_logs w' (snd (pf_uuid pf w'))"
    "simple_name (inst_ID inst) \<Longrightarrow> touches_only repo (inst_ID inst) w'
       (snd (startLocalInstance (localCreator pf config repo) inst w'))"
    "simple_name (inst_ID inst) \<Longrightarrow>
       node_at (snd (startLocalInstance (localCreator pf config repo) inst w'))
         (data_comps repo @ [inst_ID inst]) = node_at w' (data_comps repo @ [inst_ID inst])"
    "simple_name (inst_ID inst) \<Longrightarrow>
       node_at (snd (startLocalInstance (localCreator pf config repo) inst w'))
         (data_comps repo @ [inst_ID inst, ''redis.conf'']) =
       node_at w' (data_comps repo @ [inst_ID inst, ''redis.conf''])"
  using assms by (simp_all add: deployed_def platform_contract_def)

lemma deployed_touches:
  "deployed pf config repo w \<Longrightarrow> touches_only repo i w w' \<Longrightarrow> deployed pf config repo w'"
  by (simp add: deployed_def touches_only_iff)

lemma deployed_exists:
  assumes "deployed pf config repo w" "simple_name i"
  shows "claims (InstanceExists repo i w) \<longleftrightarrow> i \<in> dir_entries w (data_comps repo)"
  using assms by (auto simp: exists_claims_iff deployedD dir_entries_def)

lemma FindFreePort_logs:
  assumes "deployed pf config repo w"
  shows "only_logs v (snd (FindFreePort (pf_listen pf) v))"
  using deployedD(4) [OF assms, of v] by (auto simp: FindFreePort_def split: prod.splits option.splits)

lemma InstanceCount_logs: "only_logs w (snd (InstanceCount repo w))"
  using allInstances_world [of w repo False]
  by (auto simp: InstanceCount_def AllInstances_def split: prod.splits)

lemma only_logs_entries: "only_logs w w' \<Longrightarrow> dir_entries w' q = dir_entries w q"
  by (simp add: dir_entries_def only_logs_node)

lemma dir_is_entry: "is_dir_at w (q @ [i]) \<Longrightarrow> i \<in> dir_entries w q"
  by (auto simp: is_dir_at_alt dir_entries_def)

lemma Setup_entry:
  assumes "repo_ok repo" "simple_name (inst_ID inst)" "Setup repo inst w = (Ok (), w')"
  shows "inst_ID inst \<in> dir_entries w' (data_comps repo)"
proof -
  obtain w1 w2 w3 where w1: "EnsureDirectoriesExist repo inst w = (Ok (), w1)"
    and w2: "Lock repo inst w1 = (Ok (), w2)" and w3: "WriteConfigFile repo inst w2 = (Ok (), w3)"
    and w': "node_at w' = node_at w3"
    using assms(3) by (rule Setup_steps) simp
  have "is_dir_at w1 (data_comps repo @ [inst_ID inst])"
    using EnsureDirectoriesExist_Ok [OF assms(1,2) w1] by simp
  moreover have "fs_frame {data_comps repo @ [inst_ID inst, ''lock'']} w1 w2"
    using Create_frame [of w1 "lockFilePath repo inst"] w2 assms(1,2) by (simp add: Lock_def path_simps)
  moreover have "fs_frame {data_comps repo @ [inst_ID inst, ''redis.conf'']} w2 w3"
    using Copy_frame w3 assms(1,2) by (metis WriteConfigFile_def resolve_instance_paths(3) snd_conv)
  ultimately show ?thesis
    using w' by (auto simp: is_dir_at_alt dir_entries_def fs_frame_def)
qed

lemma Unlock_entry:
  assumes "repo_ok repo" "simple_name (inst_ID inst)" "i \<in> dir_entries w (data_comps repo)"
  shows "i \<in> dir_entries (snd (Unlock repo inst w)) (data_comps repo)"
  using Remove_frame [of w "lockFilePath repo inst"] assms
  by (auto simp: Unlock_def path_simps dir_entries_def fs_frame_def)

interpretation shared: hosted_repository "localCreator pf config repo" "deployed pf config repo"
  simple_name "touches_only repo" "\<lambda>w. dir_entries w (data_comps repo)"
  for pf config repo
proof (unfold_locales, goal_cases)
  case (2 i w w' w'') then show ?case by (rule touches_only_trans)
next
  case (3 w i w') then show ?case by (blast intro: deployed_touches)
next
  case (4 w i j w') show ?case
    using touches_exists_other [OF deployedD(1) [OF 4(1)] 4(3,4) deployedD(2) [OF 4(1)] 4(5)] by simp
next
  case (5 w i w') show ?case by (rule Shared_Broker.touches_entries [OF deployedD(1) [OF 5(1)] 5(2)])
next
  case (7 w i) then show ?case by (simp add: deployed_exists)
next
  case (8 i w inst) then show ?case by (simp add: FindByID_id)
next
  case (9 w i) show ?case by (simp add: only_logs_touches InstanceCount_logs)
next
  case (10 w n errs w')
  then show ?case
    using InstanceCount_entries(1) [OF deployedD(1,2), OF 10(1,1)] InstanceCount_logs [of w repo]
    by (auto simp: only_logs_entries)
next
  case (11 w i) then show ?case by (simp add: only_logs_touches FindFreePort_logs)
next
  case (12 w i) then show ?case by (simp add: only_logs_touches deployedD)
next
  case (13 w inst) then show ?case by (simp add: keeps_touches Setup_local deployedD)
next
  case (14 w inst) then show ?case by (simp add: deployedD)
next
  case (15 w inst) then show ?case by (simp add: keeps_touches Lock_local deployedD)
next
  case (16 w inst) then show ?case by (simp add: keeps_touches Unlock_local deployedD)
next
  case (17 w inst) then show ?case by (simp add: processController_def Kill_touches)
next
  case (18 w i) then show ?case by (simp add: keeps_touches Delete_local deployedD)
next
  case (19 w inst w')
  then have "keeps_local repo (inst_ID inst) w w'"
    using Setup_local [OF deployedD(1) [OF 19(1)] 19(2), of w] by simp
  with 19 have "deployed pf config repo w'" by (blast intro: deployed_touches keeps_touches)
  with 19 show ?case using Setup_entry deployedD(1) by (simp add: deployed_exists)
next
  case (20 w inst w')
  have "deployed pf config repo w'"
    using deployed_touches [OF 20(1) deployedD(6) [OF 20(1,2)]] 20(3) by simp
  with 20 show ?case
    using deployedD(7) [OF 20(1,2), of w] by (simp add: deployed_exists dir_entries_def)
next
  case (21 w inst w')
  have "deployed pf config repo w'"
    using deployed_touches [OF 21(1) keeps_touches [OF Unlock_local [OF deployedD(1) [OF 21(1)] 21(2)]]]
      21(3) by simp
  with 21 show ?case using Unlock_entry [of repo inst "inst_ID inst" w] deployedD(1)
    by (simp add: deployed_exists)
next
  case (22 w i w')
  have "deployed pf config repo w'"
    using deployed_touches [OF 22(1) keeps_touches [OF Delete_local [OF deployedD(1) [OF 22(1)] 22(2)]]]
      22(3) by simp
  with 22 show ?case
    using Delete_Ok [of repo i w w' "data_comps repo @ [i]"] deployedD(1,2)
    by (simp add: deployed_exists dir_entries_def)
qed simp_all

definition live_instances :: "local_repository \<Rightarrow> world \<Rightarrow> string set" where
  "live_instances repo w = {i. simple_name i \<and> claims (InstanceExists repo i w)}"

lemma live_instances_shared: "shared.host.the_instances pf config repo = live_instances repo"
  unfolding fun_eq_iff shared.host.the_instances_def by (simp add: live_instances_def)

lemma hosted_serviceBroker: "shared.host.hosted_by pf config repo (serviceBroker pf config repo)"
  unfolding shared.host.hosted_by_def by (simp add: serviceBroker_def creator_of_def)

section \<open>What a request leaves behind\<close>

lemma broker_Provision:
  "Provision (serviceBroker pf config repo) i pid w =
     (if claims (InstanceExists repo i w) then (Err ErrInstanceAlreadyExists, w)
      else if pid = '''' then (Err (ErrorString ''plan_id required''), w)
      else if SharedEnabled config \<and> pid = SharedVMPlanID (RedisConfiguration config)
        then Create (localCreator pf config repo) i w
      else (Err (ErrorString ''plan_id not recognized''), w))"
  using shared.host.provision_cases [OF hosted_serviceBroker, of pf config repo i pid w]
  by (simp add: serviceBroker_def)

lemma broker_Deprovision:
  "Deprovision (serviceBroker pf config repo) i w =
     (if claims (InstanceExists repo i w) then Destroy (localCreator pf config repo) i w
      else (Err ErrInstanceDoesNotExist, w))"
  using shared.host.deprovision_cases [OF hosted_serviceBroker, of pf config repo i w] by simp

lemma provision_makes:
  assumes "Provision (serviceBroker pf config repo) i pid w = (Ok (), w')"
  obtains w0 port w1 u w2 where "only_logs w w0" "FindFreePort (pf_listen pf) w0 = (Ok port, w1)"
    "pf_uuid pf w1 = (u, w2)"
    "install (localCreator pf config repo) \<lparr>inst_ID = i, inst_Host = sc_Host (RedisConfiguration config),
       inst_Port = port, inst_Password = u\<rparr> w2 = (Ok (), w')"
proof -
  have create: "Create (localCreator pf config repo) i w = (Ok (), w')"
    using assms by (simp add: broker_Provision split: if_splits)
  show thesis
  proof (cases rule: Create_cases [of "localCreator pf config repo" i w])
    case (made n w0)
    then have "only_logs w w0" using InstanceCount_logs [of w repo] by simp
    moreover have "makeInstance (localCreator pf config repo) i w0 = (Ok (), w')"
      using made(3) create by simp
    ultimately show thesis
      by (elim makeInstance_Ok) (auto intro: that)
  qed (use create in simp)
qed

lemma FindByID_loaded:
  assumes "Conf_Load (InstanceConfigPath repo i) w =
      Ok (instance_additions i (strconv_Itoa p) pw dir c)" "in_int_range 64 p"
  shows "FindByID repo i w = Ok \<lparr>inst_ID = i, inst_Host = sc_Host (RedisConf repo), inst_Port = p,
      inst_Password = pw\<rparr>"
  using assms by (simp add: FindByID_def additions_get Atoi_Itoa)

lemma Load_touched:
  assumes "fs_wf w" "touches_only repo i w w'" "Conf_Load p w = Ok c"
    and "node_at w' (resolve (cwd w) p) = node_at w (resolve (cwd w) p)"
  shows "Conf_Load p w' = Ok c"
  using Load_kept [of "w\<lparr>procs := procs w'\<rparr>" w' p c] assms
  by (simp add: touches_only_iff same_env_def Conf_Load_def)

lemma install_found:
  assumes dep: "deployed pf config repo w" "simple_name (inst_ID inst)"
    and conf: "Conf_Load (DefaultConfigPath (RedisConf repo)) w = Ok c" "wf_conf c"
      "wf_addition (inst_ID inst) (strconv_Itoa (inst_Port inst)) (inst_Password inst)
         (PidfileDirectory (RedisConf repo))"
      "refuses w OpOpen (data_comps repo @ [inst_ID inst, ''redis.conf'']) = None"
      "in_int_range 64 (inst_Port inst)"
    and run: "install (localCreator pf config repo) inst w = (Ok (), w')"
  shows "FindByID repo (inst_ID inst) w' = Ok \<lparr>inst_ID = inst_ID inst, inst_Host = sc_Host (RedisConf repo),
      inst_Port = inst_Port inst, inst_Password = inst_Password inst\<rparr>"
proof -
  let ?p = "InstanceConfigPath repo (inst_ID inst)"
    and ?c = "instance_additions (inst_ID inst) (strconv_Itoa (inst_Port inst)) (inst_Password inst)
      (PidfileDirectory (RedisConf repo)) c"
  obtain w1 w2 where w1: "Setup repo inst w = (Ok (), w1)"
    and w2: "startLocalInstance (localCreator pf config repo) inst w1 = (Ok (), w2)"
    and w': "Unlock repo inst w2 = (Ok (), w')"
    using run by (rule install_Ok) simp
  note ok = deployedD(1,2) [OF dep(1)]
  have load1: "Conf_Load ?p w1 = Ok ?c"
    using Setup_Ok(1) [OF ok(1) dep(2) ok(2) conf(1-4) w1] .
  have dep1: "deployed pf config repo w1"
    using deployed_touches [OF dep(1) keeps_touches [OF Setup_local [OF ok(1) dep(2)]]] w1 by simp
  have t2: "touches_only repo (inst_ID inst) w1 w2" using deployedD(6) [OF dep1 dep(2), of w1] w2 by simp
  have load2: "Conf_Load ?p w2 = Ok ?c"
    using Load_touched [OF deployedD(2) [OF dep1] t2 load1] deployedD(8) [OF dep1 dep(2), of w1] w2 ok(1) dep(2)
    by (simp add: path_simps)
  have "fs_frame {data_comps repo @ [inst_ID inst, ''lock'']} w2 w'"
    using Remove_frame [of w2 "lockFilePath repo inst"] w' ok(1) dep(2) by (simp add: Unlock_def path_simps)
  then have "node_at w' (resolve (cwd w2) ?p) = node_at w2 (resolve (cwd w2) ?p)"
    using resolve_instance_paths(3) [OF ok(1) dep(2), of "cwd w2"] by (simp add: fs_frame_def)
  moreover have "touches_only repo (inst_ID inst) w2 w'"
    using keeps_touches [OF Unlock_local [OF ok(1) dep(2), of w2]] w' by simp
  ultimately have "Conf_Load ?p w' = Ok ?c"
    using Load_touched [OF deployedD(2) [OF deployed_touches [OF dep1 t2]] _ load2] by blast
  then show ?thesis using conf(5) by (rule FindByID_loaded)
qed

lemma Lock_pid:
  assumes "repo_ok repo" "simple_name (inst_ID inst)" "fs_wf w" "Lock repo inst w = (r, w')"
  shows "InstancePid repo (inst_ID inst) w' = Ok pid \<longleftrightarrow> InstancePid repo (inst_ID inst) w = Ok pid"
proof -
  let ?lock = "data_comps repo @ [inst_ID inst, ''lock'']"
  have "fs_frame {?lock} w w'" "fs_wf w'"
    using Create_frame [of w "lockFilePath repo inst"] fs_wf_Create [OF assms(3)] assms
    by (simp_all add: Lock_def path_simps) (metis snd_conv)
  moreover have "pid_comps repo @ [inst_ID inst @ ''.pid''] \<noteq> ?lock"
    using parallel_below_snoc(2) [OF repo_okD(6) [OF assms(1)], of ?lock] by simp
  ultimately have "ioutil_ReadFile (InstancePidFilePath repo (inst_ID inst)) w' = Ok d \<longleftrightarrow>
      ioutil_ReadFile (InstancePidFilePath repo (inst_ID inst)) w = Ok d" for d
    using ReadFile_frame [of w w' "{?lock}"] assms by (simp add: path_simps)
  then show ?thesis by (simp add: InstancePid_def res_bind_Ok_iff)
qed

lemma Remove_procs [simp]: "procs (snd (os_Remove p w)) = procs w"
  using Remove_frame [of w p] by (simp add: fs_frame_def same_env_def)

lemma Delete_procs: "procs (snd (Delete repo i w)) = procs w"
proof -
  have "procs (snd (os_RemoveAll p v)) = procs v" for p v
    using RemoveAll_frame [of v p] by (simp add: fs_frame_def same_env_def)
  moreover have "procs (remove_pidfile repo i v) = procs v" for v
    using Remove_procs [of "InstancePidFilePath repo i" v]
    by (cases "os_Remove (InstancePidFilePath repo i) v") (simp add: remove_pidfile_def)
  ultimately show ?thesis
    unfolding Delete_def
    by (intro io_bind_state [of "\<lambda>v. procs v = procs w"]) simp_all
qed

lemma Lock_entry:
  assumes "repo_ok repo" "simple_name (inst_ID inst)" "Lock repo inst w = (r, w')"
    and "i \<in> dir_entries w (data_comps repo)"
  shows "i \<in> dir_entries w' (data_comps repo)"
  using Create_frame [of w "lockFilePath repo inst"] assms
  by (auto simp: Lock_def path_simps dir_entries_def fs_frame_def)

lemma Destroy_without_pid:
  assumes dep: "deployed pf config repo w" "simple_name i"
    and pid: "\<And>p. InstancePid repo i w \<noteq> Ok p" and entry: "i \<in> dir_entries w (data_comps repo)"
  shows "\<not> is_ok (fst (Destroy (localCreator pf config repo) i w))"
    and "i \<in> dir_entries (snd (Destroy (localCreator pf config repo) i w)) (data_comps repo)"
proof -
  let ?D = "Destroy (localCreator pf config repo) i w"
  have "\<not> is_ok (fst ?D) \<and> i \<in> dir_entries (snd ?D) (data_comps repo)"
  proof (cases "FindByID repo i w")
    case (Ok inst)
    then have id: "inst_ID inst = i" by (rule FindByID_id)
    obtain r w1 where lock: "Lock repo inst w = (r, w1)" by (metis prod.collapse)
    have entry1: "i \<in> dir_entries w1 (data_comps repo)"
      using Lock_entry [OF deployedD(1) [OF dep(1)] _ lock entry] id dep(2) by simp
    have "InstancePid repo i w1 \<noteq> Ok p" for p
      using Lock_pid [OF deployedD(1) [OF dep(1)] _ deployedD(2) [OF dep(1)] lock, of p] pid id dep(2) by simp
    then obtain e where "InstancePid repo i w1 = Err e"
      by (metis InstancePid_never_panics res.exhaust)
    with Ok lock entry1 id show ?thesis
      by (cases r) (simp_all add: Destroy_def Kill_def processController_def dir_entries_def)
  qed (simp_all add: Destroy_def entry)
  then show "\<not> is_ok (fst ?D)" "i \<in> dir_entries (snd ?D) (data_comps repo)" by blast+
qed

section \<open>An example deployment\<close>

text \<open>
  A \<open>redis-server\<close> that becomes process 4711, writes that into the pid file of the instance
  whose configuration it is given, and reports failure unless the file can be read back.
\<close>

definition example_redis :: "string \<Rightarrow> string list \<Rightarrow> world \<Rightarrow> unit res \<times> world" where
  "example_redis name args w =
     (let i = last (butlast (resolve [] (hd args)));
          w1 = snd (ioutil_WriteFile (InstancePidFilePath example_repo i) ''4711'' (octal 6 4 4) w);
          w2 = w1\<lparr>procs := 4711 # procs w1\<rparr>
      in (if InstancePid example_repo i w2 = Ok 4711 \<and> Alive 4711 w2 then Ok ()
          else Err (ErrorString ''exit status 1''), w2))"

definition example_platform :: platform where
  "example_platform =
     \<lparr>pf_listen = (\<lambda>w. (Some ''[::]:40001'', w)), pf_uuid = (\<lambda>w. (''pw'', w)),
      pf_ping = (\<lambda>_ w. (Ok (), w)), pf_exec = example_redis, pf_dial = (\<lambda>_ w. (Ok (), w)),
      pf_sleep = (\<lambda>_ w. w)\<rparr>"

definition example_config :: config where
  "example_config = zero_config\<lparr>RedisConfiguration := RedisConf example_repo\<rparr>"

lemma example_wait:
  "snd (the (Check (pf_dial example_platform) (pf_sleep example_platform) a t w)) = w"
  by (simp add: Check_def Check_loop.simps isListening_def example_platform_def)

lemma example_instance_of_conf:
  assumes "simple_name i"
  shows "last (butlast (resolve [] (InstanceConfigPath example_repo i))) = i"
  using resolve_instance_paths(3) [OF example_repo_ok assms] by (simp add: butlast_append)

lemma example_start:
  assumes "simple_name (inst_ID inst)"
  shows "snd (StartAndWaitUntilReady (processController example_platform example_repo) inst
      (InstanceConfigPath example_repo (inst_ID inst)) dir logf t w) =
    (let w' = snd (ioutil_WriteFile (InstancePidFilePath example_repo (inst_ID inst)) ''4711'' (octal 6 4 4) w)
     in w'\<lparr>procs := 4711 # procs w'\<rparr>)"
proof -
  have exec: "pf_exec example_platform = example_redis" by (simp add: example_platform_def)
  show ?thesis
    by (simp add: processController_def StartAndWaitUntilReady_def StartAndWaitUntilReadyWithConfig_def
        Let_def exec example_redis_def example_instance_of_conf [OF assms] example_wait)
qed

lemma example_start_touches:
  assumes id: "simple_name (inst_ID inst)"
  shows "touches_only example_repo (inst_ID inst) w
      (snd (StartAndWaitUntilReady (processController example_platform example_repo) inst
         (InstanceConfigPath example_repo (inst_ID inst)) dir logf t w))"
    and "node_at (snd (StartAndWaitUntilReady (processController example_platform example_repo) inst
         (InstanceConfigPath example_repo (inst_ID inst)) dir logf t w))
         (data_comps example_repo @ inst_ID inst # qs) = node_at w (data_comps example_repo @ inst_ID inst # qs)"
proof -
  let ?i = "inst_ID inst" and ?p = "InstancePidFilePath example_repo (inst_ID inst)"
  let ?w = "snd (ioutil_WriteFile ?p ''4711'' (octal 6 4 4) w)"
  have fr: "fs_frame {pid_comps example_repo @ [?i @ ''.pid'']} w ?w"
    using WriteFile_frame [of w ?p] by (simp add: path_simps example_repo_ok id)
  then have "keeps_local example_repo ?i w ?w"
    by (auto simp: keeps_local_def fs_wf_WriteFile intro: fs_frame_single_local)
  then have "touches_only example_repo ?i w (?w\<lparr>procs := ps\<rparr>)" for ps
    by (auto simp: touches_only_iff keeps_local_def fs_frame_def same_env_def)
  then show "touches_only example_repo ?i w
      (snd (StartAndWaitUntilReady (processController example_platform example_repo) inst
         (InstanceConfigPath example_repo ?i) dir logf t w))"
    by (simp add: example_start [OF id] Let_def)
  have "data_comps example_repo @ ?i # qs \<noteq> pid_comps example_repo @ [?i @ ''.pid'']"
    using parallel_below_snoc(2) [OF repo_okD(6) [OF example_repo_ok]] by simp
  then show "node_at (snd (StartAndWaitUntilReady (processController example_platform example_repo) inst
         (InstanceConfigPath example_repo ?i) dir logf t w)) (data_comps example_repo @ ?i # qs) =
      node_at w (data_comps example_repo @ ?i # qs)"
    using fr by (simp add: example_start [OF id] Let_def fs_frame_def)
qed

lemma example_contract: "platform_contract example_platform example_config example_repo"
proof -
  have "only_logs w (snd (pf_listen example_platform w))" "only_logs w (snd (pf_uuid example_platform w))" for w
    by (simp_all add: example_platform_def)
  then show ?thesis
    using example_start_touches by (simp add: platform_contract_def startLocalInstance_def Let_def)
qed

lemma example_deployed: "deployed example_platform example_config example_repo example_disk"
  by (simp add: deployed_def example_contract example_repo_ok example_disk_wf)

lemma example_no_instances:
  assumes "deployed example_platform example_config example_repo w"
    and "child_names w (data_comps example_repo) = []"
  shows "live_instances example_repo w = {}"
  using deployed_exists [OF assms(1)] set_child_names [of w "data_comps example_repo"] assms(2)
  by (auto simp: live_instances_def)

lemma example_addition: "in_int_range 32 p \<Longrightarrow> wf_addition ''i1'' (strconv_Itoa p) ''pw'' ''/run''"
proof -
  assume "in_int_range 32 p"
  then have "wf_value (strconv_Itoa p) \<and> int (length (strconv_Itoa p)) < 65000"
    using length_Itoa [of p] wf_value_Itoa by auto
  moreover have "\<forall>v \<in> {''redis-server-'' @ ''i1'', ''pw'', path_Join [''/run'', ''i1'' @ ''.pid'']}.
      wf_value v \<and> int (length v) < 65000" by code_simp
  ultimately show ?thesis by (simp only: wf_addition_def) blast
qed

lemma example_ids: "simple_name ''i1''" "simple_name ''i2''" "simple_name ''i3''"
  by code_simp+

section \<open>Properties\<close>

text \<open>
  C1. The broker implements the abstract service. For every sequence of provision and deprovision
  requests, whatever fails on the way, the outcomes and the set of instances that exist are those
  of a run of the service whose state is just a set of IDs: a provision of an existing instance is
  refused, a successful one adds exactly its instance, a deprovision of an unknown one is refused,
  a successful one removes exactly its instance, and a failing request touches no other instance.
\<close>

theorem broker_refines_service:
  assumes "deployed pf config repo w" and "\<And>req. req \<in> set reqs \<Longrightarrow> simple_name (request_id req)"
  shows "spec_run (live_instances repo w) reqs
    (fst (serve (serviceBroker pf config repo) reqs w))
    (live_instances repo (snd (serve (serviceBroker pf config repo) reqs w)))"
  using shared.host.serve_refines [OF hosted_serviceBroker assms]
  unfolding live_instances_shared .

text \<open>
  C2. The number of instances never exceeds the configured limit, whatever requests come in
  sequence and whichever of them fail half-way.
\<close>

theorem instance_limit_kept:
  assumes "deployed pf config repo w" and "\<And>req. req \<in> set reqs \<Longrightarrow> simple_name (request_id req)"
    and "int (card (dir_entries w (data_comps repo))) \<le> ServiceInstanceLimit (RedisConfiguration config)"
  shows "int (card (dir_entries (snd (serve (serviceBroker pf config repo) reqs w)) (data_comps repo)))
    \<le> ServiceInstanceLimit (RedisConfiguration config)"
  using shared.serve_limit [OF hosted_serviceBroker assms(1,2)] assms(3)
  unfolding shared.within_limit_def by simp

theorem broker_refines_service_witness:
  "spec_run {} [ReqProvision ''i1'' ''p1'', ReqDeprovision ''i1''] [Ok (), Ok ()] {}"
proof -
  let ?b = "serviceBroker example_platform example_config example_repo"
    and ?reqs = "[ReqProvision ''i1'' ''p1'', ReqDeprovision ''i1'']"
  have ids: "simple_name (request_id req)" if "req \<in> set ?reqs" for req
    using that example_ids by auto
  have "deployed example_platform example_config example_repo (snd (serve ?b ?reqs example_disk))"
    using shared.host.serve_inv [OF hosted_serviceBroker example_deployed ids] .
  moreover have "child_names (snd (serve ?b ?reqs example_disk)) (data_comps example_repo) = []"
    by code_simp
  ultimately have "live_instances example_repo (snd (serve ?b ?reqs example_disk)) = {}"
    by (rule example_no_instances)
  moreover have "child_names example_disk (data_comps example_repo) = []" by code_simp
  then have "live_instances example_repo example_disk = {}"
    by (rule example_no_instances [OF example_deployed])
  moreover have "fst (serve ?b ?reqs example_disk) = [Ok (), Ok ()]" by code_simp
  ultimately show ?thesis
    using broker_refines_service [where reqs = ?reqs, OF example_deployed ids] by simp
qed

theorem instance_limit_kept_witness:
  "card (dir_entries (snd (serve (serviceBroker example_platform example_config example_repo)
       [ReqProvision ''i1'' ''p1'', ReqProvision ''i2'' ''p1'', ReqProvision ''i3'' ''p1'']
       example_disk)) (data_comps example_repo)) \<le> 2"
proof -
  let ?reqs = "[ReqProvision ''i1'' ''p1'', ReqProvision ''i2'' ''p1'', ReqProvision ''i3'' ''p1'']"
  have ids: "simple_name (request_id req)" if "req \<in> set ?reqs" for req
    using that example_ids by auto
  have limit: "ServiceInstanceLimit (RedisConfiguration example_config) = 2" by code_simp
  have "card (dir_entries example_disk (data_comps example_repo)) = length (child_names example_disk (data_comps example_repo))"
    using length_child_names [OF example_disk_wf] by simp
  also have "\<dots> = 0" by code_simp
  finally show ?thesis
    using instance_limit_kept [where reqs = ?reqs, OF example_deployed ids] by (simp add: limit)
qed

text \<open>
  C3. A successful \<open>Provision\<close> can be bound: \<open>Bind\<close> then returns the configured host, the free
  port that was found and the random password, as read back from the \<open>redis.conf\<close> of the
  instance, and changes nothing.
\<close>

theorem provision_then_bind:
  assumes "deployed pf config repo w" "simple_name i"
    and "Conf_Load (DefaultConfigPath (RedisConf repo)) w = Ok c" "wf_conf c"
    and "\<And>p v. in_int_range 32 p \<Longrightarrow>
      wf_addition i (strconv_Itoa p) (fst (pf_uuid pf v)) (PidfileDirectory (RedisConf repo))"
    and "refuses w OpOpen (data_comps repo @ [i, ''redis.conf'']) = None"
    and "Provision (serviceBroker pf config repo) i pid w = (Ok (), w')"
  shows "\<exists>port w1 w2. FindFreePort (pf_listen pf) w1 = (Ok port, w2) \<and>
    Bind (serviceBroker pf config repo) i bd w' =
      (Ok [(''host'', StrCred (sc_Host (RedisConf repo))), (''port'', IntCred port),
           (''password'', StrCred (fst (pf_uuid pf w2)))], w')"
proof -
  obtain w0 port w1 u w2 where w0: "only_logs w w0"
    and w1: "FindFreePort (pf_listen pf) w0 = (Ok port, w1)" and w2: "pf_uuid pf w1 = (u, w2)"
    and run: "install (localCreator pf config repo) \<lparr>inst_ID = i,
      inst_Host = sc_Host (RedisConfiguration config), inst_Port = port, inst_Password = u\<rparr> w2 = (Ok (), w')"
    using assms(7) by (rule provision_makes)
  have logs: "only_logs w w2"
    using w0 FindFreePort_logs [OF assms(1), of w0] deployedD(5) [OF assms(1), of w1] w1 w2
    by (auto simp: only_logs_def intro: same_env_trans)
  have dep: "deployed pf config repo w2"
    using deployed_touches [OF assms(1) only_logs_touches [OF logs]] .
  have port: "in_int_range 32 port"
    using w1 by (auto simp: FindFreePort_def getPortFromAddr_def ParseInt_range split: prod.splits option.splits)
  have conf: "Conf_Load (DefaultConfigPath (RedisConf repo)) w2 = Ok c"
    using Load_kept [OF deployedD(2) [OF assms(1)] deployedD(2) [OF dep] _ assms(3)] logs
    by (simp add: only_logs_node) (simp add: only_logs_def)
  have "FindByID repo i w' = Ok \<lparr>inst_ID = i, inst_Host = sc_Host (RedisConf repo), inst_Port = port,
      inst_Password = u\<rparr>"
    using install_found [OF dep _ conf assms(4) _ _ _ run] assms(2,6) assms(5) [OF port, of w1] w2 logs
      in_int_range_mono [OF _ port, of 64]
    by (simp add: only_logs_def same_env_def)
  moreover have "claims (InstanceExists repo i w')"
    using shared.install_exists [OF dep _ run] assms(2) by simp
  ultimately show ?thesis
    using w1 w2
    by (intro exI [of _ port] exI [of _ w0] exI [of _ w1])
      (simp add: Bind_def serviceBroker_def binder_of_def Repo_Bind_def)
qed

theorem provision_then_bind_witness:
  "\<exists>port. fst (Bind (serviceBroker example_platform example_config example_repo) ''i1'' ''b1''
       (snd (Provision (serviceBroker example_platform example_config example_repo) ''i1'' ''p1'' example_disk)))
     = Ok [(''host'', StrCred ''10.0.0.7''), (''port'', IntCred port), (''password'', StrCred ''pw'')]"
proof -
  let ?b = "serviceBroker example_platform example_config example_repo"
  let ?run = "Provision ?b ''i1'' ''p1'' example_disk"
  have dir: "PidfileDirectory (RedisConf example_repo) = ''/run''" "sc_Host (RedisConf example_repo) = ''10.0.0.7''"
    by code_simp+
  have conf: "Conf_Load (DefaultConfigPath (RedisConf example_repo)) example_disk
      = Ok [\<lparr>Key = ''maxmemory'', Value = ''1''\<rparr>]" "wf_conf [\<lparr>Key = ''maxmemory'', Value = ''1''\<rparr>]"
    by code_simp+
  have add: "wf_addition ''i1'' (strconv_Itoa p) (fst (pf_uuid example_platform v))
      (PidfileDirectory (RedisConf example_repo))" if "in_int_range 32 p" for p v
    using example_addition [OF that] dir by (simp add: example_platform_def)
  have run: "?run = (Ok (), snd ?run)" by (rule eq_pair_fst) code_simp
  from provision_then_bind [OF example_deployed example_ids(1) conf add example_disk_refuses run, of "''b1''"]
  show ?thesis by (auto simp: dir example_platform_def)
qed

text \<open>
  C4. A successful \<open>Deprovision\<close> cleans up: the process that the pid file named was alive and is
  gone, no other process is, nothing is left of the data and log directories of the instance, and
  every other instance is as it was.
\<close>

theorem deprovision_cleans_up:
  assumes "deployed pf config repo w" "simple_name i"
    and "Deprovision (serviceBroker pf config repo) i w = (Ok (), w')"
  shows "(\<exists>pid. InstancePid repo i w = Ok pid \<and> Alive pid w \<and> set (procs w') = set (procs w) - {pid}) \<and>
    (\<forall>qs. node_at w' (data_comps repo @ i # qs) = None \<and> node_at w' (log_comps repo @ i # qs) = None) \<and>
    (\<forall>j. simple_name j \<and> j \<noteq> i \<longrightarrow> (\<forall>k. FindByID repo j w' = Ok k \<longleftrightarrow> FindByID repo j w = Ok k))"
proof -
  have run: "Destroy (localCreator pf config repo) i w = (Ok (), w')"
    using assms(3) by (simp add: broker_Deprovision split: if_splits)
  note ok = deployedD(1,2) [OF assms(1)]
  obtain inst w1 w2 where inst: "FindByID repo i w = Ok inst" and w1: "Lock repo inst w = (Ok (), w1)"
    and w2: "Kill (processController pf repo) inst w1 = (Ok (), w2)" and w': "Delete repo i w2 = (Ok (), w')"
    using run by (rule Destroy_Ok) simp
  have id: "inst_ID inst = i" using inst by (rule FindByID_id)
  have k1: "keeps_local repo i w w1" using Lock_local [OF ok(1), of inst w] id assms(2) w1 by simp
  then have same: "procs w1 = procs w" "kill_refused w1 = kill_refused w"
    by (simp_all add: keeps_local_def fs_frame_def same_env_def)
  obtain pid where pid: "InstancePid repo i w1 = Ok pid" and kill: "Process_Kill pid w1 = (Ok (), w2)"
    using w2 id by (auto simp: Kill_def processController_def split: res.splits)
  have "InstancePid repo i w = Ok pid"
    using Lock_pid [OF ok(1) _ ok(2) w1, of pid] pid id assms(2) by simp
  moreover have "Alive pid w"
    using Process_Kill_Ok(1) [OF kill] same by (simp add: Alive_def os_Signal0_def split: if_splits)
  moreover have "set (procs w') = set (procs w) - {pid}"
    using Process_Kill_Ok(2) [OF kill] Delete_procs [of repo i w2] w' same by auto
  moreover have "deployed pf config repo w2"
    using deployed_touches [OF deployed_touches [OF assms(1) keeps_touches [OF k1]]]
      Kill_touches [of repo i w1] w2 by (metis processController_def snd_conv)
  then have "node_at w' q = None" if "prefix (data_comps repo @ [i]) q \<or> prefix (log_comps repo @ [i]) q" for q
    using Delete_Ok [OF ok(1) assms(2) _ w'] that deployedD(2) by blast
  moreover have "FindByID repo j w' = Ok k \<longleftrightarrow> FindByID repo j w = Ok k" if "simple_name j" "j \<noteq> i" for j k
    using touches_found_other [OF ok(1) that ok(2)] shared.Destroy_touches [OF assms(1,2)] run
    by (metis snd_conv)
  ultimately show ?thesis by simp
qed

theorem deprovision_cleans_up_witness:
  "\<exists>pid. InstancePid example_repo ''i1''
       (snd (Provision (serviceBroker example_platform example_config example_repo) ''i1'' ''p1'' example_disk))
     = Ok pid"
proof -
  let ?b = "serviceBroker example_platform example_config example_repo"
  let ?w = "snd (Provision ?b ''i1'' ''p1'' example_disk)"
  have dep: "deployed example_platform example_config example_repo ?w"
    using shared.host.handle_inv [OF hosted_serviceBroker example_deployed, of "ReqProvision ''i1'' ''p1''"]
      example_ids by simp
  have "Deprovision ?b ''i1'' ?w = (Ok (), snd (Deprovision ?b ''i1'' ?w))"
    by (rule eq_pair_fst) code_simp
  from deprovision_cleans_up [OF dep example_ids(1) this] show ?thesis by blast
qed


text \<open>The server executable is missing.\<close>

definition example_no_redis :: platform where
  "example_no_redis =
     example_platform\<lparr>pf_exec := (\<lambda>_ _ w. (Err (ErrorString ''executable file not found''), w))\<rparr>"

lemma example_no_redis_deployed: "deployed example_no_redis example_config example_repo example_disk"
proof -
  have "snd (startLocalInstance (localCreator example_no_redis example_config example_repo) inst w) = w"
    for inst w
    by (simp add: startLocalInstance_def Let_def processController_def StartAndWaitUntilReady_def
        StartAndWaitUntilReadyWithConfig_def example_no_redis_def)
  then have "platform_contract example_no_redis example_config example_repo"
    by (simp add: platform_contract_def) (simp add: example_no_redis_def example_platform_def)
  then show ?thesis by (simp add: deployed_def example_repo_ok example_disk_wf)
qed

end
