(* ===== verification/Broker_Server.thy ===== *)
theory Broker_Server
  imports Shared_Broker
begin

text \<open>
  \<open>src/cmd/broker/main.go\<close> from the start of the process to its end. The HTTP server of Go and the
  routes of brokerapi are not part of the program: \<open>server\<close> is an argument that is given the address
  to listen on and the credentials to ask for, and says which requests reach the handlers and how the
  process ends. The broker keeps nothing in memory, so its lives can be put one after the other.
\<close>

section \<open>The code\<close>

record broker_credentials =
  bc_Username :: string
  bc_Password :: string

definition brokerCredentials :: "config \<Rightarrow> broker_credentials" where
  "brokerCredentials config =
     \<lparr>bc_Username = auth_Username (AuthConfiguration config),
      bc_Password = auth_Password (AuthConfiguration config)\<rparr>"

definition listenAddress :: "config \<Rightarrow> string" where
  "listenAddress config = cfg_Host config @ '':'' @ cfg_Port config"

definition localRepo :: "(string \<Rightarrow> string) \<Rightarrow> config \<Rightarrow> local_repository" where
  "localRepo env config = setPidDir env (NewLocalRepository (RedisConfiguration config))"

text \<open>The handler of \<open>SIGTERM\<close>, up to \<open>os.Exit(0)\<close>.\<close>

definition on_sigterm :: "local_repository \<Rightarrow> world \<Rightarrow> world" where
  "on_sigterm repo w = snd (AllInstancesVerbose repo (Logger_Info ''Starting Redis Broker shutdown'' [] w))"

text \<open>A broker ends with exit code 0 on \<open>SIGTERM\<close>, or \<open>ListenAndServe\<close> returns its error and \<open>Fatal\<close> panics.\<close>

datatype broker_end = Sigterm | ListenError gerror

fun end_broker :: "local_repository \<Rightarrow> broker_end \<Rightarrow> world \<Rightarrow> unit res \<times> world" where
  "end_broker repo Sigterm w = (Ok (), on_sigterm repo w)"
| "end_broker repo (ListenError e) w =
     (Panic ''http-listen'', log_write FATAL ''http-listen'' (Some e) [] w)"

type_synonym http_server = "string \<Rightarrow> broker_credentials \<Rightarrow> request list \<times> broker_end"

text \<open>One life of the process: what it answered, how it ended, and the machine it leaves.\<close>

definition broker_life ::
    "platform \<Rightarrow> (string \<Rightarrow> config res) \<Rightarrow> (string \<Rightarrow> string) \<Rightarrow> http_server \<Rightarrow> world \<Rightarrow>
     ((request \<times> unit res) list \<times> unit res) \<times> world" where
  "broker_life pf yaml_decode env server w =
     (case broker_main pf yaml_decode env w of
        (Ok b, w) \<Rightarrow>
          (let config = sb_Config b;
               (reqs, ending) = server (listenAddress config) (brokerCredentials config);
               (rs, w) = serve b reqs w;
               (r, w) = end_broker (localRepo env config) ending w
           in ((zip reqs rs, r), w))
      | (Err e, w) \<Rightarrow> (([], Err e), w)
      | (Panic m, w) \<Rightarrow> (([], Panic m), w))"

text \<open>The process is restarted whenever it ends.\<close>

fun broker_lives ::
    "platform \<Rightarrow> (string \<Rightarrow> config res) \<Rightarrow> (string \<Rightarrow> string) \<Rightarrow> http_server list \<Rightarrow> world \<Rightarrow>
     (request \<times> unit res) list \<times> world" where
  "broker_lives pf yaml_decode env [] w = ([], w)"
| "broker_lives pf yaml_decode env (server # servers) w =
     (let ((answers, _), w1) = broker_life pf yaml_decode env server w;
          (later, w2) = broker_lives pf yaml_decode env servers w1
      in (answers @ later, w2))"

section \<open>Starting and ending only log\<close>

lemma only_logs_trans: "only_logs a b \<Longrightarrow> only_logs b c \<Longrightarrow> only_logs a c"
  by (auto simp: only_logs_def intro: same_env_trans)

lemma AllInstancesVerbose_logs: "only_logs w v \<Longrightarrow> only_logs w (snd (AllInstancesVerbose repo v))"
  using allInstances_world [of v repo True] only_logs_trans by (auto simp: AllInstancesVerbose_def)

lemma broker_main_logs: "only_logs w (snd (broker_main pf yaml_decode env w))"
  by (auto simp: broker_main_def Let_def AllInstancesVerbose_logs split: res.splits prod.splits option.splits)

lemma broker_main_Ok:
  assumes "fst (broker_main pf yaml_decode env w) = Ok b"
  obtains path config v where "configPath env = Ok path" "only_logs w v"
    "ParseConfig yaml_decode path v = (config, None)" "b = serviceBroker pf config (localRepo env config)"
proof -
  obtain path where path: "configPath env = Ok path"
    using assms by (cases "configPath env") (auto simp: broker_main_def)
  let ?v = "Logger_Info (''Config File: '' @ path) [] (Logger_Info ''Starting CF Redis broker'' [] w)"
  obtain config err where parse: "ParseConfig yaml_decode path ?v = (config, err)" by fastforce
  with path assms have "err = None" "b = serviceBroker pf config (localRepo env config)"
    by (auto simp: broker_main_def Let_def localRepo_def split: option.splits)
  with path parse show thesis by (intro that) auto
qed

lemma end_broker_logs: "only_logs w (snd (end_broker repo ending w))"
  by (cases ending) (simp_all add: on_sigterm_def AllInstancesVerbose_logs)

lemma only_logs_deployed: "deployed pf config repo w \<Longrightarrow> only_logs w w' \<Longrightarrow> deployed pf config repo w'"
  using deployed_touches only_logs_touches by blast

lemma only_logs_live:
  assumes "deployed pf config repo w" "only_logs w w'"
  shows "live_instances repo w' = live_instances repo w"
  using deployed_exists [OF assms(1)] deployed_exists [OF only_logs_deployed [OF assms]]
    only_logs_entries [OF assms(2)] by (auto simp: live_instances_def)

lemma spec_run_append:
  "spec_run S reqs rs T \<Longrightarrow> spec_run T reqs' rs' U \<Longrightarrow> spec_run S (reqs @ reqs') (rs @ rs') U"
  by (induction rule: spec_run.induct) (auto intro: spec_run.intros)

lemma length_serve [simp]: "length (fst (serve b reqs w)) = length reqs"
  by (induction reqs arbitrary: w) (simp_all add: serve_Cons del: serve.simps(2))

text \<open>One life is a run of the service.\<close>

lemma life_refines:
  assumes dep: "deployed pf config (localRepo env config) w"
    and same: "\<And>path v c. configPath env = Ok path \<Longrightarrow> ParseConfig yaml_decode path v = (c, None) \<Longrightarrow> c = config"
    and ids: "\<And>req. req \<in> set (fst (server (listenAddress config) (brokerCredentials config))) \<Longrightarrow>
      simple_name (request_id req)"
    and life: "broker_life pf yaml_decode env server w = ((tr, r), w')"
  shows "deployed pf config (localRepo env config) w' \<and>
    spec_run (live_instances (localRepo env config) w) (map fst tr) (map snd tr)
      (live_instances (localRepo env config) w')"
proof -
  let ?repo = "localRepo env config" and ?b = "serviceBroker pf config (localRepo env config)"
  let ?w1 = "snd (broker_main pf yaml_decode env w)"
  have logs: "only_logs w ?w1" by (rule broker_main_logs)
  have dep1: "deployed pf config ?repo ?w1" using only_logs_deployed [OF dep logs] .
  show ?thesis
  proof (cases "fst (broker_main pf yaml_decode env w)")
    case (Ok b)
    then have b: "b = ?b" using same by (metis broker_main_Ok)
    obtain reqs ending where server: "server (listenAddress config) (brokerCredentials config) = (reqs, ending)"
      by fastforce
    let ?w2 = "snd (serve ?b reqs ?w1)"
    have main: "broker_main pf yaml_decode env w = (Ok ?b, ?w1)" using Ok b eq_pair_fst by metis
    have "sb_Config ?b = config" by (simp add: serviceBroker_def)
    then have tr: "tr = zip reqs (fst (serve ?b reqs ?w1))" and w': "w' = snd (end_broker ?repo ending ?w2)"
      using life main server by (auto simp: broker_life_def Let_def split: prod.splits)
    have ids': "simple_name (request_id req)" if "req \<in> set reqs" for req using ids server that by simp
    have dep2: "deployed pf config ?repo ?w2"
      using shared.host.serve_inv [OF hosted_serviceBroker dep1 ids'] by simp
    have "spec_run (live_instances ?repo ?w1) reqs (fst (serve ?b reqs ?w1)) (live_instances ?repo ?w2)"
      using shared.host.serve_refines [OF hosted_serviceBroker dep1 ids'] unfolding live_instances_shared .
    then show ?thesis
      using only_logs_live [OF dep logs] only_logs_live [OF dep2 end_broker_logs]
        only_logs_deployed [OF dep2 end_broker_logs] by (simp add: tr w')
  next
    case (Err e)
    then have "tr = []" "w' = ?w1" using life by (auto simp: broker_life_def split: prod.splits)
    then show ?thesis using dep1 only_logs_live [OF dep logs] by (simp add: spec_run.intros)
  next
    case (Panic m)
    then have "tr = []" "w' = ?w1" using life by (auto simp: broker_life_def split: prod.splits)
    then show ?thesis using dep1 only_logs_live [OF dep logs] by (simp add: spec_run.intros)
  qed
qed

section \<open>Properties\<close>


text \<open>Two lives on the example machine: the first is asked for a plan that does not exist, the
  second to destroy an instance that does not.\<close>

definition example_servers :: "http_server list" where
  "example_servers =
     [\<lambda>_ _. ([ReqProvision ''i1'' ''p9''], Sigterm),
      \<lambda>_ _. ([ReqDeprovision ''i1''], ListenError (ErrorString ''address already in use''))]"

definition example_env :: "string \<Rightarrow> string" where
  "example_env v = (if v = ''BROKER_CONFIG_PATH'' then ''/etc/redis.conf'' else '''')"


end
