(* ===== verification/Concurrent_Requests.thy ===== *)
theory Concurrent_Requests
  imports Shared_Broker
begin

text \<open>
  \<open>src/redis/local_instance_creator.go\<close> under concurrent requests. The HTTP server that
  \<open>src/cmd/broker/main.go\<close> starts runs every handler in a goroutine of its own, and the broker holds
  no mutex: calls of \<open>Create\<close> and \<open>Destroy\<close> interleave. Here a call is a sequence of points, one
  before each call of the repository, the port finder and the process controller; a step of the
  system lets one call go from a point to the next. Each of these operations is one step: what
  they read and write is not interleaved any further.

  A call that runs alone is the sequential function (\<open>alone_create\<close>, \<open>alone_destroy\<close>), and every
  call returns after at most five steps of its own. The instance limit does not survive the
  interleaving: the locale \<open>concurrent_repository\<close> shows by how much it can be exceeded.
\<close>

section \<open>The code\<close>

text \<open>
  Where a call of \<open>Create\<close> (the first five) or of \<open>Destroy\<close> stands. The instance that \<open>FindByID\<close>
  returns has the identifier that was asked for, so \<open>Destroy\<close> takes it from the instance.
\<close>

datatype point =
    AtCount string
  | AtPort string
  | AtSetup redis_instance
  | AtStart redis_instance
  | AtUnlock redis_instance
  | AtFind string
  | AtLock redis_instance
  | AtKill redis_instance
  | AtDelete redis_instance

datatype progress = Returned "unit res" | Goes point

text \<open>\<open>if err != nil { return err }\<close>.\<close>

definition unless_error :: "'a res \<times> 'w \<Rightarrow> ('a \<Rightarrow> progress) \<Rightarrow> progress \<times> 'w" where
  "unless_error p f =
     (case p of (Ok a, w) \<Rightarrow> (f a, w) | (Err e, w) \<Rightarrow> (Returned (Err e), w)
      | (Panic m, w) \<Rightarrow> (Returned (Panic m), w))"

fun resume :: "'w local_instance_creator \<Rightarrow> point \<Rightarrow> 'w \<Rightarrow> progress \<times> 'w" where
  "resume lic (AtCount i) w =
     (let ((instanceCount, errs), w) = rp_InstanceCount (lic_Repository lic) w in
      if errs \<noteq> [] then
        (Returned (Err (ErrorString
           ''Failed to determine current instance count, view broker logs for details'')), w)
      else if instanceCount \<ge> ServiceInstanceLimit (lic_RedisConfiguration lic) then
        (Returned (Err ErrInstanceLimitMet), w)
      else (Goes (AtPort i), w))"
| "resume lic (AtPort i) w =
     (case lic_FindFreePort lic w of
        (Ok port, w) \<Rightarrow>
          (let (uuid, w) = lic_NewUUID lic w in
           (Goes (AtSetup \<lparr>inst_ID = i, inst_Host = sc_Host (lic_RedisConfiguration lic),
              inst_Port = port, inst_Password = uuid\<rparr>), w))
      | (Err e, w) \<Rightarrow> (Returned (Err e), w)
      | (Panic m, w) \<Rightarrow> (Returned (Panic m), w))"
| "resume lic (AtSetup inst) w =
     unless_error (rp_Setup (lic_Repository lic) inst w) (\<lambda>_. Goes (AtStart inst))"
| "resume lic (AtStart inst) w =
     unless_error (startLocalInstance lic inst w) (\<lambda>_. Goes (AtUnlock inst))"
| "resume lic (AtUnlock inst) w =
     unless_error (rp_Unlock (lic_Repository lic) inst w) (\<lambda>_. Returned (Ok ()))"
| "resume lic (AtFind i) w =
     unless_error (rp_FindByID (lic_Repository lic) i w, w) (\<lambda>inst. Goes (AtLock inst))"
| "resume lic (AtLock inst) w =
     unless_error (rp_Lock (lic_Repository lic) inst w) (\<lambda>_. Goes (AtKill inst))"
| "resume lic (AtKill inst) w =
     unless_error (pc_Kill (lic_ProcessController lic) inst w) (\<lambda>_. Goes (AtDelete inst))"
| "resume lic (AtDelete inst) w =
     unless_error (rp_Delete (lic_Repository lic) (inst_ID inst) w) (\<lambda>_. Returned (Ok ()))"

text \<open>A call that runs alone, for at most \<open>n\<close> steps.\<close>

fun run_alone :: "'w local_instance_creator \<Rightarrow> nat \<Rightarrow> point \<Rightarrow> 'w \<Rightarrow> progress \<times> 'w" where
  "run_alone lic 0 p w = (Goes p, w)"
| "run_alone lic (Suc n) p w =
     (case resume lic p w of (Returned r, w) \<Rightarrow> (Returned r, w) | (Goes q, w) \<Rightarrow> run_alone lic n q w)"

text \<open>
  The system: a fixed number of handlers, each of them free or inside a call, over one shared
  state. A free handler may take any request for an identifier that satisfies \<open>valid\<close>.
\<close>

type_synonym 'w system = "point option list \<times> 'w"

inductive concurrent_step ::
    "'w local_instance_creator \<Rightarrow> (string \<Rightarrow> bool) \<Rightarrow> 'w system \<Rightarrow> 'w system \<Rightarrow> bool"
  for lic valid where
  call_create: "k < length ps \<Longrightarrow> ps ! k = None \<Longrightarrow> valid i \<Longrightarrow>
    concurrent_step lic valid (ps, w) (ps[k := Some (AtCount i)], w)"
| call_destroy: "k < length ps \<Longrightarrow> ps ! k = None \<Longrightarrow> valid i \<Longrightarrow>
    concurrent_step lic valid (ps, w) (ps[k := Some (AtFind i)], w)"
| call_goes: "k < length ps \<Longrightarrow> ps ! k = Some p \<Longrightarrow> resume lic p w = (Goes q, w') \<Longrightarrow>
    concurrent_step lic valid (ps, w) (ps[k := Some q], w')"
| call_returns: "k < length ps \<Longrightarrow> ps ! k = Some p \<Longrightarrow> resume lic p w = (Returned r, w') \<Longrightarrow>
    concurrent_step lic valid (ps, w) (ps[k := None], w')"

abbreviation concurrent_run ::
    "'w local_instance_creator \<Rightarrow> (string \<Rightarrow> bool) \<Rightarrow> 'w system \<Rightarrow> 'w system \<Rightarrow> bool" where
  "concurrent_run lic valid \<equiv> (concurrent_step lic valid)\<^sup>*\<^sup>*"

text \<open>A schedule names the handler that takes the next step; a handler without a call idles.\<close>

fun run_schedule :: "'w local_instance_creator \<Rightarrow> nat list \<Rightarrow> 'w system \<Rightarrow> 'w system" where
  "run_schedule lic [] s = s"
| "run_schedule lic (k # ks) (ps, w) =
     run_schedule lic ks
       (if k < length ps then
          (case ps ! k of
             None \<Rightarrow> (ps, w)
           | Some p \<Rightarrow>
               (case resume lic p w of
                  (Returned r, w) \<Rightarrow> (ps[k := None], w)
                | (Goes q, w) \<Rightarrow> (ps[k := Some q], w)))
        else (ps, w))"

section \<open>A call alone is the sequential function\<close>

definition returned :: "unit res \<times> 'w \<Rightarrow> progress \<times> 'w" where
  "returned p = (Returned (fst p), snd p)"

lemma unless_error_simps [simp]:
  "unless_error (Ok a, w) f = (f a, w)"
  "unless_error (Err e, w) f = (Returned (Err e), w)"
  "unless_error (Panic m, w) f = (Returned (Panic m), w)"
  by (simp_all add: unless_error_def)

lemma unless_error_state: "unless_error p f = (g, w') \<Longrightarrow> w' = snd p"
  by (auto simp: unless_error_def split: prod.splits res.splits)

lemma alone_create: "run_alone lic 5 (AtCount i) w = returned (Create lic i w)"
  by (simp add: numeral_eq_Suc Create_def makeInstance_def install_def returned_def
      unless_error_def split: prod.splits res.splits)

lemma alone_destroy:
  assumes "\<And>inst. rp_FindByID (lic_Repository lic) i w = Ok inst \<Longrightarrow> inst_ID inst = i"
  shows "run_alone lic 4 (AtFind i) w = returned (Destroy lic i w)"
  using assms
  by (simp add: numeral_eq_Suc Destroy_def returned_def unless_error_def
      split: prod.splits res.splits)

text \<open>The number of steps that a call still takes at most.\<close>

fun steps_left :: "point \<Rightarrow> nat" where
  "steps_left (AtCount _) = 5"
| "steps_left (AtPort _) = 4"
| "steps_left (AtSetup _) = 3"
| "steps_left (AtStart _) = 2"
| "steps_left (AtUnlock _) = 1"
| "steps_left (AtFind _) = 4"
| "steps_left (AtLock _) = 3"
| "steps_left (AtKill _) = 2"
| "steps_left (AtDelete _) = 1"

lemma resume_progress: "resume lic p w = (Goes q, w') \<Longrightarrow> steps_left q < steps_left p"
  by (cases p) (auto simp: unless_error_def Let_def split: prod.splits res.splits if_splits)

lemma run_schedule_runs: "concurrent_run lic valid s (run_schedule lic ks s)"
proof (induction lic ks s rule: run_schedule.induct)
  case (2 lic k ks ps w)
  let ?s = "if k < length ps then
          (case ps ! k of
             None \<Rightarrow> (ps, w)
           | Some p \<Rightarrow>
               (case resume lic p w of
                  (Returned r, w) \<Rightarrow> (ps[k := None], w)
                | (Goes q, w) \<Rightarrow> (ps[k := Some q], w)))
        else (ps, w)"
  have "?s = (ps, w) \<or> concurrent_step lic valid (ps, w) ?s"
    by (auto split: option.splits prod.splits progress.splits intro: concurrent_step.intros)
  with 2 show ?case by (auto intro: converse_rtranclp_into_rtranclp)
qed simp

section \<open>How far the limit can be exceeded\<close>

fun point_id :: "point \<Rightarrow> string" where
  "point_id (AtCount i) = i"
| "point_id (AtPort i) = i"
| "point_id (AtSetup inst) = inst_ID inst"
| "point_id (AtStart inst) = inst_ID inst"
| "point_id (AtUnlock inst) = inst_ID inst"
| "point_id (AtFind i) = i"
| "point_id (AtLock inst) = inst_ID inst"
| "point_id (AtKill inst) = inst_ID inst"
| "point_id (AtDelete inst) = inst_ID inst"

text \<open>A call that has passed the limit and has not set its instance up yet.\<close>

fun admitted :: "point option \<Rightarrow> nat" where
  "admitted (Some (AtPort _)) = 1"
| "admitted (Some (AtSetup _)) = 1"
| "admitted _ = 0"

definition pending :: "point option list \<Rightarrow> nat" where
  "pending ps = (\<Sum>p\<leftarrow>ps. admitted p)"

lemma admitted_le: "admitted p \<le> 1"
  by (cases p rule: admitted.cases) simp_all

lemma pending_le: "pending ps \<le> length ps"
  by (induction ps) (auto simp: pending_def intro: order_trans [OF add_mono [OF admitted_le]])

lemma pending_update:
  "k < length ps \<Longrightarrow> pending (ps[k := p]) + admitted (ps ! k) = pending ps + admitted p"
  using member_le_sum_list [of "admitted (ps ! k)" "map admitted ps"]
  by (simp add: pending_def map_update sum_list_update)

lemma pending_free [simp]: "pending (replicate n None) = 0"
  by (simp add: pending_def sum_list_replicate)

fun next_point :: "progress \<Rightarrow> point option" where
  "next_point (Returned _) = None"
| "next_point (Goes p) = Some p"

lemma concurrent_step_cases:
  assumes "concurrent_step lic valid (ps, w) (ps', w')"
  obtains (call) k p where "k < length ps" "ps ! k = None" "valid (point_id p)" "admitted (Some p) = 0"
      "ps' = ps[k := Some p]" "w' = w"
  | (step) k p g where "k < length ps" "ps ! k = Some p" "resume lic p w = (g, w')"
      "ps' = ps[k := next_point g]"
  using assms
proof (cases rule: concurrent_step.cases)
  case (call_create k i) then show thesis by (intro call [of k "AtCount i"]) simp_all
next
  case (call_destroy k i) then show thesis by (intro call [of k "AtFind i"]) simp_all
next
  case (call_goes k p q) then show thesis by (intro step [of k p "Goes q"]) simp_all
next
  case (call_returns k p r) then show thesis by (intro step [of k p "Returned r"]) simp_all
qed

text \<open>Only \<open>Setup\<close> adds an instance.\<close>

locale concurrent_repository = hosted_repository +
  assumes start_adds_none: "inv w \<Longrightarrow> valid_id (inst_ID inst) \<Longrightarrow>
      entries (snd (startLocalInstance lic inst w)) \<subseteq> entries w"
    and lock_adds_none: "inv w \<Longrightarrow> valid_id (inst_ID inst) \<Longrightarrow>
      entries (snd (rp_Lock (lic_Repository lic) inst w)) \<subseteq> entries w"
    and unlock_adds_none: "inv w \<Longrightarrow> valid_id (inst_ID inst) \<Longrightarrow>
      entries (snd (rp_Unlock (lic_Repository lic) inst w)) \<subseteq> entries w"
    and kill_adds_none: "inv w \<Longrightarrow> valid_id (inst_ID inst) \<Longrightarrow>
      entries (snd (pc_Kill (lic_ProcessController lic) inst w)) \<subseteq> entries w"
    and delete_adds_none: "inv w \<Longrightarrow> valid_id i \<Longrightarrow>
      entries (snd (rp_Delete (lic_Repository lic) i w)) \<subseteq> entries w"
begin

lemma entries_untouched:
  assumes "inv w" "\<And>i. touches i w w'"
  shows "entries w' = entries w"
  using touches_entries [OF assms(1) assms(2), of "''''"] touches_entries [OF assms(1) assms(2), of "''a''"]
  by blast

lemma port_step:
  assumes "inv w" "valid_id i" "resume lic (AtPort i) w = (g, w')"
  shows "touches i w w' \<and> entries w' = entries w"
proof -
  obtain r w1 where r: "lic_FindFreePort lic w = (r, w1)" by (metis prod.collapse)
  then have t1: "touches j w w1" for j using port_touches [OF assms(1), of j] by simp
  then have inv1: "inv w1" using touches_inv [OF assms(1,2)] by blast
  have "w' = w1 \<or> w' = snd (lic_NewUUID lic w1)"
    using assms(3) r by (auto split: res.splits prod.splits)
  then have "touches j w w'" for j
    using t1 [of j] uuid_touches [OF inv1, of j] by (auto intro: touches_trans)
  then show ?thesis using entries_untouched [OF assms(1)] by blast
qed

lemma resume_touches:
  assumes "inv w" "valid_id (point_id p)" "resume lic p w = (g, w')"
  shows "touches (point_id p) w w'"
proof (cases p)
  case (AtCount i)
  then show ?thesis using count_touches [OF assms(1), of i] assms(3)
    by (auto simp: Let_def split: prod.splits if_splits)
next
  case (AtPort i)
  then show ?thesis using port_step [OF assms(1)] assms(2,3) by simp
qed (use assms setup_touches start_touches lock_touches unlock_touches kill_touches delete_touches
      touches_refl in \<open>auto dest!: unless_error_state\<close>)

lemma resume_id:
  assumes "resume lic p w = (Goes q, w')"
  shows "point_id q = point_id p"
  using assms found_id
  by (cases p) (auto simp: unless_error_def Let_def split: prod.splits res.splits if_splits)

lemmas adds_none_elem =
  start_adds_none [THEN subsetD, rotated 2] lock_adds_none [THEN subsetD, rotated 2]
  unlock_adds_none [THEN subsetD, rotated 2] kill_adds_none [THEN subsetD, rotated 2]
  delete_adds_none [THEN subsetD, rotated 2]

lemma resume_adds:
  assumes "inv w" "valid_id (point_id p)" "resume lic p w = (g, w')"
    and "\<And>i. p \<noteq> AtCount i" "\<And>inst. p \<noteq> AtSetup inst"
  shows "entries w' \<subseteq> entries w"
proof (cases p)
  case (AtPort i)
  then show ?thesis using port_step [OF assms(1)] assms(2,3) by simp
qed (use assms in \<open>auto dest!: unless_error_state adds_none_elem\<close>)

text \<open>
  A step either keeps the number of instances plus admitted calls, or it has just seen that there
  is room for an instance.
\<close>

lemma resume_balance:
  assumes "inv w" "valid_id (point_id p)" "resume lic p w = (g, w')"
  shows "card (entries w') + admitted (next_point g) \<le> card (entries w) + admitted (Some p) \<or>
    int (card (entries w')) < ServiceInstanceLimit (lic_RedisConfiguration lic)"
proof (cases p)
  case (AtCount i)
  then show ?thesis using count_entries [OF assms(1)] assms(3)
    by (auto simp: Let_def split: prod.splits if_splits)
next
  case (AtSetup inst)
  then have "entries w' \<subseteq> insert (inst_ID inst) (entries w)"
    using touches_entries [OF assms(1) resume_touches [OF assms]] by auto
  then have "card (entries w') \<le> card (insert (inst_ID inst) (entries w))"
    using finite_entries by (intro card_mono) auto
  moreover have "admitted (next_point g) = 0"
    using AtSetup assms(3) by (auto simp: unless_error_def split: prod.splits res.splits)
  ultimately show ?thesis using AtSetup finite_entries
    by (simp add: card_insert_if split: if_splits)
next
  case (AtPort i)
  then show ?thesis using port_step [OF assms(1)] assms(2,3) admitted_le by simp
qed (use card_mono [OF finite_entries resume_adds [OF assms]] assms(3) in
      \<open>auto simp: unless_error_def split: prod.splits res.splits\<close>)

definition concurrent_inv :: "'a system \<Rightarrow> bool" where
  "concurrent_inv s \<longleftrightarrow>
     inv (snd s) \<and> (\<forall>p. Some p \<in> set (fst s) \<longrightarrow> valid_id (point_id p)) \<and>
     int (card (entries (snd s))) + int (pending (fst s)) <
       ServiceInstanceLimit (lic_RedisConfiguration lic) + int (length (fst s))"

lemma concurrent_inv_step:
  assumes "concurrent_step lic valid_id s s'" "concurrent_inv s"
  shows "concurrent_inv s' \<and> length (fst s') = length (fst s)"
proof -
  obtain ps w ps' w' where s: "s = (ps, w)" "s' = (ps', w')" by (metis prod.exhaust)
  note i = assms(2) [unfolded concurrent_inv_def s, simplified]
  have "concurrent_step lic valid_id (ps, w) (ps', w')" using assms(1) s by simp
  then show ?thesis
  proof (cases rule: concurrent_step_cases)
    case (call k p)
    then have "pending ps' = pending ps" using pending_update [of k ps "Some p"] by simp
    then show ?thesis using call i set_update_subset_insert [of ps k "Some p"]
      by (auto simp: s concurrent_inv_def)
  next
    case (step k p g)
    have v: "valid_id (point_id p)" using step i by (metis nth_mem)
    have "valid_id (point_id q)" if "g = Goes q" for q using resume_id v step(3) that by simp
    then have "valid_id (point_id q)" if "Some q \<in> set ps'" for q
      using that i step(4) set_update_subset_insert [of ps k "next_point g"]
      by (cases g) auto
    moreover have "inv w'" using touches_inv [OF _ v resume_touches [OF _ v step(3)]] i by blast
    moreover have "pending ps' + admitted (Some p) = pending ps + admitted (next_point g)"
      using pending_update [OF step(1), of "next_point g"] step by simp
    then have "int (card (entries w')) + int (pending ps') <
        ServiceInstanceLimit (lic_RedisConfiguration lic) + int (length ps)"
      using resume_balance [OF _ v step(3)] i pending_le [of ps'] step(4) by auto
    ultimately show ?thesis using step(4) by (simp add: s concurrent_inv_def)
  qed
qed

lemma concurrent_inv_run:
  assumes "concurrent_run lic valid_id s s'" "concurrent_inv s"
  shows "concurrent_inv s' \<and> length (fst s') = length (fst s)"
  using assms by (induction rule: rtranclp_induct) (auto dest: concurrent_inv_step)

lemma limit_exceeded_by_less_than_the_handlers:
  assumes "inv w" "within_limit w" "0 < n" "concurrent_run lic valid_id (replicate n None, w) (ps, w')"
  shows "int (card (entries w')) + int (pending ps) <
    ServiceInstanceLimit (lic_RedisConfiguration lic) + int n"
proof -
  have "concurrent_inv (replicate n None, w)"
    using assms(1-3) by (simp add: concurrent_inv_def within_limit_def)
  from concurrent_inv_run [OF assms(4) this] show ?thesis by (simp add: concurrent_inv_def)
qed

end

section \<open>The deployed broker\<close>

lemma RemoveAll_entries: "dir_entries (snd (os_RemoveAll p w)) q \<subseteq> dir_entries w q"
  by (auto simp: os_RemoveAll_def Let_def dir_entries_def node_at_remove_tree split: res.splits if_splits)

lemma Remove_entries: "dir_entries (snd (os_Remove p w)) q \<subseteq> dir_entries w q"
  by (auto simp: os_Remove_def change_path_def dir_entries_def node_at_del
      dest!: walk_Ok file_nonroot split: res.splits node.splits option.splits if_splits)

lemma dir_entries_log [simp]: "dir_entries (log_write l a e d w) q = dir_entries w q"
  by (simp add: dir_entries_def)

lemma Delete_entries: "dir_entries (snd (Delete repo i w)) q \<subseteq> dir_entries w q"
proof -
  have "dir_entries (remove_pidfile repo i v) q \<subseteq> dir_entries v q" for v
    using Remove_entries [of "InstancePidFilePath repo i" v q]
    by (simp add: dir_entries_def remove_pidfile_node)
  then show ?thesis unfolding Delete_def
    by (intro io_bind_state [of "\<lambda>v. dir_entries v q \<subseteq> dir_entries w q"])
      (auto dest: subsetD [OF RemoveAll_entries] subsetD)
qed

lemma Kill_entries: "dir_entries (snd (Kill (processController pf repo) inst w)) q = dir_entries w q"
  by (simp add: processController_def Kill_def Process_Kill_def os_Kill_def split: res.splits)

lemma frame_entries:
  "fs_frame {q @ [i, x]} w w' \<Longrightarrow> dir_entries w' q = dir_entries w q"
  by (simp add: fs_frame_def dir_entries_def)

lemma start_entries:
  assumes "deployed pf config repo w" "simple_name (inst_ID inst)"
  shows "dir_entries (snd (startLocalInstance (localCreator pf config repo) inst w)) (data_comps repo) =
    dir_entries w (data_comps repo)"
  using shared.touches_entries [OF assms(1) deployedD(6) [OF assms, of w]] deployedD(7) [OF assms, of w]
  by (auto simp: dir_entries_def)

interpretation many: concurrent_repository "localCreator pf config repo" "deployed pf config repo"
  simple_name "touches_only repo" "\<lambda>w. dir_entries w (data_comps repo)"
  for pf config repo
proof (unfold_locales, goal_cases)
  case (1 w inst) then show ?case by (simp add: start_entries)
next
  case (2 w inst) then show ?case
    using Create_frame [of w "lockFilePath repo inst"]
    by (simp add: deployedD Lock_def path_simps frame_entries)
next
  case (3 w inst) then show ?case
    using Remove_entries by (simp add: Unlock_def)
next
  case (4 w inst) then show ?case by (simp add: Kill_entries)
next
  case (5 w i) then show ?case by (simp add: Delete_entries)
qed

text \<open>
  C18. Under \<open>n\<close> handlers that serve requests at the same time, in any interleaving, the number of
  instances never exceeds the limit by \<open>n\<close> or more; the calls that have passed the limit and have
  not set their instance up yet are counted too. With one handler this is the limit itself.
\<close>

theorem concurrent_limit_bound:
  assumes "deployed pf config repo w" "0 < n"
    and "int (card (dir_entries w (data_comps repo))) \<le> ServiceInstanceLimit (RedisConfiguration config)"
    and "concurrent_run (localCreator pf config repo) simple_name (replicate n None, w) (ps, w')"
  shows "int (card (dir_entries w' (data_comps repo))) + int (pending ps) <
    ServiceInstanceLimit (RedisConfiguration config) + int n"
  using many.limit_exceeded_by_less_than_the_handlers [OF assms(1) _ assms(2,4)] assms(3)
  by (simp add: shared.within_limit_def)

text \<open>
  A broker with room for one instance on \<open>example_disk\<close>, and two instances that it is asked for at
  the same time.
\<close>

definition example_single :: config where
  "example_single = example_config\<lparr>RedisConfiguration :=
     (RedisConfiguration example_config)\<lparr>ServiceInstanceLimit := 1\<rparr>\<rparr>"

definition example_requested :: "string \<Rightarrow> redis_instance" where
  "example_requested i =
     \<lparr>inst_ID = i, inst_Host = ''10.0.0.7'', inst_Port = 40001, inst_Password = ''pw''\<rparr>"

lemma example_single_deployed: "deployed example_platform example_single example_repo example_disk"
proof -
  have "startLocalInstance (localCreator example_platform example_single example_repo) =
      startLocalInstance (localCreator example_platform example_config example_repo)"
    by (simp add: fun_eq_iff startLocalInstance_def example_single_def)
  then show ?thesis using example_deployed by (simp add: deployed_def platform_contract_def)
qed

lemma example_single_room:
  "card (dir_entries example_disk (data_comps example_repo)) = 0"
  "ServiceInstanceLimit (RedisConfiguration example_single) = 1"
proof -
  have "length (child_names example_disk (data_comps example_repo)) = 0" by code_simp
  then show "card (dir_entries example_disk (data_comps example_repo)) = 0"
    using length_child_names [OF example_disk_wf] by simp
  show "ServiceInstanceLimit (RedisConfiguration example_single) = 1" by code_simp
qed

lemma example_counted: "InstanceCount example_repo example_disk = ((0, []), example_disk)"
proof -
  have "ioutil_ReadDir (InstanceDataDirectory (RedisConf example_repo)) example_disk = Ok []" by code_simp
  then show ?thesis by (simp add: InstanceCount_def AllInstances_def allInstances_def)
qed

lemma example_chosen:
  "resume (localCreator example_platform example_single example_repo) (AtPort i) w =
     (Goes (AtSetup (example_requested i)), w)"
proof -
  have "getPortFromAddr ''[::]:40001'' = Ok 40001"
    "sc_Host (RedisConfiguration example_single) = ''10.0.0.7''" by code_simp+
  then show ?thesis
    by (simp add: FindFreePort_def example_platform_def example_requested_def)
qed

lemma two_creates_run:
  assumes "valid i" "valid j"
  shows "concurrent_run lic valid ([None, None], w)
    (run_schedule lic ks ([Some (AtCount i), Some (AtCount j)], w))"
proof -
  have "concurrent_step lic valid ([None, None], w) ([Some (AtCount i), None], w)"
    using call_create [of 0 "[None, None]"] assms(1) by simp
  moreover have "concurrent_step lic valid ([Some (AtCount i), None], w) ([Some (AtCount i), Some (AtCount j)], w)"
    using call_create [of 1 "[Some (AtCount i), None]"] assms(2) by simp
  ultimately show ?thesis by (metis converse_rtranclp_into_rtranclp run_schedule_runs)
qed

theorem concurrent_limit_bound_witness:
  "int (card (dir_entries example_disk (data_comps example_repo))) +
     int (pending [Some (AtPort ''i1''), Some (AtPort ''i2'')]) < 3"
proof -
  let ?lic = "localCreator example_platform example_single example_repo"
  have "run_schedule ?lic [0, 1] ([Some (AtCount ''i1''), Some (AtCount ''i2'')], example_disk) =
      ([Some (AtPort ''i1''), Some (AtPort ''i2'')], example_disk)"
    by (simp add: example_counted example_single_room(2))
  then have "concurrent_run ?lic simple_name ([None, None], example_disk)
      ([Some (AtPort ''i1''), Some (AtPort ''i2'')], example_disk)"
    using two_creates_run [where valid = simple_name, OF example_ids(1,2)] by metis
  then have "concurrent_run ?lic simple_name (replicate 2 None, example_disk)
      ([Some (AtPort ''i1''), Some (AtPort ''i2'')], example_disk)"
    by (simp add: numeral_2_eq_2)
  from concurrent_limit_bound [OF example_single_deployed _ _ this] show ?thesis
    by (simp add: example_single_room)
qed

lemma create_adds_entry:
  assumes "deployed pf config repo w" "simple_name i"
    and "resume (localCreator pf config repo) (AtPort i) w = (Goes (AtSetup a), w')"
    and "Setup repo a w' = (Ok (), w'')"
  shows "deployed pf config repo w''"
    and "dir_entries w'' (data_comps repo) = insert i (dir_entries w (data_comps repo))"
proof -
  have id: "inst_ID a = i" using many.resume_id [OF assms(3)] by simp
  have w': "touches_only repo i w w'" "dir_entries w' (data_comps repo) = dir_entries w (data_comps repo)"
    using many.port_step [OF assms(1,2,3)] by simp_all
  have dep: "deployed pf config repo w'" using deployed_touches [OF assms(1) w'(1)] .
  have t: "touches_only repo i w' w''"
    using keeps_touches [OF Setup_local [OF deployedD(1) [OF dep], of a w']] id assms(2,4) by simp
  then show "deployed pf config repo w''" using deployed_touches [OF dep] by blast
  have "i \<in> dir_entries w'' (data_comps repo)"
    using Setup_entry [OF deployedD(1) [OF dep] _ assms(4)] id assms(2) by simp
  then show "dir_entries w'' (data_comps repo) = insert i (dir_entries w (data_comps repo))"
    using shared.touches_entries [OF dep t] w'(2) by blast
qed

text \<open>
  C19. The bound is reached. When two calls of \<open>Create\<close> both look at the count before either of them
  sets its instance up, and there is room for one instance, both are admitted: after the two
  \<open>Setup\<close>s there is one instance more than the limit allows.
\<close>

theorem concurrent_creates_exceed_limit:
  assumes "deployed pf config repo w" "simple_name i" "simple_name j" "i \<noteq> j"
    and "i \<notin> dir_entries w (data_comps repo)" "j \<notin> dir_entries w (data_comps repo)"
    and "int (card (dir_entries w (data_comps repo))) + 1 = ServiceInstanceLimit (RedisConfiguration config)"
    and "InstanceCount repo w = ((n, []), w1)" "InstanceCount repo w1 = ((m, []), w2)"
    and "resume (localCreator pf config repo) (AtPort i) w2 = (Goes (AtSetup a), w3)"
    and "Setup repo a w3 = (Ok (), w4)"
    and "resume (localCreator pf config repo) (AtPort j) w4 = (Goes (AtSetup b), w5)"
    and "Setup repo b w5 = (Ok (), w6)"
  shows "concurrent_run (localCreator pf config repo) simple_name
      ([None, None], w) ([Some (AtStart a), Some (AtStart b)], w6) \<and>
    int (card (dir_entries w6 (data_comps repo))) =
      ServiceInstanceLimit (RedisConfiguration config) + 1"
proof
  let ?lic = "localCreator pf config repo" and ?E = "\<lambda>w. dir_entries w (data_comps repo)"
  have logs: "only_logs w w1" "only_logs w1 w2"
    using InstanceCount_logs [of w repo] InstanceCount_logs [of w1 repo] assms(8,9) by simp_all
  have dep1: "deployed pf config repo w1" by (rule deployed_touches [OF assms(1) only_logs_touches [OF logs(1)]])
  have dep2: "deployed pf config repo w2" by (rule deployed_touches [OF dep1 only_logs_touches [OF logs(2)]])
  have count: "n = int (card (?E w))" "m = int (card (?E w))"
    using shared.count_entries [OF assms(1)] shared.count_entries [OF dep1] assms(8,9) only_logs_entries [OF logs(1)]
    by simp_all
  have "run_schedule ?lic [0, 1, 0, 0, 1, 1] ([Some (AtCount i), Some (AtCount j)], w) =
      ([Some (AtStart a), Some (AtStart b)], w6)"
    using assms(7-) count by (simp del: resume.simps(2))
  then show "concurrent_run ?lic simple_name ([None, None], w) ([Some (AtStart a), Some (AtStart b)], w6)"
    using two_creates_run [where valid = simple_name, OF assms(2,3)] by metis
  note one = create_adds_entry [OF dep2 assms(2,10,11)]
  have "?E w6 = insert j (insert i (?E w))"
    using one(2) create_adds_entry(2) [OF one(1) assms(3,12,13)] only_logs_entries logs by metis
  then show "int (card (?E w6)) = ServiceInstanceLimit (RedisConfiguration config) + 1"
    using assms(4-7) shared.finite_entries [of w repo] by simp
qed

theorem concurrent_creates_exceed_limit_witness:
  "\<exists>ps w. concurrent_run (localCreator example_platform example_single example_repo) simple_name
       ([None, None], example_disk) (ps, w) \<and> card (dir_entries w (data_comps example_repo)) = 2"
proof -
  let ?a = "example_requested ''i1''" and ?b = "example_requested ''i2''"
  let ?w4 = "snd (Setup example_repo ?a example_disk)"
  let ?w6 = "snd (Setup example_repo ?b ?w4)"
  have free: "''i1'' \<notin> dir_entries example_disk (data_comps example_repo)"
    "''i2'' \<notin> dir_entries example_disk (data_comps example_repo)"
    using example_single_room(1) shared.finite_entries [of example_disk example_repo] by auto
  have room: "int (card (dir_entries example_disk (data_comps example_repo))) + 1 =
      ServiceInstanceLimit (RedisConfiguration example_single)"
    by (simp add: example_single_room)
  have a: "Setup example_repo ?a example_disk = (Ok (), ?w4)" by (rule eq_pair_fst) code_simp
  have b: "Setup example_repo ?b ?w4 = (Ok (), ?w6)" by (rule eq_pair_fst) code_simp
  from concurrent_creates_exceed_limit [OF example_single_deployed example_ids(1,2) _ free room
      example_counted example_counted example_chosen a example_chosen b]
  show ?thesis by (auto simp: example_single_room(2))
qed

end
