(* ===== verification/Config_Migrator.thy ===== *)
theory Config_Migrator
  imports Shared_Broker
begin

text \<open>
  \<open>src/configmigrator/configmigrator.go\<close> and \<open>src/cmd/configmigrator/main.go\<close>: ports and
  passwords that older releases kept in files of their own move into the \<open>redis.conf\<close> of each
  instance.
\<close>

section \<open>The code\<close>

definition REDIS_PORT_FILENAME :: string where "REDIS_PORT_FILENAME = ''redis-server.port''"

definition REDIS_PASSWORD_FILENAME :: string where
  "REDIS_PASSWORD_FILENAME = ''redis-server.password''"

record config_migrator =
  RedisDataDir :: string

text \<open>The results of the two calls of \<open>os.Remove\<close> are ignored.\<close>

definition moveDataFor :: "string \<Rightarrow> string \<Rightarrow> string \<Rightarrow> world \<Rightarrow> unit res \<times> world" where
  "moveDataFor propertyName fileName redisConfFilePath w =
     (case Conf_Load redisConfFilePath w of
        Err e \<Rightarrow> (Err e, w)
      | Panic m \<Rightarrow> (Panic m, w)
      | Ok redisConf \<Rightarrow>
          if Conf_Get redisConf propertyName \<noteq> '''' then (Ok (), snd (os_Remove fileName w))
          else (case ioutil_ReadFile fileName w of
                  Err e \<Rightarrow> (Err e, w)
                | Panic m \<Rightarrow> (Panic m, w)
                | Ok fileContents \<Rightarrow>
                    io_bind (Conf_Save (Conf_Set propertyName fileContents redisConf) redisConfFilePath w)
                      (\<lambda>_ w. (Ok (), snd (os_Remove fileName w)))))"

definition port_path :: "config_migrator \<Rightarrow> string \<Rightarrow> string" where
  "port_path m n = path_Join [path_Join [RedisDataDir m, n], REDIS_PORT_FILENAME]"

definition password_path :: "config_migrator \<Rightarrow> string \<Rightarrow> string" where
  "password_path m n = path_Join [path_Join [RedisDataDir m, n], REDIS_PASSWORD_FILENAME]"

definition conf_path :: "config_migrator \<Rightarrow> string \<Rightarrow> string" where
  "conf_path m n = path_Join [path_Join [RedisDataDir m, n], ''redis.conf'']"

fun migrate_loop :: "config_migrator \<Rightarrow> string list \<Rightarrow> world \<Rightarrow> unit res \<times> world" where
  "migrate_loop m [] w = (Ok (), w)"
| "migrate_loop m (n # ns) w =
     io_bind (moveDataFor ''port'' (port_path m n) (conf_path m n) w) (\<lambda>_ w.
     io_bind (moveDataFor ''requirepass'' (password_path m n) (conf_path m n) w) (\<lambda>_ w.
       migrate_loop m ns w))"

text \<open>The error of \<open>ReadDir\<close> is ignored: then there is nothing to migrate.\<close>

definition Migrate :: "config_migrator \<Rightarrow> world \<Rightarrow> unit res \<times> world" where
  "Migrate m w =
     (case ioutil_ReadDir (RedisDataDir m) w of
        Ok instanceDirs \<Rightarrow> migrate_loop m instanceDirs w
      | _ \<Rightarrow> (Ok (), w))"

definition configmigrator_main ::
    "(string \<Rightarrow> config res) \<Rightarrow> (string \<Rightarrow> string) \<Rightarrow> world \<Rightarrow> unit res \<times> world" where
  "configmigrator_main yaml_decode env w =
     (case configPath env of
        Ok path \<Rightarrow>
          (let w1 = Logger_Info (''Config File: '' @ path) [] w
           in case ParseConfig yaml_decode path w1 of
                (_, Some e) \<Rightarrow>
                  (Panic ''Loading config file'',
                   log_write FATAL ''Loading config file'' (Some e) [(''broker-config-path'', path)] w1)
              | (config, None) \<Rightarrow>
                  (case Migrate \<lparr>RedisDataDir = InstanceDataDirectory (RedisConfiguration config)\<rparr> w1 of
                     (Ok _, w2) \<Rightarrow> (Ok (), w2)
                   | (Err e, w2) \<Rightarrow>
                       (Panic ''Could not migrate data'',
                        log_write FATAL ''Could not migrate data'' (Some e) [] w2)
                   | (Panic m, w2) \<Rightarrow> (Panic m, w2)))
      | Err e \<Rightarrow> (Err e, w)
      | Panic m \<Rightarrow> (Panic m, w))"

section \<open>One property of one instance\<close>

text \<open>What the configuration becomes: a property that is set stays, another one is read.\<close>

definition moved :: "string \<Rightarrow> string \<Rightarrow> world \<Rightarrow> conf \<Rightarrow> conf res" where
  "moved prop src w c =
     (if Conf_Get c prop \<noteq> '''' then Ok c
      else res_bind (ioutil_ReadFile src w) (\<lambda>v. Ok (Conf_Set prop v c)))"

lemma moveDataFor_frame:
  "fs_frame {resolve (cwd w) conf, resolve (cwd w) src} w (snd (moveDataFor prop src conf w))"
proof -
  let ?D = "{resolve (cwd w) conf, resolve (cwd w) src}"
  have rm: "fs_frame ?D v (snd (os_Remove src v))" if "cwd v = cwd w" for v
    using Remove_frame [of v src] that by (auto intro: fs_frame_mono)
  have sv: "fs_frame ?D w (snd (Conf_Save c conf w))" for c
    using WriteFile_frame [of w conf] by (auto simp: Conf_Save_def intro: fs_frame_mono)
  have "fs_frame ?D w (snd (io_bind (Conf_Save c conf w) (\<lambda>_ w. (Ok (), snd (os_Remove src w)))))" for c
    using sv [of c] rm by (intro io_bind_state [of "fs_frame ?D w"])
      (auto simp: fs_frame_cwd intro: fs_frame_trans)
  with rm [of w] show ?thesis
    by (auto simp: moveDataFor_def split: res.splits)
qed

lemma fs_wf_moveDataFor: "fs_wf w \<Longrightarrow> fs_wf (snd (moveDataFor prop src conf w))"
  by (auto simp: moveDataFor_def Conf_Save_def fs_wf_Remove split: res.splits
      intro!: io_bind_state [of fs_wf] fs_wf_WriteFile)

lemma moveDataFor_Ok:
  assumes wf: "fs_wf w" and run: "moveDataFor prop src conf w = (Ok (), w')"
    and apart: "resolve (cwd w) src \<noteq> resolve (cwd w) conf"
    and vals: "\<And>c. Conf_Load conf w = Ok c \<Longrightarrow> wf_conf c"
      "\<And>v. ioutil_ReadFile src w = Ok v \<Longrightarrow> wf_param \<lparr>Key = prop, Value = v\<rparr>"
  shows "\<exists>c d. Conf_Load conf w = Ok c \<and> moved prop src w c = Ok d \<and> Conf_Load conf w' = Ok d \<and> wf_conf d"
proof -
  obtain c where c: "Conf_Load conf w = Ok c"
    using run by (cases "Conf_Load conf w") (auto simp: moveDataFor_def)
  have kept: "Conf_Load conf (snd (os_Remove src v)) = Ok d"
    if "fs_wf v" "cwd v = cwd w" "Conf_Load conf v = Ok d" for v d
    using Load_frame [OF that(1) fs_wf_Remove [OF that(1)] Remove_frame, of conf src d] apart that by simp
  show ?thesis
  proof (cases "Conf_Get c prop = ''''")
    case False
    then have "w' = snd (os_Remove src w)" using run c by (simp add: moveDataFor_def)
    with False kept [OF wf refl c] show ?thesis using c vals(1) [OF c] by (simp add: moved_def)
  next
    case True
    then obtain v w1 where v: "ioutil_ReadFile src w = Ok v"
      and w1: "Conf_Save (Conf_Set prop v c) conf w = (Ok (), w1)" and w': "w' = snd (os_Remove src w1)"
      using run c by (auto simp: moveDataFor_def io_bind_Ok_iff split: res.splits)
    have readable: "refuses w OpOpen (resolve (cwd w) conf) = None"
      using c wf by (auto simp: Conf_Load_def res_bind_Ok_iff ReadFile_Ok_iff)
    have "fs_wf w1" "cwd w1 = cwd w"
      using fs_wf_WriteFile [OF wf, of conf] WriteFile_frame [of w conf] w1 fs_frame_cwd
      by (auto simp: Conf_Save_def) (metis snd_conv)+
    moreover have "Conf_Load conf w1 = Ok (Conf_Set prop v c)"
      using Load_Save [OF wf wf_conf_Set [OF vals(1) [OF c] vals(2) [OF v]] readable w1] .
    ultimately show ?thesis
      using kept [of w1] w' True v c wf_conf_Set [OF vals(1) [OF c] vals(2) [OF v]] by (simp add: moved_def)
  qed
qed

section \<open>All instances\<close>

definition dir_comps :: "config_migrator \<Rightarrow> string list" where
  "dir_comps m = resolve [] (RedisDataDir m)"

lemma simple_file_names [simp]:
  "simple_name REDIS_PORT_FILENAME" "simple_name REDIS_PASSWORD_FILENAME"
  by (simp_all add: simple_name_def REDIS_PORT_FILENAME_def REDIS_PASSWORD_FILENAME_def)

lemma file_names_differ [simp]:
  "REDIS_PORT_FILENAME \<noteq> ''redis.conf''" "REDIS_PASSWORD_FILENAME \<noteq> ''redis.conf''"
  "REDIS_PORT_FILENAME \<noteq> REDIS_PASSWORD_FILENAME" "REDIS_PASSWORD_FILENAME \<noteq> REDIS_PORT_FILENAME"
  by (simp_all add: REDIS_PORT_FILENAME_def REDIS_PASSWORD_FILENAME_def)

lemma resolve_migrator [path_simps]:
  assumes "absolute (RedisDataDir m)" "simple_name n"
  shows "resolve c (port_path m n) = dir_comps m @ [n, REDIS_PORT_FILENAME]"
    "resolve c (password_path m n) = dir_comps m @ [n, REDIS_PASSWORD_FILENAME]"
    "resolve c (conf_path m n) = dir_comps m @ [n, ''redis.conf'']"
proof -
  have base: "resolve c (path_Join [RedisDataDir m, n]) = dir_comps m @ [n]"
    "absolute (path_Join [RedisDataDir m, n])"
    using assms resolve_absolute [OF assms(1), of c] by (simp_all add: resolve_path_Join dir_comps_def)
  then show "resolve c (port_path m n) = dir_comps m @ [n, REDIS_PORT_FILENAME]"
    "resolve c (password_path m n) = dir_comps m @ [n, REDIS_PASSWORD_FILENAME]"
    "resolve c (conf_path m n) = dir_comps m @ [n, ''redis.conf'']"
    by (simp_all add: port_path_def password_path_def conf_path_def resolve_path_Join)
qed

text \<open>The body of the loop, the files it is about, and what it should leave in \<open>redis.conf\<close>.\<close>

definition migrate_one :: "config_migrator \<Rightarrow> string \<Rightarrow> world \<Rightarrow> unit res \<times> world" where
  "migrate_one m n w =
     io_bind (moveDataFor ''port'' (port_path m n) (conf_path m n) w) (\<lambda>_ w.
       moveDataFor ''requirepass'' (password_path m n) (conf_path m n) w)"

lemma migrate_loop_Cons:
  "migrate_loop m (n # ns) w = io_bind (migrate_one m n w) (\<lambda>_ w. migrate_loop m ns w)"
  by (simp add: migrate_one_def io_bind_assoc)

declare migrate_loop.simps(2) [simp del]

definition files_of :: "config_migrator \<Rightarrow> string \<Rightarrow> string list set" where
  "files_of m n = {dir_comps m @ [n, f] | f. True}"

definition migrated :: "config_migrator \<Rightarrow> string \<Rightarrow> world \<Rightarrow> conf res" where
  "migrated m n w =
     res_bind (Conf_Load (conf_path m n) w) (\<lambda>c.
     res_bind (moved ''port'' (port_path m n) w c) (moved ''requirepass'' (password_path m n) w))"

definition short_value :: "string \<Rightarrow> bool" where
  "short_value v \<longleftrightarrow> wf_value v \<and> int (length v) < 65000"

definition inputs_ok :: "config_migrator \<Rightarrow> string \<Rightarrow> world \<Rightarrow> bool" where
  "inputs_ok m n w \<longleftrightarrow>
     (\<forall>c. Conf_Load (conf_path m n) w = Ok c \<longrightarrow> wf_conf c) \<and>
     (\<forall>v. ioutil_ReadFile (port_path m n) w = Ok v \<longrightarrow> short_value v) \<and>
     (\<forall>v. ioutil_ReadFile (password_path m n) w = Ok v \<longrightarrow> short_value v)"

lemma migrated_params:
  "short_value v \<Longrightarrow> wf_param \<lparr>Key = ''port'', Value = v\<rparr>"
  "short_value v \<Longrightarrow> wf_param \<lparr>Key = ''requirepass'', Value = v\<rparr>"
  by (auto simp: short_value_def wf_key_def skipped_line_def intro!: wf_param_short)

lemma migrate_one_frame:
  assumes "absolute (RedisDataDir m)" "simple_name n"
  shows "fs_frame (files_of m n) w (snd (migrate_one m n w))"
    and "fs_wf w \<Longrightarrow> fs_wf (snd (migrate_one m n w))"
proof -
  have "fs_frame (files_of m n) v (snd (moveDataFor p (port_path m n) (conf_path m n) v))"
    "fs_frame (files_of m n) v (snd (moveDataFor p (password_path m n) (conf_path m n) v))" for p v
    using moveDataFor_frame [of v "conf_path m n" "port_path m n" p]
      moveDataFor_frame [of v "conf_path m n" "password_path m n" p] assms
    by (auto simp: path_simps files_of_def elim!: fs_frame_mono)
  then show "fs_frame (files_of m n) w (snd (migrate_one m n w))"
    unfolding migrate_one_def
    by (intro io_bind_state [of "fs_frame (files_of m n) w"]) (auto intro: fs_frame_trans)
  show "fs_wf w \<Longrightarrow> fs_wf (snd (migrate_one m n w))"
    unfolding migrate_one_def by (intro io_bind_state [of fs_wf]) (simp_all add: fs_wf_moveDataFor)
qed

lemma moved_frame:
  assumes "fs_wf w" "fs_wf w'" "fs_frame D w w'" "resolve (cwd w) p \<notin> D"
  shows "moved k p w' c = Ok d \<longleftrightarrow> moved k p w c = Ok d"
  using ReadFile_frame [OF assms] by (simp add: moved_def res_bind_Ok_iff)

lemma migrate_one_Ok:
  assumes "absolute (RedisDataDir m)" "simple_name n" "fs_wf w" "inputs_ok m n w"
    and run: "migrate_one m n w = (Ok (), w')"
  shows "\<exists>c. migrated m n w = Ok c \<and> Conf_Load (conf_path m n) w' = Ok c"
proof -
  obtain w1 where w1: "moveDataFor ''port'' (port_path m n) (conf_path m n) w = (Ok (), w1)"
    and w': "moveDataFor ''requirepass'' (password_path m n) (conf_path m n) w1 = (Ok (), w')"
    using run by (auto simp: migrate_one_def io_bind_Ok_iff)
  let ?D = "{resolve (cwd w) (conf_path m n), resolve (cwd w) (port_path m n)}"
  have fr: "fs_frame ?D w w1" and wf1: "fs_wf w1"
    using moveDataFor_frame [of w "conf_path m n" "port_path m n" "''port''"] w1
      fs_wf_moveDataFor [OF assms(3), of "''port''" "port_path m n" "conf_path m n"]
    by simp_all
  obtain c d where c: "Conf_Load (conf_path m n) w = Ok c" "moved ''port'' (port_path m n) w c = Ok d"
    "Conf_Load (conf_path m n) w1 = Ok d" "wf_conf d"
    using moveDataFor_Ok [OF assms(3) w1] assms(1,2,4) migrated_params(1)
    by (auto simp: path_simps inputs_ok_def)
  have outside: "resolve (cwd w) (password_path m n) \<notin> ?D" using assms(1,2) by (simp add: path_simps)
  note same = ReadFile_frame [OF assms(3) wf1 fr outside] moved_frame [OF assms(3) wf1 fr outside]
  show ?thesis
    using moveDataFor_Ok [OF wf1 w'] assms(1,2,4) migrated_params(2) c same
    by (auto simp: path_simps inputs_ok_def migrated_def)
qed

lemma other_files:
  assumes "absolute (RedisDataDir m)" "simple_name k" "k \<noteq> n"
  shows "resolve c (port_path m k) \<notin> files_of m n" "resolve c (password_path m k) \<notin> files_of m n"
    "resolve c (conf_path m k) \<notin> files_of m n"
  using assms by (auto simp: path_simps files_of_def)

lemma migrated_other:
  assumes "absolute (RedisDataDir m)" "simple_name k" "k \<noteq> n" "fs_wf w" "fs_wf w'"
    and fr: "fs_frame (files_of m n) w w'"
  shows "inputs_ok m k w \<Longrightarrow> inputs_ok m k w'"
    and "migrated m k w = Ok c \<Longrightarrow> migrated m k w' = Ok c"
    and "Conf_Load (conf_path m k) w = Ok c \<Longrightarrow> Conf_Load (conf_path m k) w' = Ok c"
proof -
  note out = other_files [OF assms(1-3), of "cwd w"]
  note reads = ReadFile_frame [OF assms(4,5) fr out(1)] ReadFile_frame [OF assms(4,5) fr out(2)]
    Load_frame [OF assms(4,5) fr out(3)]
  show "inputs_ok m k w \<Longrightarrow> inputs_ok m k w'" by (simp add: inputs_ok_def reads)
  show "migrated m k w = Ok c \<Longrightarrow> migrated m k w' = Ok c"
    using moved_frame [OF assms(4,5) fr out(1)] moved_frame [OF assms(4,5) fr out(2)]
    by (auto simp: migrated_def res_bind_Ok_iff reads)
  show "Conf_Load (conf_path m k) w = Ok c \<Longrightarrow> Conf_Load (conf_path m k) w' = Ok c"
    by (simp add: reads)
qed

lemma migrate_loop_keeps:
  assumes "absolute (RedisDataDir m)" "simple_name k" "k \<notin> set ns" "\<And>n. n \<in> set ns \<Longrightarrow> simple_name n"
    and "fs_wf w" "migrate_loop m ns w = (Ok (), w')" "Conf_Load (conf_path m k) w = Ok c"
  shows "Conf_Load (conf_path m k) w' = Ok c"
  using assms(3-7)
proof (induction ns arbitrary: w)
  case (Cons n ns)
  obtain w1 where w1: "migrate_one m n w = (Ok (), w1)" and rest: "migrate_loop m ns w1 = (Ok (), w')"
    using Cons.prems(4) by (auto simp: migrate_loop_Cons io_bind_Ok_iff)
  have "fs_wf w1" "fs_frame (files_of m n) w w1"
    using migrate_one_frame [OF assms(1), of n w] Cons.prems w1 by simp_all
  then have "Conf_Load (conf_path m k) w1 = Ok c"
    using migrated_other(3) [OF assms(1,2) _ Cons.prems(3)] Cons.prems(1,5) by auto
  with Cons.IH [OF _ _ \<open>fs_wf w1\<close> rest] Cons.prems(1,2) show ?case by simp
qed simp

lemma migrate_loop_Ok:
  assumes "absolute (RedisDataDir m)" "distinct ns" "\<And>n. n \<in> set ns \<Longrightarrow> simple_name n" "fs_wf w"
    and "\<And>n. n \<in> set ns \<Longrightarrow> inputs_ok m n w" and "migrate_loop m ns w = (Ok (), w')" "k \<in> set ns"
  shows "\<exists>c. migrated m k w = Ok c \<and> Conf_Load (conf_path m k) w' = Ok c"
  using assms(2-)
proof (induction ns arbitrary: w)
  case (Cons n ns)
  obtain w1 where w1: "migrate_one m n w = (Ok (), w1)" and rest: "migrate_loop m ns w1 = (Ok (), w')"
    using Cons.prems(5) by (auto simp: migrate_loop_Cons io_bind_Ok_iff)
  have n: "simple_name n" "inputs_ok m n w" using Cons.prems by simp_all
  have wf1: "fs_wf w1" and fr: "fs_frame (files_of m n) w w1"
    using migrate_one_frame [OF assms(1) n(1), of w] Cons.prems(3) w1 by simp_all
  have one: "\<exists>c. migrated m n w = Ok c \<and> Conf_Load (conf_path m n) w1 = Ok c"
    using migrate_one_Ok [OF assms(1) n(1) Cons.prems(3) n(2) w1] .
  have ns: "distinct ns" "n \<notin> set ns" "\<And>k. k \<in> set ns \<Longrightarrow> simple_name k" using Cons.prems(1,2) by simp_all
  show ?case
  proof (cases "k = n")
    case True
    with one migrate_loop_keeps [OF assms(1) n(1) ns(2,3) wf1 rest] show ?thesis by blast
  next
    case False
    with Cons.prems(6) have k: "k \<in> set ns" "k \<noteq> n" by simp_all
    have "inputs_ok m j w1" if "j \<in> set ns" for j
      using migrated_other(1) [OF assms(1) ns(3) [OF that] _ Cons.prems(3) wf1 fr] Cons.prems(4) that ns(2)
      by auto
    from Cons.IH [OF ns(1,3) wf1 this rest k(1)]
    obtain c where c: "migrated m k w1 = Ok c" "Conf_Load (conf_path m k) w' = Ok c" by auto
    have "fs_frame (files_of m n) w1 w" using fr by (simp add: fs_frame_def same_env_def)
    from migrated_other(2) [OF assms(1) ns(3) [OF k(1)] k(2) wf1 Cons.prems(3) this c(1)] c(2)
    show ?thesis by blast
  qed
qed simp

lemma moved_Ok:
  assumes "moved p f w c = Ok d"
  shows "Conf_Get c p \<noteq> '''' \<and> Conf_Get d p = Conf_Get c p \<or>
      Conf_Get c p = '''' \<and> ioutil_ReadFile f w = Ok (Conf_Get d p)"
    and "k \<noteq> p \<Longrightarrow> getAll d k = getAll c k"
  using assms by (auto simp: moved_def res_bind_Ok_iff Get_Set getAll_Set_other split: if_splits)

lemma Get_getAll: "getAll c k = getAll d k \<Longrightarrow> Conf_Get c k = Conf_Get d k"
  by (simp add: Conf_Get_def)

section \<open>Properties\<close>


definition example_migrator :: config_migrator where
  "example_migrator = \<lparr>RedisDataDir = ''/data''\<rparr>"

definition example_old_disk :: world where
  "example_old_disk = machine
     [([''data''], DirNode (octal 7 5 5)), ([''data'', ''i1''], DirNode (octal 7 5 5)),
      ([''data'', ''i1'', ''redis.conf''], FileNode (octal 6 4 4) ''maxmemory 1''),
      ([''data'', ''i1'', ''redis-server.port''], FileNode (octal 6 4 4) ''6381''),
      ([''data'', ''i1'', ''redis-server.password''], FileNode (octal 6 4 4) ''pw'')]"

end
