(* ===== verification/Process_Monitor.thy ===== *)
theory Process_Monitor
  imports Shared_Broker
begin

text \<open>
  \<open>src/cmd/processmonitor/main.go\<close>: the process that keeps the instances of the shared plan
  running. It shares the disk with the broker, and the lock file of an instance is all that keeps
  the two apart.
\<close>

section \<open>The code\<close>

text \<open>\<open>logger.Fatal\<close> logs the error and panics.\<close>

definition fatal :: "string \<Rightarrow> (string \<times> string) list \<Rightarrow> unit res \<times> world \<Rightarrow> unit res \<times> world" where
  "fatal msg d p =
     (case p of
        (Err e, w) \<Rightarrow> (Panic msg, log_write FATAL msg (Some e) d w)
      | (Ok _, w) \<Rightarrow> (Ok (), w)
      | (Panic m, w) \<Rightarrow> (Panic m, w))"

definition ensureRunning ::
    "os_process_controller \<Rightarrow> local_repository \<Rightarrow> redis_instance \<Rightarrow> world \<Rightarrow> unit res \<times> world" where
  "ensureRunning ctl repo inst w =
     (let configPath = InstanceConfigPath repo (inst_ID inst);
          instanceDataDir = InstanceDataDir repo (inst_ID inst);
          pidfilePath = InstancePidFilePath repo (inst_ID inst);
          logfilePath = InstanceLogFilePath repo (inst_ID inst)
      in fatal ''Error starting instance'' [(''instance'', inst_ID inst)]
           (EnsureRunning ctl inst configPath instanceDataDir pidfilePath logfilePath w))"

definition ensureRunningIfNotLocked ::
    "os_process_controller \<Rightarrow> local_repository \<Rightarrow> redis_instance \<Rightarrow> world \<Rightarrow> unit res \<times> world" where
  "ensureRunningIfNotLocked ctl repo inst w =
     (if is_ok (os_Stat (path_Join [InstanceBaseDir repo (inst_ID inst), ''lock'']) w) then (Ok (), w)
      else ensureRunning ctl repo inst w)"

definition copyConfigFile ::
    "local_repository \<Rightarrow> redis_instance \<Rightarrow> world \<Rightarrow> unit res \<times> world" where
  "copyConfigFile repo inst w =
     io_bind (fatal ''Error creating instance directories'' [(''instance'', inst_ID inst)]
       (EnsureDirectoriesExist repo inst w)) (\<lambda>_ w.
     fatal ''Error writing redis config'' [(''instance'', inst_ID inst)] (WriteConfigFile repo inst w))"

text \<open>A loop over the instances; a panic ends the program.\<close>

fun for_each :: "(redis_instance \<Rightarrow> world \<Rightarrow> unit res \<times> world) \<Rightarrow> redis_instance list \<Rightarrow> world \<Rightarrow>
    unit res \<times> world" where
  "for_each f [] w = (Ok (), w)"
| "for_each f (inst # insts) w = io_bind (f inst w) (\<lambda>_ w. for_each f insts w)"

text \<open>
  One turn of the endless loop. \<open>skipProcessCheck\<close> is set by the goroutine that waits for
  \<open>SIGUSR1\<close>; its value is an argument.
\<close>

definition monitor_round ::
    "os_process_controller \<Rightarrow> local_repository \<Rightarrow> bool \<Rightarrow> world \<Rightarrow> unit res \<times> world" where
  "monitor_round ctl repo skipProcessCheck w =
     (if skipProcessCheck then (Ok (), Logger_Info ''Skipping instance check'' [] w)
      else (let ((instances, _), w1) = AllInstances repo w
            in for_each (ensureRunningIfNotLocked ctl repo) instances w1))"

text \<open>The endless loop, for as many turns as there are values of the flag.\<close>

fun monitor_loop ::
    "os_process_controller \<Rightarrow> local_repository \<Rightarrow> (duration \<Rightarrow> world \<Rightarrow> world) \<Rightarrow> duration \<Rightarrow> bool list \<Rightarrow>
     world \<Rightarrow> unit res \<times> world" where
  "monitor_loop ctl repo sleep interval [] w = (Ok (), w)"
| "monitor_loop ctl repo sleep interval (skip # skips) w =
     io_bind (monitor_round ctl repo skip w) (\<lambda>_ w.
       monitor_loop ctl repo sleep interval skips (sleep interval w))"

definition monitor_main ::
    "platform \<Rightarrow> (string \<Rightarrow> config res) \<Rightarrow> (string \<Rightarrow> string) \<Rightarrow> bool list \<Rightarrow> world \<Rightarrow> unit res \<times> world" where
  "monitor_main pf yaml_decode env skips w =
     (case configPath env of
        Ok path \<Rightarrow>
          (case ParseConfig yaml_decode path w of
             (_, Some e) \<Rightarrow>
               (Panic ''could not parse config file'',
                log_write FATAL ''could not parse config file'' (Some e) [(''config-path'', path)] w)
           | (config, None) \<Rightarrow>
               (let w1 = Logger_Info ''Starting process monitor'' [] w;
                    repo = setPidDir env (NewLocalRepository (RedisConfiguration config));
                    ctl = processController pf repo;
                    checkInterval = second * of_int (ProcessCheckIntervalSeconds (RedisConfiguration config));
                    ((instances, _), w2) = AllInstancesVerbose repo w1
                in io_bind (for_each (copyConfigFile repo) instances w2) (\<lambda>_ w.
                     monitor_loop ctl repo (pf_sleep pf) checkInterval skips w)))
      | Err e \<Rightarrow> (Err e, w)
      | Panic m \<Rightarrow> (Panic m, w))"

section \<open>Locked instances are left alone\<close>

text \<open>What is relied on: starting a server for an instance touches only that instance's files.\<close>

definition start_local :: "os_process_controller \<Rightarrow> local_repository \<Rightarrow> bool" where
  "start_local ctl repo \<longleftrightarrow>
     (\<forall>inst t w. simple_name (inst_ID inst) \<longrightarrow>
        touches_only repo (inst_ID inst) w
          (snd (StartAndWaitUntilReady ctl inst (InstanceConfigPath repo (inst_ID inst))
             (InstanceDataDir repo (inst_ID inst)) (InstanceLogFilePath repo (inst_ID inst)) t w))) \<and>
     (\<forall>inst w. snd (PingFunc ctl inst w) = w)"

lemma touches_only_log [simp]:
  "touches_only repo i w (log_write l a e d v) = touches_only repo i w v"
  by (simp add: touches_only_iff)

lemma touches_only_log_left [simp]:
  "touches_only repo i (log_write l a e d w) v = touches_only repo i w v"
  by (simp add: touches_only_iff)

lemma fatal_world [simp]: "touches_only repo i w (snd (fatal m d p)) = touches_only repo i w (snd p)"
  by (simp add: fatal_def split: prod.split res.split)

lemma EnsureRunning_touches:
  assumes "repo_ok repo" "simple_name (inst_ID inst)" "start_local ctl repo"
  shows "touches_only repo (inst_ID inst) w (snd (EnsureRunning ctl inst
    (InstanceConfigPath repo (inst_ID inst)) (InstanceDataDir repo (inst_ID inst))
    (InstancePidFilePath repo (inst_ID inst)) (InstanceLogFilePath repo (inst_ID inst)) w))"
proof -
  let ?i = "inst_ID inst"
  let ?conf = "InstanceConfigPath repo ?i" and ?dir = "InstanceDataDir repo ?i"
    and ?pid = "InstancePidFilePath repo ?i" and ?logf = "InstanceLogFilePath repo ?i"
  have start: "touches_only repo ?i v (snd (StartAndWaitUntilReady ctl inst ?conf ?dir ?logf t v))" for t v
    using assms(2,3) by (simp add: start_local_def)
  have rm: "touches_only repo ?i v (snd (os_Remove ?pid v))" for v
    using Remove_frame [of v ?pid] assms(1,2)
    by (intro keeps_touches)
      (auto simp: keeps_local_def path_simps fs_wf_Remove intro: fs_frame_single_local)
  have missing: "touches_only repo ?i v (snd (start_missing ctl inst ?conf ?dir ?logf v))" for v
    using start [of "Logger_Info ''redis instance is not running'' [(''instance'', ?i)] v"]
    by (simp add: start_missing_def)
  have stale: "touches_only repo ?i v (snd (restart_stale ctl inst ?conf ?dir ?pid ?logf v))" for v
  proof -
    obtain r v' where r: "os_Remove ?pid (log_write ERROR ''failed to PING redis-server'' None
        [(''instance'', ?i)] v) = (r, v')" by (metis prod.collapse)
    then have "touches_only repo ?i v v'" using rm by (metis snd_conv touches_only_log_left)
    moreover have "touches_only repo ?i v' (snd (StartAndWaitUntilReady ctl inst ?conf ?dir ?logf t
        (log_write l a e d v')))" for t l a e d
      using start [of "log_write l a e d v'"] by simp
    ultimately show ?thesis
      using r by (cases r) (auto simp: restart_stale_def Let_def intro: touches_only_trans)
  qed
  have ping: "snd (PingFunc ctl inst w) = w" using assms(3) by (simp add: start_local_def)
  show ?thesis
  proof (cases "InstanceInformer ctl ?i w")
    case (Ok p)
    with missing stale ping show ?thesis
      by (cases "PingFunc ctl inst w"; cases "fst (PingFunc ctl inst w)") (auto simp: EnsureRunning_def)
  next
    case (Err e)
    with missing [of "log_write ERROR ''redis instance has no pidfile'' (Some e) [(''instance'', ?i)] w"]
    show ?thesis by (simp add: EnsureRunning_def)
  qed (simp add: EnsureRunning_def)
qed

definition undisturbed :: "local_repository \<Rightarrow> string \<Rightarrow> world \<Rightarrow> world \<Rightarrow> bool" where
  "undisturbed repo i w v \<longleftrightarrow>
     fs_wf v \<and> refuses v = refuses w \<and> (\<forall>q \<in> instance_area repo i. node_at v q = node_at w q)"

lemma touches_undisturbed:
  assumes "repo_ok repo" "i \<noteq> j" "undisturbed repo i w v" "touches_only repo j v v'"
  shows "undisturbed repo i w v'"
  using assms frames_apart [OF assms(1) _ assms(2)] by (auto simp: undisturbed_def touches_only_iff)

lemma ensureRunning_touches:
  assumes "repo_ok repo" "simple_name (inst_ID inst)" "start_local ctl repo"
  shows "touches_only repo (inst_ID inst) w (snd (ensureRunning ctl repo inst w))"
  using EnsureRunning_touches [OF assms] by (simp add: ensureRunning_def)

lemma ensureRunningIfNotLocked_touches:
  assumes "repo_ok repo" "simple_name (inst_ID inst)" "start_local ctl repo"
  shows "touches_only repo (inst_ID inst) w (snd (ensureRunningIfNotLocked ctl repo inst w))"
  using ensureRunning_touches [OF assms] by (simp add: ensureRunningIfNotLocked_def)

text \<open>The lock as the monitor sees it.\<close>

definition locked :: "local_repository \<Rightarrow> string \<Rightarrow> world \<Rightarrow> bool" where
  "locked repo i w \<longleftrightarrow> is_ok (os_Stat (path_Join [InstanceBaseDir repo i, ''lock'']) w)"

lemma locked_iff:
  assumes "repo_ok repo" "simple_name i" "fs_wf w"
  shows "locked repo i w \<longleftrightarrow> refuses w OpStat (data_comps repo @ [i, ''lock'']) = None \<and>
    node_at w (data_comps repo @ [i, ''lock'']) \<noteq> None"
proof -
  have "absolute (path_Join [InstanceBaseDir repo i, ''lock''])" using assms(1) by simp
  then have "path_Join [InstanceBaseDir repo i, ''lock''] \<noteq> ''''" by (rule absolute_nonempty)
  moreover have "resolve (cwd w) (path_Join [InstanceBaseDir repo i, ''lock'']) = data_comps repo @ [i, ''lock'']"
    using resolve_instance_paths(4) [OF assms(1,2), of "\<lparr>inst_ID = i, inst_Host = [], inst_Port = 0, inst_Password = []\<rparr>"]
    by (simp add: lockFilePath_def)
  ultimately show ?thesis
    using assms(3) by (auto simp: locked_def is_ok_iff os_Stat_Ok_iff)
qed

lemma undisturbed_locked:
  assumes "repo_ok repo" "simple_name i" "fs_wf w" "undisturbed repo i w v"
  shows "locked repo i v = locked repo i w"
  using assms by (simp add: locked_iff undisturbed_def)

lemma for_each_undisturbed:
  assumes "repo_ok repo" "start_local ctl repo" "fs_wf w" "simple_name i" "locked repo i w"
    and "\<And>inst. inst \<in> set insts \<Longrightarrow> simple_name (inst_ID inst)" "undisturbed repo i w v"
  shows "undisturbed repo i w (snd (for_each (ensureRunningIfNotLocked ctl repo) insts v))"
  using assms(6,7)
proof (induction insts arbitrary: v)
  case (Cons inst insts)
  have "undisturbed repo i w (snd (ensureRunningIfNotLocked ctl repo inst v))"
  proof (cases "inst_ID inst = i")
    case True
    then have "snd (ensureRunningIfNotLocked ctl repo inst v) = v"
      using undisturbed_locked [OF assms(1,4,3) Cons.prems(2)] assms(5)
      by (simp add: ensureRunningIfNotLocked_def locked_def)
    with Cons.prems show ?thesis by simp
  next
    case False
    have "simple_name (inst_ID inst)" using Cons.prems(1) by simp
    from ensureRunningIfNotLocked_touches [OF assms(1) this assms(2)] show ?thesis
      using touches_undisturbed [OF assms(1) False [symmetric] Cons.prems(2)] by blast
  qed
  with Cons show ?case
    by (simp, intro io_bind_state [of "undisturbed repo i w"]) simp_all
qed simp

text \<open>The instances a round sees.\<close>

lemma AllInstances_ids:
  assumes "repo_ok repo" "fs_wf w" "inst \<in> set (fst (fst (AllInstances repo w)))"
  shows "inst_ID inst \<in> dir_entries w (data_comps repo)"
    and "FindByID repo (inst_ID inst) w = Ok inst"
proof -
  let ?dir = "InstanceDataDirectory (RedisConf repo)"
  obtain names n where names: "ioutil_ReadDir ?dir w = Ok names" and n: "n \<in> set names"
    and inst: "inst \<in> set (ok_value (FindByID repo n w))"
    using assms(3) allInstances_spec [of repo False w]
    by (cases "ioutil_ReadDir ?dir w") (auto simp: AllInstances_def)
  have found: "FindByID repo n w = Ok inst" using inst by (cases "FindByID repo n w") auto
  then have id: "inst_ID inst = n" by (rule FindByID_id)
  have "set names = dir_entries w (data_comps repo)"
    using names assms(1,2) by (simp add: ReadDir_Ok_iff path_simps set_child_names)
  with n id found show "inst_ID inst \<in> dir_entries w (data_comps repo)"
    "FindByID repo (inst_ID inst) w = Ok inst" by simp_all
qed

lemma concat_ok_values_ids:
  "map inst_ID (concat (map (\<lambda>n. ok_value (FindByID repo n w)) ns)) =
     filter (\<lambda>n. is_ok (FindByID repo n w)) ns"
proof (induction ns)
  case (Cons n ns)
  then show ?case by (cases "FindByID repo n w") (auto dest: FindByID_id)
qed simp

lemma AllInstances_distinct:
  assumes "repo_ok repo" "fs_wf w"
  shows "distinct (map inst_ID (fst (fst (AllInstances repo w))))"
proof (cases "ioutil_ReadDir (InstanceDataDirectory (RedisConf repo)) w")
  case (Ok names)
  then have "distinct names"
    using assms distinct_child_names [OF assms(2)] by (simp add: ReadDir_Ok_iff path_simps)
  with Ok show ?thesis
    using allInstances_spec [of repo False w] by (simp add: AllInstances_def concat_ok_values_ids)
qed (use allInstances_spec [of repo False w] in \<open>simp_all add: AllInstances_def\<close>)

lemma round_cases:
  "monitor_round ctl repo False w =
     for_each (ensureRunningIfNotLocked ctl repo) (fst (fst (AllInstances repo w))) (snd (AllInstances repo w))"
  by (cases "AllInstances repo w") (auto simp: monitor_round_def)

section \<open>A round brings every unlocked instance up\<close>

text \<open>
  What is relied on for that: starting a server ends no process, a server whose start succeeded
  runs, and an instance that answers still does when another instance's files change.
\<close>

definition servers_reliable :: "os_process_controller \<Rightarrow> local_repository \<Rightarrow> bool" where
  "servers_reliable ctl repo \<longleftrightarrow>
     (\<forall>inst conf dir logf t w.
        set (procs w) \<subseteq> set (procs (snd (StartAndWaitUntilReady ctl inst conf dir logf t w)))) \<and>
     (\<forall>inst t w w'. simple_name (inst_ID inst) \<longrightarrow>
        StartAndWaitUntilReady ctl inst (InstanceConfigPath repo (inst_ID inst))
        (InstanceDataDir repo (inst_ID inst)) (InstanceLogFilePath repo (inst_ID inst)) t w = (Ok (), w') \<longrightarrow>
        running ctl inst w') \<and>
     (\<forall>inst j w w'. j \<noteq> inst_ID inst \<longrightarrow> touches_only repo j w w' \<longrightarrow> set (procs w) \<subseteq> set (procs w') \<longrightarrow>
        fst (PingFunc ctl inst w) = Ok () \<longrightarrow> fst (PingFunc ctl inst w') = Ok ()) \<and>
     (\<forall>inst l a e d w. fst (PingFunc ctl inst (log_write l a e d w)) = fst (PingFunc ctl inst w))"

lemma servers_reliableD:
  assumes "servers_reliable ctl repo"
  shows "set (procs w) \<subseteq> set (procs (snd (StartAndWaitUntilReady ctl inst conf dir logf t w)))"
    and "simple_name (inst_ID inst) \<Longrightarrow> StartAndWaitUntilReady ctl inst (InstanceConfigPath repo (inst_ID inst))
        (InstanceDataDir repo (inst_ID inst)) (InstanceLogFilePath repo (inst_ID inst)) t w = (Ok (), w') \<Longrightarrow>
        running ctl inst w'"
    and "j \<noteq> inst_ID inst \<Longrightarrow> touches_only repo j w w' \<Longrightarrow> set (procs w) \<subseteq> set (procs w') \<Longrightarrow>
        fst (PingFunc ctl inst w) = Ok () \<Longrightarrow> fst (PingFunc ctl inst w') = Ok ()"
    and "fst (PingFunc ctl inst (log_write l a e d w)) = fst (PingFunc ctl inst w)"
proof -
  note parts = assms [unfolded servers_reliable_def]
  show "set (procs w) \<subseteq> set (procs (snd (StartAndWaitUntilReady ctl inst conf dir logf t w)))"
    by (rule parts [THEN conjunct1, rule_format])
  show "running ctl inst w'" if "simple_name (inst_ID inst)"
      "StartAndWaitUntilReady ctl inst (InstanceConfigPath repo (inst_ID inst))
        (InstanceDataDir repo (inst_ID inst)) (InstanceLogFilePath repo (inst_ID inst)) t w = (Ok (), w')"
    using that by (rule parts [THEN conjunct2, THEN conjunct1, rule_format])
  show "fst (PingFunc ctl inst w') = Ok ()" if "j \<noteq> inst_ID inst" "touches_only repo j w w'"
    "set (procs w) \<subseteq> set (procs w')" "fst (PingFunc ctl inst w) = Ok ()"
    using that by (rule parts [THEN conjunct2, THEN conjunct2, THEN conjunct1, rule_format])
  show "fst (PingFunc ctl inst (log_write l a e d w)) = fst (PingFunc ctl inst w)"
    by (rule parts [THEN conjunct2, THEN conjunct2, THEN conjunct2, rule_format])
qed

lemma EnsureRunning_procs:
  assumes "servers_reliable ctl repo" "\<And>v. snd (PingFunc ctl inst v) = v"
  shows "set (procs w) \<subseteq> set (procs (snd (EnsureRunning ctl inst conf dir pidf logf w)))"
proof -
  have missing: "set (procs v) \<subseteq> set (procs (snd (start_missing ctl inst conf dir logf v)))" for v
    using servers_reliableD(1) [OF assms(1), of "log_write l a e d v" for l a e d]
    by (fastforce simp: start_missing_def)
  have stale: "set (procs v) \<subseteq> set (procs (snd (restart_stale ctl inst conf dir pidf logf v)))" for v
  proof -
    obtain r v' where r: "os_Remove pidf (log_write ERROR ''failed to PING redis-server'' None
        [(''instance'', inst_ID inst)] v) = (r, v')" by (metis prod.collapse)
    then have "procs v' = procs v" using Remove_procs by (metis env_log(5) snd_conv)
    then show ?thesis
      using r servers_reliableD(1) [OF assms(1), of "log_write l a e d v'" for l a e d]
      by (cases r) (fastforce simp: restart_stale_def Let_def)+
  qed
  show ?thesis
  proof (cases "InstanceInformer ctl (inst_ID inst) w")
    case (Ok p)
    with missing stale assms(2) [of w] show ?thesis
      by (cases "PingFunc ctl inst w"; cases "fst (PingFunc ctl inst w)") (auto simp: EnsureRunning_def)
  next
    case (Err e)
    with missing [of "log_write ERROR ''redis instance has no pidfile'' (Some e) [(''instance'', inst_ID inst)] w"]
    show ?thesis by (simp add: EnsureRunning_def)
  qed (simp add: EnsureRunning_def)
qed

lemma running_kept:
  assumes ctl: "ctl = os_controller repo ping wait x exec" and rel: "servers_reliable ctl repo"
    and ok: "repo_ok repo" "simple_name (inst_ID inst)" "fs_wf w" "j \<noteq> inst_ID inst"
    and step: "touches_only repo j w w'" "set (procs w) \<subseteq> set (procs w')"
    and run: "running ctl inst w"
  shows "running ctl inst w'"
proof -
  let ?p = "InstancePidFilePath repo (inst_ID inst)"
  obtain pid where pid: "InstancePid repo (inst_ID inst) w = Ok pid" "Alive pid w"
    and answers: "fst (PingFunc ctl inst w) = Ok ()"
    using run by (auto simp: running_def ctl)
  have out: "pid_comps repo @ [inst_ID inst @ ''.pid''] \<notin> instance_frame repo j"
    using frames_apart [OF ok(1) _ ok(4) [symmetric]] by simp
  have "ioutil_ReadFile ?p w' = Ok d \<longleftrightarrow> ioutil_ReadFile ?p w = Ok d" for d
    using step(1) ok(1,2,3) out by (auto simp: ReadFile_Ok_iff touches_only_iff path_simps)
  then have "InstancePid repo (inst_ID inst) w' = Ok pid"
    using pid(1) by (simp add: InstancePid_def res_bind_Ok_iff)
  moreover have "Alive pid w'"
    using pid(2) step by (auto simp: Alive_def os_Signal0_def touches_only_iff split: if_splits)
  ultimately show ?thesis
    using servers_reliableD(3) [OF rel ok(4) step answers] by (simp add: running_def ctl)
qed

lemma ensureRunningIfNotLocked_procs:
  assumes "servers_reliable ctl repo" "start_local ctl repo"
  shows "set (procs w) \<subseteq> set (procs (snd (ensureRunningIfNotLocked ctl repo inst w)))"
  using EnsureRunning_procs [OF assms(1), of inst w] assms(2)
  by (auto simp: ensureRunningIfNotLocked_def ensureRunning_def start_local_def fatal_def Let_def
      split: prod.split res.split) (metis snd_conv subsetD)+

lemma for_each_keeps_running:
  assumes ctl: "ctl = os_controller repo ping wait x exec" and rel: "servers_reliable ctl repo"
    and loc: "start_local ctl repo" and ok: "repo_ok repo" "simple_name (inst_ID inst)"
    and ids: "inst_ID inst \<notin> inst_ID ` set insts" "\<And>k. k \<in> set insts \<Longrightarrow> simple_name (inst_ID k)"
    and w: "fs_wf w" "running ctl inst w"
  shows "running ctl inst (snd (for_each (ensureRunningIfNotLocked ctl repo) insts w))"
  using ids w
proof (induction insts arbitrary: w)
  case (Cons k insts)
  let ?w = "snd (ensureRunningIfNotLocked ctl repo k w)"
  have t: "touches_only repo (inst_ID k) w ?w"
    using ensureRunningIfNotLocked_touches [OF ok(1) _ loc] Cons.prems(2) by simp
  have "running ctl inst ?w"
    using running_kept [OF ctl rel ok Cons.prems(3) _ t ensureRunningIfNotLocked_procs [OF rel loc] Cons.prems(4)]
      Cons.prems(1) by auto
  moreover have "fs_wf ?w" using t Cons.prems(3) by (simp add: touches_only_iff)
  ultimately show ?case
    using Cons.IH Cons.prems(1,2)
    by (simp, intro io_bind_state [of "running ctl inst"]) auto
qed simp

lemma for_each_runs:
  assumes ctl: "ctl = os_controller repo ping wait x exec" and rel: "servers_reliable ctl repo"
    and loc: "start_local ctl repo" and ok: "repo_ok repo"
    and ids: "distinct (map inst_ID insts)" "\<And>k. k \<in> set insts \<Longrightarrow> simple_name (inst_ID k)"
    and w: "fs_wf w" "for_each (ensureRunningIfNotLocked ctl repo) insts w = (Ok (), w')"
    and inst: "inst \<in> set insts" "\<not> locked repo (inst_ID inst) w"
  shows "running ctl inst w'"
  using ids w inst
proof (induction insts arbitrary: w)
  case (Cons k insts)
  obtain w1 where w1: "ensureRunningIfNotLocked ctl repo k w = (Ok (), w1)"
    and rest: "for_each (ensureRunningIfNotLocked ctl repo) insts w1 = (Ok (), w')"
    using Cons.prems(4) by (auto simp: io_bind_Ok_iff)
  have k: "simple_name (inst_ID k)" "inst_ID k \<notin> inst_ID ` set insts" using Cons.prems(1,2) by simp_all
  have t: "touches_only repo (inst_ID k) w w1"
    using ensureRunningIfNotLocked_touches [OF ok k(1) loc, of w] w1 by simp
  then have wf1: "fs_wf w1" using Cons.prems(3) by (simp add: touches_only_iff)
  show ?case
  proof (cases "inst = k")
    case True
    have id: "simple_name (inst_ID inst)" using k(1) True by simp
    have "ensureRunning ctl repo inst w = (Ok (), w1)"
      using w1 Cons.prems(6) True by (simp add: ensureRunningIfNotLocked_def locked_def)
    then have "EnsureRunning ctl inst (InstanceConfigPath repo (inst_ID inst)) (InstanceDataDir repo (inst_ID inst))
        (InstancePidFilePath repo (inst_ID inst)) (InstanceLogFilePath repo (inst_ID inst)) w = (Ok (), w1)"
      by (auto simp: ensureRunning_def fatal_def Let_def split: prod.splits res.splits)
    moreover have "snd (ping inst v) = v"
      "fst (ping inst (log_write l a e d v)) = fst (ping inst v)" for l a e d v
      using loc servers_reliableD(4) [OF rel, of inst] by (simp_all add: start_local_def ctl)
    ultimately have "running ctl inst w1"
      by (intro EnsureRunning_runs [OF ctl _ _ servers_reliableD(2) [OF rel id]])
    then show ?thesis
      using for_each_keeps_running [OF ctl rel loc ok, of inst insts w1] k True Cons.prems(2) wf1 rest by auto
  next
    case False
    then have mem: "inst \<in> set insts" using Cons.prems(5) by simp
    then have "inst_ID inst \<in> inst_ID ` set insts" by blast
    with k(2) have ne: "inst_ID inst \<noteq> inst_ID k" by metis
    have "undisturbed repo (inst_ID inst) w w" using Cons.prems(3) by (simp add: undisturbed_def)
    from touches_undisturbed [OF ok ne this t] have "\<not> locked repo (inst_ID inst) w1"
      using undisturbed_locked [OF ok _ Cons.prems(3)] Cons.prems(2,6) mem by auto
    with mem show ?thesis
      using Cons.IH [OF _ _ wf1 rest] Cons.prems(1,2) by simp
  qed
qed simp

section \<open>The example deployment with a monitor\<close>

abbreviation example_ctl :: os_process_controller where
  "example_ctl \<equiv> processController example_platform example_repo"

definition example_running :: world where
  "example_running = (machine
     [([''data''], DirNode (octal 7 5 5)), ([''log''], DirNode (octal 7 5 5)),
      ([''run''], DirNode (octal 7 5 5)), ([''data'', ''i1''], DirNode (octal 7 5 0)),
      ([''log'', ''i1''], DirNode (octal 7 5 0)),
      ([''data'', ''i1'', ''redis.conf''], FileNode (octal 6 4 0) ''port 81''),
      ([''run'', ''i1.pid''], FileNode (octal 6 4 4) ''4711'')])\<lparr>procs := [4711]\<rparr>"

lemma example_ctl_def:
  "example_ctl = os_controller example_repo (pf_ping example_platform)
     (\<lambda>address timeout w. the (Check (pf_dial example_platform) (pf_sleep example_platform) address timeout w))
     '''' (pf_exec example_platform)"
  by (simp add: processController_def)

lemma example_ping: "PingFunc example_ctl inst w = (Ok (), w)"
  by (simp add: processController_def example_platform_def)

lemma example_start_local: "start_local example_ctl example_repo"
  using example_start_touches(1) by (simp add: start_local_def example_ping)

lemma example_reliable: "servers_reliable example_ctl example_repo"
proof -
  have exec: "pf_exec example_platform = example_redis" by (simp add: example_platform_def)
  have procs: "procs (snd (ioutil_WriteFile p d m w)) = procs w" for p d m w
    using WriteFile_frame [of w p d m] by (simp add: fs_frame_def same_env_def)
  have "set (procs w) \<subseteq> set (procs (snd (StartAndWaitUntilReady example_ctl inst conf dir logf t w)))"
    for inst conf dir logf t w
    by (auto simp: processController_def StartAndWaitUntilReady_def StartAndWaitUntilReadyWithConfig_def
        exec example_redis_def Let_def example_wait procs)
  moreover have "running example_ctl inst w'"
    if "simple_name (inst_ID inst)" "StartAndWaitUntilReady example_ctl inst
      (InstanceConfigPath example_repo (inst_ID inst)) dir logf t w = (Ok (), w')" for inst dir logf t w w'
  proof -
    let ?p = "InstancePidFilePath example_repo (inst_ID inst)"
    let ?w1 = "snd (ioutil_WriteFile ?p ''4711'' (octal 6 4 4) w)"
    have "w' = ?w1\<lparr>procs := 4711 # procs ?w1\<rparr>"
      using example_start [OF that(1), of dir logf t w] that(2) by (simp add: Let_def)
    moreover from that(2) have "InstancePid example_repo (inst_ID inst) (?w1\<lparr>procs := 4711 # procs ?w1\<rparr>) = Ok 4711
        \<and> Alive 4711 (?w1\<lparr>procs := 4711 # procs ?w1\<rparr>)"
      by (auto simp: processController_def StartAndWaitUntilReady_def StartAndWaitUntilReadyWithConfig_def
          exec example_redis_def Let_def example_instance_of_conf [OF that(1)] split: if_splits)
    ultimately show ?thesis
      by (auto simp: running_def example_ping) (simp_all add: processController_def)
  qed
  ultimately show ?thesis
    unfolding servers_reliable_def example_ping by simp
qed

lemma example_running_wf: "fs_wf example_running"
  by code_simp

lemma example_running_entries: "dir_entries example_running (data_comps example_repo) = {''i1''}"
proof -
  have "child_names example_running (data_comps example_repo) = [''i1'']" by code_simp
  then show ?thesis using set_child_names [of example_running "data_comps example_repo"] by simp
qed

section \<open>Properties\<close>





section \<open>The race between a round and \<open>Destroy\<close>\<close>

text \<open>
  The broker and the monitor are two processes. The steps of \<open>Destroy\<close> after the instance was
  found, and the two steps of \<open>ensureRunningIfNotLocked\<close>: looking for the lock, and acting on
  what was seen. A schedule is an interleaving of the two.
\<close>

datatype actor_step = D_Lock | D_Kill | D_Delete | M_Stat | M_Ensure

record race =
  rc_world :: world
  rc_destroy :: "unit res"  \<comment> \<open>the outcome of \<open>Destroy\<close> so far\<close>
  rc_unlocked :: bool  \<comment> \<open>what the monitor saw\<close>

definition destroy_step :: "(world \<Rightarrow> unit res \<times> world) \<Rightarrow> race \<Rightarrow> race" where
  "destroy_step f s =
     (if is_ok (rc_destroy s)
      then (let (r, w) = f (rc_world s) in s\<lparr>rc_world := w, rc_destroy := r\<rparr>) else s)"

fun race_step :: "os_process_controller \<Rightarrow> local_repository \<Rightarrow> redis_instance \<Rightarrow> actor_step \<Rightarrow> race \<Rightarrow> race" where
  "race_step ctl repo inst D_Lock s = destroy_step (Lock repo inst) s"
| "race_step ctl repo inst D_Kill s = destroy_step (Kill ctl inst) s"
| "race_step ctl repo inst D_Delete s = destroy_step (Delete repo (inst_ID inst)) s"
| "race_step ctl repo inst M_Stat s = s\<lparr>rc_unlocked := \<not> locked repo (inst_ID inst) (rc_world s)\<rparr>"
| "race_step ctl repo inst M_Ensure s =
     (if rc_unlocked s then s\<lparr>rc_world := snd (ensureRunning ctl repo inst (rc_world s))\<rparr> else s)"

definition run_race ::
    "os_process_controller \<Rightarrow> local_repository \<Rightarrow> redis_instance \<Rightarrow> actor_step list \<Rightarrow> world \<Rightarrow> race" where
  "run_race ctl repo inst schedule w =
     fold (race_step ctl repo inst) schedule \<lparr>rc_world = w, rc_destroy = Ok (), rc_unlocked = False\<rparr>"

definition schedules :: "actor_step list set" where
  "schedules = shuffles [D_Lock, D_Kill, D_Delete] [M_Stat, M_Ensure]"

text \<open>The steps are those of the code: run without interleaving they are \<open>Destroy\<close> and the check.\<close>

lemma destroy_step_Ok:
  "destroy_step f \<lparr>rc_world = w, rc_destroy = Ok (), rc_unlocked = u\<rparr> =
     \<lparr>rc_world = snd (f w), rc_destroy = fst (f w), rc_unlocked = u\<rparr>"
  by (simp add: destroy_step_def split: prod.split)

lemma destroy_step_err: "\<not> is_ok (rc_destroy s) \<Longrightarrow> destroy_step f s = s"
  by (simp add: destroy_step_def)

lemma race_is_Destroy:
  assumes "FindByID repo i w = Ok inst"
  shows "Destroy (localCreator pf config repo) i w =
    (rc_destroy (run_race (processController pf repo) repo inst [D_Lock, D_Kill, D_Delete] w),
     rc_world (run_race (processController pf repo) repo inst [D_Lock, D_Kill, D_Delete] w))"
proof -
  have id: "inst_ID inst = i" using assms by (rule FindByID_id)
  obtain r1 w1 where lock: "Lock repo inst w = (r1, w1)" by fastforce
  obtain r2 w2 where kill: "Kill (processController pf repo) inst w1 = (r2, w2)" by fastforce
  show ?thesis
    using assms lock kill id
    by (cases r1; cases r2)
      (simp_all add: Destroy_def run_race_def destroy_step_Ok destroy_step_err)
qed

lemma schedules_eq:
  "schedules = {[D_Lock, D_Kill, D_Delete, M_Stat, M_Ensure], [D_Lock, D_Kill, M_Stat, D_Delete, M_Ensure],
     [D_Lock, D_Kill, M_Stat, M_Ensure, D_Delete], [D_Lock, M_Stat, D_Kill, D_Delete, M_Ensure],
     [D_Lock, M_Stat, D_Kill, M_Ensure, D_Delete], [D_Lock, M_Stat, M_Ensure, D_Kill, D_Delete],
     [M_Stat, D_Lock, D_Kill, D_Delete, M_Ensure], [M_Stat, D_Lock, D_Kill, M_Ensure, D_Delete],
     [M_Stat, D_Lock, M_Ensure, D_Kill, D_Delete], [M_Stat, M_Ensure, D_Lock, D_Kill, D_Delete]}"
  unfolding schedules_def by (auto simp: insert_commute)

lemma Lock_locked:
  assumes "repo_ok repo" "simple_name (inst_ID inst)" "fs_wf w" "Lock repo inst w = (Ok (), w1)"
    and "refuses w OpStat (data_comps repo @ [inst_ID inst, ''lock'']) = None"
  shows "locked repo (inst_ID inst) w1"
proof -
  have "keeps_local repo (inst_ID inst) w w1" using Lock_local [OF assms(1,2), of w] assms(4) by simp
  note kept = keeps_localD [OF this assms(3)]
  have "node_at w1 (data_comps repo @ [inst_ID inst, ''lock'']) \<noteq> None"
    using Create_Ok [OF assms(4) [unfolded Lock_def]] assms(1,2) by (auto simp: path_simps)
  with kept assms(5) show ?thesis
    by (simp add: locked_iff [OF assms(1,2)] fs_frame_def same_env_def)
qed

lemma Kill_locked:
  "locked repo i (snd (Kill (os_controller repo ping wait x exec) inst w)) = locked repo i w"
proof (cases "InstancePid repo (inst_ID inst) w")
  case (Ok pid)
  then show ?thesis
    by (cases "os_Signal0 pid w") (simp_all add: Kill_def Process_Kill_def os_Kill_def locked_def)
qed (simp_all add: Kill_def locked_def)



end
