(* ===== verification/Creation_Race.thy ===== *)
theory Creation_Race
  imports Process_Monitor
begin

text \<open>
  \<open>Create\<close> of \<open>src/redis/local_instance_creator.go\<close>, with \<open>Setup\<close> of \<open>src/redis/local_repository.go\<close>
  taken apart, against the process monitor of \<open>src/cmd/processmonitor/main.go\<close>, which lists the same
  directory all the time. The order in \<open>Setup\<close> is what protects a new instance: the lock is made before
  the configuration file without which the monitor does not see the instance, and it is removed last.

  The broker's steps, the monitor's steps for the new instance and arbitrary changes of other
  instances are one step relation. The invariant \<open>shielded\<close> says at each point of \<open>Create\<close> why the
  monitor leaves the instance alone. The start-up of the monitor has no such protection: it writes
  the configuration of every instance it has listed, destroyed or not.
\<close>

section \<open>The code\<close>

datatype install_point = I_Dirs | I_Lock | I_Write | I_Start | I_Unlock | I_Done "unit res"

definition go_on :: "install_point \<Rightarrow> unit res \<times> world \<Rightarrow> install_point \<times> world" where
  "go_on next p =
     (case p of
        (Ok _, w) \<Rightarrow> (next, w)
      | (Err e, w) \<Rightarrow> (I_Done (Err e), w)
      | (Panic m, w) \<Rightarrow> (I_Done (Panic m), w))"

text \<open>\<open>Create\<close> after the instance was chosen, one call of the repository at a time.\<close>

fun install_step ::
    "platform \<Rightarrow> config \<Rightarrow> local_repository \<Rightarrow> redis_instance \<Rightarrow> install_point \<Rightarrow> world \<Rightarrow>
     install_point \<times> world" where
  "install_step pf config repo inst I_Dirs w =
     go_on I_Lock (logged_step ''ensure-dirs-exist'' [(''instance_id'', inst_ID inst)]
       (EnsureDirectoriesExist repo inst w))"
| "install_step pf config repo inst I_Lock w =
     go_on I_Write (logged_step ''lock-shared-instance'' [(''instance_id'', inst_ID inst)]
       (Lock repo inst w))"
| "install_step pf config repo inst I_Write w =
     go_on I_Start
       (io_bind (logged_step ''write-config-file'' [(''instance_id'', inst_ID inst)]
          (WriteConfigFile repo inst w)) (\<lambda>_ w.
        (Ok (), Logger_Info ''provision-instance''
          [(''instance_id'', inst_ID inst), (''plan'', ''shared-vm''),
           (''message'', ''Successfully provisioned Redis instance'')] w)))"
| "install_step pf config repo inst I_Start w =
     go_on I_Unlock (startLocalInstance (localCreator pf config repo) inst w)"
| "install_step pf config repo inst I_Unlock w =
     go_on (I_Done (Ok ())) (Unlock repo inst w)"
| "install_step pf config repo inst (I_Done r) w = (I_Done r, w)"

text \<open>
  The monitor's loop, for one instance: it has listed it, and then it has seen no lock.
\<close>

datatype monitor_point = M_Idle | M_Listed redis_instance | M_Unlocked redis_instance

record creation =
  cr_world :: world
  cr_install :: install_point
  cr_monitor :: monitor_point

inductive creation_step ::
    "platform \<Rightarrow> config \<Rightarrow> local_repository \<Rightarrow> redis_instance \<Rightarrow> creation \<Rightarrow> creation \<Rightarrow> bool"
  for pf config repo inst where
  broker_step: "install_step pf config repo inst (cr_install s) (cr_world s) = (p, w) \<Longrightarrow>
    creation_step pf config repo inst s (s\<lparr>cr_install := p, cr_world := w\<rparr>)"
| monitor_lists: "cr_monitor s = M_Idle \<Longrightarrow> FindByID repo (inst_ID inst) (cr_world s) = Ok k \<Longrightarrow>
    creation_step pf config repo inst s (s\<lparr>cr_monitor := M_Listed k\<rparr>)"
| monitor_sees_lock: "cr_monitor s = M_Listed k \<Longrightarrow> locked repo (inst_ID k) (cr_world s) \<Longrightarrow>
    creation_step pf config repo inst s (s\<lparr>cr_monitor := M_Idle\<rparr>)"
| monitor_sees_none: "cr_monitor s = M_Listed k \<Longrightarrow> \<not> locked repo (inst_ID k) (cr_world s) \<Longrightarrow>
    creation_step pf config repo inst s (s\<lparr>cr_monitor := M_Unlocked k\<rparr>)"
| monitor_ensures: "cr_monitor s = M_Unlocked k \<Longrightarrow>
    ensureRunning (processController pf repo) repo k (cr_world s) = (r, w) \<Longrightarrow>
    creation_step pf config repo inst s (s\<lparr>cr_monitor := M_Idle, cr_world := w\<rparr>)"
| others: "j \<noteq> inst_ID inst \<Longrightarrow> simple_name j \<Longrightarrow> touches_only repo j (cr_world s) w \<Longrightarrow>
    creation_step pf config repo inst s (s\<lparr>cr_world := w\<rparr>)"

text \<open>Without the others, the steps are those of the code.\<close>

lemma go_on_simps [simp]:
  "go_on next (Ok u, w) = (next, w)"
  "go_on next (Err e, w) = (I_Done (Err e), w)"
  "go_on next (Panic m, w) = (I_Done (Panic m), w)"
  by (simp_all add: go_on_def)

lemma install_alone:
  "((\<lambda>(p, w). install_step pf config repo inst p w) ^^ 5) (I_Dirs, w) =
     (I_Done (fst (install (localCreator pf config repo) inst w)),
      snd (install (localCreator pf config repo) inst w))"
  by (simp add: numeral_eq_Suc install_def Setup_def go_on_def split: prod.splits res.splits)

lemma monitor_alone:
  assumes "locked repo (inst_ID k) w"
  shows "ensureRunningIfNotLocked ctl repo k w = (Ok (), w)"
    and "\<not> locked repo (inst_ID k) v \<Longrightarrow>
      ensureRunningIfNotLocked ctl repo k v = ensureRunning ctl repo k v"
  using assms by (simp_all add: ensureRunningIfNotLocked_def locked_def)

section \<open>Why the monitor leaves a new instance alone\<close>

abbreviation conf_node :: "local_repository \<Rightarrow> string \<Rightarrow> world \<Rightarrow> node option" where
  "conf_node repo i w \<equiv> node_at w (data_comps repo @ [i, ''redis.conf''])"

abbreviation lock_node :: "local_repository \<Rightarrow> string \<Rightarrow> world \<Rightarrow> node option" where
  "lock_node repo i w \<equiv> node_at w (data_comps repo @ [i, ''lock''])"

text \<open>Either there is no configuration file yet, or there is a lock.\<close>

definition hidden :: "local_repository \<Rightarrow> string \<Rightarrow> creation \<Rightarrow> bool" where
  "hidden repo i s \<longleftrightarrow> conf_node repo i (cr_world s) = None \<and> cr_monitor s = M_Idle"

definition guarded :: "local_repository \<Rightarrow> string \<Rightarrow> creation \<Rightarrow> bool" where
  "guarded repo i s \<longleftrightarrow> lock_node repo i (cr_world s) \<noteq> None \<and>
     (cr_monitor s = M_Idle \<or> (\<exists>k. inst_ID k = i \<and> cr_monitor s = M_Listed k))"

fun shield :: "local_repository \<Rightarrow> string \<Rightarrow> install_point \<Rightarrow> creation \<Rightarrow> bool" where
  "shield repo i I_Dirs s = hidden repo i s"
| "shield repo i I_Lock s = hidden repo i s"
| "shield repo i I_Write s = guarded repo i s"
| "shield repo i I_Start s = guarded repo i s"
| "shield repo i I_Unlock s = guarded repo i s"
| "shield repo i (I_Done r) s \<longleftrightarrow> r = Ok () \<or> hidden repo i s \<or> guarded repo i s"

lemma EnsureDirectoriesExist_file:
  assumes "repo_ok repo" "simple_name (inst_ID inst)" "x \<noteq> ''db''"
  shows "node_at (snd (EnsureDirectoriesExist repo inst w)) (data_comps repo @ [inst_ID inst, x]) =
    node_at w (data_comps repo @ [inst_ID inst, x])"
proof -
  let ?q = "data_comps repo @ [inst_ID inst, x]"
  have q: "prefix (data_comps repo) ?q" by simp
  have mk: "node_at (snd (os_MkdirAll p m v)) ?q = node_at v ?q" if "\<not> prefix ?q (resolve (cwd v) p)" for p m v
    using MkdirAll_frame [of v p m] that by (simp add: fs_frame_def)
  have "\<not> prefix ?q (pid_comps repo)" using parallel_below(2) [OF repo_okD(6) [OF assms(1)] q] .
  moreover have "\<not> prefix (data_comps repo) (log_comps repo @ [inst_ID inst])"
    using repo_okD(5) [OF assms(1)] prefix_same_cases [of "data_comps repo" "log_comps repo @ [inst_ID inst]" "log_comps repo"]
    by (auto simp: parallel_def)
  then have "\<not> prefix ?q (log_comps repo @ [inst_ID inst])" by (meson append_prefixD)
  ultimately show ?thesis
    unfolding EnsureDirectoriesExist_def
    by (intro io_bind_state [of "\<lambda>v. node_at v ?q = node_at w ?q"])
      (use assms in \<open>auto simp: mk path_simps\<close>)
qed

lemma Lock_conf:
  assumes "repo_ok repo" "simple_name (inst_ID inst)"
  shows "conf_node repo (inst_ID inst) (snd (Lock repo inst w)) = conf_node repo (inst_ID inst) w"
  using Create_frame [of w "lockFilePath repo inst"] assms by (simp add: Lock_def path_simps fs_frame_def)

lemma Lock_Ok_node:
  assumes "repo_ok repo" "simple_name (inst_ID inst)" "Lock repo inst w = (Ok (), w')"
  shows "lock_node repo (inst_ID inst) w' \<noteq> None"
  using Create_Ok [OF assms(3) [unfolded Lock_def]] assms(1,2) by (auto simp: path_simps)

lemma WriteConfigFile_lock:
  assumes "repo_ok repo" "simple_name (inst_ID inst)"
  shows "lock_node repo (inst_ID inst) (snd (WriteConfigFile repo inst w)) = lock_node repo (inst_ID inst) w"
proof -
  have "fs_frame {data_comps repo @ [inst_ID inst, ''redis.conf'']} w (snd (WriteConfigFile repo inst w))"
    using Copy_frame assms by (metis WriteConfigFile_def resolve_instance_paths(3))
  then show ?thesis by (simp add: fs_frame_def)
qed

lemma Remove_failed: "fst (os_Remove p w) \<noteq> Ok () \<Longrightarrow> snd (os_Remove p w) = w"
  by (auto simp: os_Remove_def change_path_def split: option.splits res.splits node.splits if_splits)

lemma snd_logged_step: "node_at (snd (logged_step a d p)) = node_at (snd p)"
  by (simp add: logged_step_def split: prod.splits res.splits)

lemma found_has_conf:
  assumes "repo_ok repo" "simple_name i" "fs_wf w" "FindByID repo i w = Ok k"
  shows "conf_node repo i w \<noteq> None"
proof -
  obtain c where "Conf_Load (InstanceConfigPath repo i) w = Ok c" using assms(4) by (auto simp: FindByID_Ok_iff)
  then obtain d where "ioutil_ReadFile (InstanceConfigPath repo i) w = Ok d"
    by (auto simp: Conf_Load_def res_bind_Ok_iff)
  then show ?thesis using assms(1-3) by (auto simp: ReadFile_Ok_iff path_simps)
qed

text \<open>A state that is shielded, in a machine that stays deployed and shows the monitor its locks.\<close>

definition shielded :: "platform \<Rightarrow> config \<Rightarrow> local_repository \<Rightarrow> redis_instance \<Rightarrow> creation \<Rightarrow> bool" where
  "shielded pf config repo inst s \<longleftrightarrow>
     cr_install s = I_Done (Ok ()) \<or>
     deployed pf config repo (cr_world s) \<and>
     refuses (cr_world s) OpStat (data_comps repo @ [inst_ID inst, ''lock'']) = None \<and>
     shield repo (inst_ID inst) (cr_install s) s"

lemma install_step_touches:
  assumes "deployed pf config repo w" "simple_name (inst_ID inst)"
  shows "touches_only repo (inst_ID inst) w (snd (install_step pf config repo inst p w))"
proof -
  have go: "snd (go_on q x) = snd x" for q x
    by (simp add: go_on_def split: prod.splits res.splits)
  note ok = deployedD(1) [OF assms(1)] assms(2)
  have "keeps_local repo (inst_ID inst) w (snd (io_bind (logged_step a d (WriteConfigFile repo inst w))
      (\<lambda>_ v. (Ok (), log_write l b e f v))))" for a d l b e f
    by (intro keeps_local_io_bind keeps_local_logged_step WriteConfigFile_local ok) simp
  moreover have "keeps_local repo (inst_ID inst) w (snd (logged_step a d (Lock repo inst w)))"
    "keeps_local repo (inst_ID inst) w (snd (logged_step a d (EnsureDirectoriesExist repo inst w)))" for a d
    by (intro keeps_local_logged_step Lock_local EnsureDirectoriesExist_local ok)+
  ultimately show ?thesis
    using Unlock_local [OF ok, of w] deployedD(6) [OF assms, of w]
    by (cases p) (simp_all add: go keeps_touches)
qed

lemma go_on_eq:
  assumes "go_on q x = (p, w)"
  shows "w = snd x \<and> (p = q \<and> fst x = Ok () \<or> p = I_Done (fst x) \<and> fst x \<noteq> Ok ())"
  using assms by (auto simp: go_on_def split: prod.splits res.splits)

lemma shield_broker:
  assumes "repo_ok repo" "simple_name (inst_ID inst)"
    and lock_kept: "\<And>v. lock_node repo (inst_ID inst) (snd (startLocalInstance (localCreator pf config repo) inst v)) =
      lock_node repo (inst_ID inst) v"
    and step: "install_step pf config repo inst (cr_install s) (cr_world s) = (p, w)"
    and shield: "shield repo (inst_ID inst) (cr_install s) s"
  shows "shield repo (inst_ID inst) p (s\<lparr>cr_install := p, cr_world := w\<rparr>)"
proof (cases "cr_install s")
  case I_Dirs
  note g = go_on_eq [OF step [unfolded I_Dirs install_step.simps]]
  have "conf_node repo (inst_ID inst) w = conf_node repo (inst_ID inst) (cr_world s)"
    using g EnsureDirectoriesExist_file [OF assms(1,2)] by (simp add: snd_logged_step)
  with shield I_Dirs g show ?thesis by (auto simp: hidden_def)
next
  case I_Lock
  note g = go_on_eq [OF step [unfolded I_Lock install_step.simps]]
  have conf: "conf_node repo (inst_ID inst) w = conf_node repo (inst_ID inst) (cr_world s)"
    using g Lock_conf [OF assms(1,2)] by (simp add: snd_logged_step)
  from g consider r where "p = I_Done r" | "p = I_Write"
    "logged_step ''lock-shared-instance'' [(''instance_id'', inst_ID inst)] (Lock repo inst (cr_world s)) = (Ok (), w)"
    by (metis prod.collapse)
  then show ?thesis
    using conf shield I_Lock Lock_Ok_node [OF assms(1,2)] by cases (auto simp: hidden_def guarded_def)
next
  case I_Write
  note g = go_on_eq [OF step [unfolded I_Write install_step.simps]]
  have "lock_node repo (inst_ID inst) w = lock_node repo (inst_ID inst) (cr_world s)"
    using conjunct1 [OF g] WriteConfigFile_lock [OF assms(1,2), of "cr_world s"]
    by (simp, intro io_bind_state [of "\<lambda>v. lock_node repo (inst_ID inst) v = lock_node repo (inst_ID inst) (cr_world s)"])
      (simp_all add: snd_logged_step)
  with shield I_Write g show ?thesis by (auto simp: guarded_def)
next
  case I_Start
  note g = go_on_eq [OF step [unfolded I_Start install_step.simps]]
  with lock_kept [of "cr_world s"] shield I_Start show ?thesis by (auto simp: guarded_def)
next
  case I_Unlock
  note g = go_on_eq [OF step [unfolded I_Unlock install_step.simps]]
  with Remove_failed [of "lockFilePath repo inst" "cr_world s"] shield I_Unlock show ?thesis
    by (auto simp: guarded_def Unlock_def)
qed (use step shield in \<open>auto simp: hidden_def guarded_def\<close>)

text \<open>What the monitor and the others do to a shielded state.\<close>

lemma shield_monitor_only:
  assumes "cr_world s' = cr_world s" "cr_install s' = cr_install s" "cr_install s \<noteq> I_Done (Ok ())"
    and "shielded pf config repo inst s"
    and "hidden repo (inst_ID inst) s \<Longrightarrow> hidden repo (inst_ID inst) s'"
    and "guarded repo (inst_ID inst) s \<Longrightarrow> guarded repo (inst_ID inst) s'"
  shows "shielded pf config repo inst s'"
  using assms by (cases "cr_install s") (auto simp: shielded_def)

lemma others_keep_nodes:
  assumes "repo_ok repo" "j \<noteq> i" "touches_only repo j w w'"
  shows "conf_node repo i w' = conf_node repo i w" "lock_node repo i w' = lock_node repo i w"
  using assms frames_apart [OF assms(1) _ assms(2) [symmetric]] by (simp_all add: touches_only_iff)

lemma shielded_step:
  assumes id: "simple_name (inst_ID inst)"
    and lock_kept: "\<And>v. lock_node repo (inst_ID inst) (snd (startLocalInstance (localCreator pf config repo) inst v)) =
      lock_node repo (inst_ID inst) v"
    and step: "creation_step pf config repo inst s s'" and s: "shielded pf config repo inst s"
  shows "shielded pf config repo inst s'"
proof (cases "cr_install s = I_Done (Ok ())")
  case True
  with step show ?thesis by cases (auto simp: shielded_def)
next
  case False
  then have dep: "deployed pf config repo (cr_world s)"
    and stat: "refuses (cr_world s) OpStat (data_comps repo @ [inst_ID inst, ''lock'']) = None"
    and shield: "shield repo (inst_ID inst) (cr_install s) s"
    using s by (simp_all add: shielded_def)
  note ok = deployedD(1,2) [OF dep]
  have not_free: "cr_monitor s \<noteq> M_Unlocked k" for k
    using shield False by (cases "cr_install s") (auto simp: hidden_def guarded_def)
  from step show ?thesis
  proof cases
    case (broker_step p w)
    have "touches_only repo (inst_ID inst) (cr_world s) w"
      using install_step_touches [OF dep id, of "cr_install s"] broker_step(2) by simp
    then show ?thesis
      using shield_broker [OF ok(1) id lock_kept broker_step(2) shield] deployed_touches [OF dep] stat broker_step(1)
      by (auto simp: shielded_def touches_only_iff)
  next
    case (monitor_lists k)
    have "conf_node repo (inst_ID inst) (cr_world s) \<noteq> None"
      using found_has_conf [OF ok(1) id ok(2) monitor_lists(3)] .
    with monitor_lists FindByID_id [OF monitor_lists(3)] show ?thesis
      by (intro shield_monitor_only [OF _ _ False s]) (auto simp: hidden_def guarded_def)
  next
    case (monitor_sees_lock k)
    then show ?thesis
      by (intro shield_monitor_only [OF _ _ False s]) (auto simp: hidden_def guarded_def)
  next
    case (monitor_sees_none k)
    have "\<not> guarded repo (inst_ID inst) s"
      using monitor_sees_none locked_iff [OF ok(1) id ok(2)] stat by (auto simp: guarded_def)
    with monitor_sees_none show ?thesis
      by (intro shield_monitor_only [OF _ _ False s]) (auto simp: hidden_def)
  next
    case (monitor_ensures k r w)
    with not_free show ?thesis by blast
  next
    case (others j w)
    note kept = others_keep_nodes [OF ok(1) others(2,4)]
    have "shield repo (inst_ID inst) (cr_install s) (s\<lparr>cr_world := w\<rparr>)"
      using shield kept by (cases "cr_install s") (auto simp: hidden_def guarded_def)
    then show ?thesis
      using others deployed_touches [OF dep others(4)] stat by (simp add: shielded_def touches_only_iff)
  qed
qed

lemma shielded_run:
  assumes "(creation_step pf config repo inst)\<^sup>*\<^sup>* s s'" "shielded pf config repo inst s" "simple_name (inst_ID inst)"
    and "\<And>v. lock_node repo (inst_ID inst) (snd (startLocalInstance (localCreator pf config repo) inst v)) =
      lock_node repo (inst_ID inst) v"
  shows "shielded pf config repo inst s'"
  using assms(1,2) by (induction rule: rtranclp_induct) (auto intro: shielded_step [OF assms(3,4)])

section \<open>Properties\<close>



text \<open>The monitor's start-up against \<open>Destroy\<close>.\<close>

lemma fatal_Ok [simp]: "fatal m d p = (Ok (), w) \<longleftrightarrow> p = (Ok (), w)"
  by (auto simp: fatal_def split: prod.splits res.splits)

lemma found_again:
  assumes "FindByID repo i w = Ok inst"
    and "Conf_Load (InstanceConfigPath repo i) v =
      Ok (instance_additions i (strconv_Itoa (inst_Port inst)) (inst_Password inst) dir c)"
  shows "FindByID repo i v = Ok inst"
proof -
  have "inst = \<lparr>inst_ID = i, inst_Host = sc_Host (RedisConf repo), inst_Port = inst_Port inst,
      inst_Password = inst_Password inst\<rparr>" "in_int_range 64 (inst_Port inst)"
    using assms(1) ParseInt_range [of 64 _ "inst_Port inst"]
    by (auto simp: FindByID_Ok_iff strconv_Atoi_def) (metis redis_instance.select_convs(4))
  with FindByID_loaded [OF assms(2)] show ?thesis by simp
qed

text \<open>
  C16. The start-up of the monitor brings a destroyed instance back. When the instance was listed
  before \<open>Destroy\<close> removed it, the start-up makes its directories and its configuration again:
  the instance exists, is found as before and is not locked, so the next round starts it.
\<close>

theorem startup_revives_destroyed:
  assumes "deployed pf config repo w" "simple_name i" "FindByID repo i w = Ok inst"
    and "Destroy (localCreator pf config repo) i w = (Ok (), w1)"
    and "Conf_Load (DefaultConfigPath (RedisConf repo)) w1 = Ok c" "wf_conf c"
    and "wf_addition i (strconv_Itoa (inst_Port inst)) (inst_Password inst) (PidfileDirectory (RedisConf repo))"
    and "refuses w1 OpOpen (data_comps repo @ [i, ''redis.conf'']) = None"
    and "copyConfigFile repo inst w1 = (Ok (), w2)"
  shows "\<not> claims (InstanceExists repo i w1) \<and>
    claims (InstanceExists repo i w2) \<and> FindByID repo i w2 = Ok inst \<and> \<not> locked repo i w2"
proof -
  have id: "inst_ID inst = i" using assms(3) by (rule FindByID_id)
  have dep1: "deployed pf config repo w1"
    using deployed_touches [OF assms(1) shared.Destroy_touches [OF assms(1,2)]] assms(4) by simp
  note ok = deployedD(1,2) [OF dep1]
  have gone: "\<not> claims (InstanceExists repo i w1)" using shared.Destroy_gone [OF assms(1,2,4)] by simp
  then have "node_at w1 (data_comps repo @ [i]) = None"
    using deployed_exists [OF dep1 assms(2)] by (simp add: dir_entries_def)
  then have no_lock: "lock_node repo i w1 = None"
    using fs_wf_parent [OF ok(2), of "data_comps repo @ [i, ''lock'']"]
    by (cases "lock_node repo i w1") (auto simp: butlast_append is_dir_at_alt)
  obtain v where v: "EnsureDirectoriesExist repo inst w1 = (Ok (), v)"
    and w2: "WriteConfigFile repo inst v = (Ok (), w2)"
    using assms(9) by (auto simp: copyConfigFile_def io_bind_Ok_iff)
  have kv: "keeps_local repo i w1 v" and k2: "keeps_local repo i v w2"
    using EnsureDirectoriesExist_local [OF ok(1), of inst w1] WriteConfigFile_local [OF ok(1), of inst v]
      v w2 id assms(2) by simp_all
  note wfv = keeps_localD [OF kv ok(2)]
  have dep2: "deployed pf config repo w2"
    using deployed_touches [OF deployed_touches [OF dep1 keeps_touches [OF kv]] keeps_touches [OF k2]] .
  have "Conf_Load (DefaultConfigPath (RedisConf repo)) v = Ok c"
    using Load_kept [OF ok(2) wfv(1) fs_frame_env [OF wfv(2)] assms(5)]
      EnsureDirectoriesExist_keeps [of w1 _ _ repo inst] v by simp
  from Copy_load [OF wfv(1) this assms(6) _ _ w2 [unfolded WriteConfigFile_def]]
  have "Conf_Load (InstanceConfigPath repo i) w2 =
      Ok (instance_additions i (strconv_Itoa (inst_Port inst)) (inst_Password inst) (PidfileDirectory (RedisConf repo)) c)"
    using assms(2,7,8) id ok(1) fs_frame_env [OF wfv(2)] by (simp add: path_simps same_env_def)
  from found_again [OF assms(3) this] have found: "FindByID repo i w2 = Ok inst" .
  then have "conf_node repo i w2 \<noteq> None" using found_has_conf [OF ok(1) assms(2) deployedD(2) [OF dep2]] by blast
  then have "node_at w2 (data_comps repo @ [i]) \<noteq> None"
    using fs_wf_parent [OF deployedD(2) [OF dep2], of "data_comps repo @ [i, ''redis.conf'']"]
    by (auto simp: butlast_append is_dir_at_alt)
  then have "claims (InstanceExists repo i w2)"
    using deployed_exists [OF dep2 assms(2)] by (simp add: dir_entries_def)
  moreover have "lock_node repo i w2 = None"
    using no_lock EnsureDirectoriesExist_file [OF ok(1), of inst "''lock''" w1] WriteConfigFile_lock [OF ok(1), of inst v]
      v w2 id assms(2) by simp
  ultimately show ?thesis
    using gone found locked_iff [OF ok(1) assms(2) deployedD(2) [OF dep2]] by simp
qed

definition example_listed :: world where
  "example_listed = (machine
     [([''data''], DirNode (octal 7 5 5)), ([''log''], DirNode (octal 7 5 5)),
      ([''run''], DirNode (octal 7 5 5)), ([''etc''], DirNode (octal 7 5 5)),
      ([''etc'', ''redis.conf''], FileNode (octal 6 4 4) ''maxmemory 1''),
      ([''data'', ''i1''], DirNode (octal 7 5 0)), ([''log'', ''i1''], DirNode (octal 7 5 0)),
      ([''data'', ''i1'', ''redis.conf''],
         FileNode (octal 6 4 0) (''port 81'' @ [CHR 0x0A] @ ''requirepass pw'')),
      ([''run'', ''i1.pid''], FileNode (octal 6 4 4) ''4711'')])\<lparr>procs := [4711]\<rparr>"

definition example_destroyed :: world where
  "example_destroyed = example_disk\<lparr>logs :=
     [\<lparr>log_level = INFO, log_action = ''deprovision-instance'', log_error = None,
       log_data = [(''instance_id'', ''i1''), (''plan'', ''shared-vm''),
         (''message'', ''Successfully deprovisioned Redis instance'')]\<rparr>]\<rparr>"

definition changed_by :: "unit res \<times> world \<Rightarrow>
    unit res \<times> (string list \<times> node) list \<times> int list \<times> log_entry list" where
  "changed_by p = (fst p, nodes (snd p), procs (snd p), logs (snd p))"

lemma example_listed_wf: "fs_wf example_listed"
  by code_simp

lemma example_listed_deployed: "deployed example_platform example_config example_repo example_listed"
  using example_listed_wf by (simp add: deployed_def example_contract example_repo_ok) (simp add: example_listed_def)

lemma example_destroys:
  "Destroy (localCreator example_platform example_config example_repo) ''i1'' example_listed =
     (Ok (), example_destroyed)"
proof -
  let ?D = "Destroy (localCreator example_platform example_config example_repo) ''i1'' example_listed"
  have "changed_by ?D = (Ok (), nodes example_destroyed, [], logs example_destroyed)" by code_simp
  then have "fst ?D = Ok ()" "nodes (snd ?D) = nodes example_destroyed" "procs (snd ?D) = []"
    "logs (snd ?D) = logs example_destroyed" by (simp_all add: changed_by_def)
  moreover have "touches_only example_repo ''i1'' example_listed (snd ?D)"
    using shared.Destroy_touches [OF example_listed_deployed example_ids(1)] .
  ultimately have "snd ?D = example_destroyed"
    by (intro world.equality) (simp_all add: touches_only_iff example_listed_def example_destroyed_def example_disk_def machine_def)
  with \<open>fst ?D = Ok ()\<close> show ?thesis by (metis prod.collapse)
qed

theorem startup_revives_destroyed_witness:
  "\<exists>inst. FindByID example_repo ''i1'' example_listed = Ok inst \<and>
     FindByID example_repo ''i1'' (snd (copyConfigFile example_repo inst example_destroyed)) = Ok inst"
proof -
  let ?inst = "\<lparr>inst_ID = ''i1'', inst_Host = ''10.0.0.7'', inst_Port = 81, inst_Password = ''pw''\<rparr>"
  have found: "FindByID example_repo ''i1'' example_listed = Ok ?inst" by code_simp
  have conf: "Conf_Load (DefaultConfigPath (RedisConf example_repo)) example_destroyed =
      Ok [\<lparr>Key = ''maxmemory'', Value = ''1''\<rparr>]" "wf_conf [\<lparr>Key = ''maxmemory'', Value = ''1''\<rparr>]" by code_simp+
  have "PidfileDirectory (RedisConf example_repo) = ''/run''" by code_simp
  then have add: "wf_addition ''i1'' (strconv_Itoa (inst_Port ?inst)) (inst_Password ?inst)
      (PidfileDirectory (RedisConf example_repo))"
    using example_addition [of 81] by (simp add: in_int_range_def)
  have open_ok: "refuses example_destroyed OpOpen (data_comps example_repo @ [''i1'', ''redis.conf'']) = None"
    by (simp add: example_destroyed_def)
  have copy: "copyConfigFile example_repo ?inst example_destroyed =
      (Ok (), snd (copyConfigFile example_repo ?inst example_destroyed))"
    by (rule eq_pair_fst) code_simp
  from startup_revives_destroyed [OF example_listed_deployed example_ids(1) found example_destroys conf add open_ok copy]
  show ?thesis using found by blast
qed

end
