(* ===== verification/Redis_Client.thy ===== *)
theory Redis_Client
  imports Process_Controller
begin

text \<open>
  \<open>src/redis/client/client.go\<close>, and \<open>PingServer\<close> of \<open>src/redis/process_controller.go\<close>: the
  client that talks to a Redis server. The redigo connection is a pair of functions, one that
  sends a command and returns a reply and one that closes it; dialling and sleeping are
  parameters. The state \<open>'w\<close> is the world outside.
\<close>

section \<open>The code\<close>

datatype reply = SimpleReply string | BulkReply string | IntReply "64 word" | ArrayReply "reply list" | NilReply

record 'w connection =
  conn_Do :: "string \<Rightarrow> string list \<Rightarrow> 'w \<Rightarrow> reply res \<times> 'w"
  conn_Close :: "'w \<Rightarrow> unit res \<times> 'w"

record client_options =
  c_host :: string
  c_port :: int
  c_password :: string
  c_tls :: bool
  c_aliases :: "(string \<times> string) list"

record 'w client = client_options +
  c_connection :: "'w connection"

text \<open>\<open>redis.String\<close> and \<open>redis.StringMap\<close> of redigo, as far as they tell replies apart.\<close>

fun redis_String :: "reply \<Rightarrow> string res" where
  "redis_String (SimpleReply s) = Ok s"
| "redis_String (BulkReply s) = Ok s"
| "redis_String NilReply = Err (RedisError ''redigo: nil returned'')"
| "redis_String _ = Err (RedisError ''redigo: unexpected type for String'')"

fun pairs_of :: "reply list \<Rightarrow> (string \<times> string) list res" where
  "pairs_of (BulkReply k # BulkReply v # xs) = res_bind (pairs_of xs) (\<lambda>m. Ok ((k, v) # m))"
| "pairs_of [] = Ok []"
| "pairs_of xs = Err (RedisError ''redigo: StringMap key not a bulk string value'')"

fun redis_StringMap :: "reply \<Rightarrow> (string \<times> string) list res" where
  "redis_StringMap (ArrayReply xs) =
     (if odd (length xs)
      then Err (RedisError ''redigo: StringMap expects even number of values result'')
      else res_bind (pairs_of xs) (\<lambda>m. Ok (rev m)))"
| "redis_StringMap NilReply = Err (RedisError ''redigo: nil returned'')"
| "redis_StringMap _ = Err (RedisError ''redigo: unexpected type for Values'')"

definition registerAlias :: "string \<Rightarrow> string \<Rightarrow> client_options \<Rightarrow> client_options" where
  "registerAlias cmd alias c = c\<lparr>c_aliases := AList.update (strings_ToUpper cmd) alias (c_aliases c)\<rparr>"

definition lookup_alias :: "(string \<times> string) list \<Rightarrow> string \<Rightarrow> string" where
  "lookup_alias aliases cmd = (case map_of aliases (strings_ToUpper cmd) of None \<Rightarrow> cmd | Some alias \<Rightarrow> alias)"

definition lookupAlias :: "'w client \<Rightarrow> string \<Rightarrow> string" where
  "lookupAlias c cmd = lookup_alias (c_aliases c) cmd"

text \<open>The options of \<open>Connect\<close>. \<open>CmdAliases\<close> goes through its map in some order.\<close>

definition Password :: "string \<Rightarrow> client_options \<Rightarrow> client_options" where
  "Password password c = c\<lparr>c_password := password\<rparr>"

definition Port :: "int \<Rightarrow> client_options \<Rightarrow> client_options" where
  "Port port c = (if port > 0 then c\<lparr>c_port := port\<rparr> else c)"

definition Host :: "string \<Rightarrow> client_options \<Rightarrow> client_options" where
  "Host host c = c\<lparr>c_host := host\<rparr>"

definition Tls :: "bool \<Rightarrow> client_options \<Rightarrow> client_options" where
  "Tls tls c = c\<lparr>c_tls := tls\<rparr>"

definition CmdAliases :: "(string \<times> string) list \<Rightarrow> client_options \<Rightarrow> client_options" where
  "CmdAliases aliases c = fold (\<lambda>(cmd, alias). registerAlias cmd alias) aliases (c\<lparr>c_aliases := []\<rparr>)"

definition default_options :: client_options where
  "default_options =
     \<lparr>c_host = ''0.0.0.0'', c_port = DefaultPort, c_password = '''', c_tls = False, c_aliases = []\<rparr>"

definition with_connection :: "client_options \<Rightarrow> 'w connection \<Rightarrow> 'w client" where
  "with_connection o' conn = client_options.extend o' (client.fields conn)"

definition options_Address :: "client_options \<Rightarrow> string" where
  "options_Address c = c_host c @ '':'' @ strconv_Itoa (c_port c)"

definition Exec :: "'w client \<Rightarrow> string \<Rightarrow> string list \<Rightarrow> 'w \<Rightarrow> reply res \<times> 'w" where
  "Exec c command args w = conn_Do (c_connection c) command args w"

definition Connect ::
    "(string \<Rightarrow> bool \<Rightarrow> 'w \<Rightarrow> 'w connection res \<times> 'w) \<Rightarrow> (client_options \<Rightarrow> client_options) list \<Rightarrow> 'w \<Rightarrow>
     'w client res \<times> 'w" where
  "Connect dial options w =
     (let o' = fold (\<lambda>opt. opt) options default_options in
      io_bind (dial (options_Address o') (c_tls o') w) (\<lambda>conn w.
        (let c = with_connection o' conn in
         if c_password c \<noteq> '''' then
           (case Exec c ''AUTH'' [c_password c] w of
              (Ok _, w1) \<Rightarrow> (Ok c, w1)
            | (Err e, w1) \<Rightarrow> (Err e, snd (conn_Close (c_connection c) w1))
            | (Panic m, w1) \<Rightarrow> (Panic m, w1))
         else (Ok c, w))))"

definition Disconnect :: "'w client \<Rightarrow> 'w \<Rightarrow> unit res \<times> 'w" where
  "Disconnect c w = conn_Close (c_connection c) w"

definition Client_Address :: "'w client \<Rightarrow> string" where
  "Client_Address c = c_host c @ '':'' @ strconv_Itoa (c_port c)"

definition exec_string :: "'w client \<Rightarrow> string \<Rightarrow> string list \<Rightarrow> 'w \<Rightarrow> string res \<times> 'w" where
  "exec_string c command args w =
     io_bind (Exec c command args w) (\<lambda>r w. (redis_String r, w))"

text \<open>
  The loop of \<open>Info\<close>. An entry without a colon has no second part: reading it panics. Of a value
  that contains colons only the part before the next one is kept.
\<close>

fun info_loop :: "string list \<Rightarrow> (string \<times> string) list \<Rightarrow> (string \<times> string) list res" where
  "info_loop [] info = Ok info"
| "info_loop (entry # entries) info =
     (let trimmedEntry = strings_TrimSpace entry in
      if trimmedEntry = '''' \<or> hd trimmedEntry = CHR ''#'' then info_loop entries info
      else (case strings_Split (CHR '':'') trimmedEntry of
              k # v # _ \<Rightarrow> info_loop entries (AList.update k v info)
            | _ \<Rightarrow> Panic ''index out of range''))"

definition Info :: "'w client \<Rightarrow> 'w \<Rightarrow> (string \<times> string) list res \<times> 'w" where
  "Info c w =
     io_bind (exec_string c (lookupAlias c ''INFO'') [] w) (\<lambda>response w.
       (info_loop (strings_Split (CHR 0x0A) response) [], w))"

text \<open>The format string ends in a verb without an argument, and the error is appended to it.\<close>

definition InfoField :: "'w client \<Rightarrow> string \<Rightarrow> 'w \<Rightarrow> string res \<times> 'w" where
  "InfoField c fieldName w =
     (case Info c w of
        (Err e, w1) \<Rightarrow> (Err (Errorf ''Error during redis info: %!s(MISSING)'' e), w1)
      | (Panic m, w1) \<Rightarrow> (Panic m, w1)
      | (Ok info, w1) \<Rightarrow>
          (case map_of info fieldName of
             None \<Rightarrow> (Err (ErrorString (''Unknown field: '' @ fieldName)), w1)
           | Some value \<Rightarrow> (Ok value, w1)))"

partial_function (option) not_loading_loop ::
    "'w client \<Rightarrow> (duration \<Rightarrow> 'w \<Rightarrow> 'w) \<Rightarrow> 64 word \<Rightarrow> 64 word \<Rightarrow> 'w \<Rightarrow> (unit res \<times> 'w) option" where
  "not_loading_loop c sleep timeout i w =
     (if i <s timeout then
        (case InfoField c ''loading'' w of
           (Ok loading, w1) \<Rightarrow>
             if loading = ''0'' then Some (Ok (), w1)
             else not_loading_loop c sleep timeout (i + 100) (sleep (100 * millisecond) w1)
         | (Err e, w1) \<Rightarrow> Some (Err e, w1)
         | (Panic m, w1) \<Rightarrow> Some (Panic m, w1))
      else Some (Ok (), w))"

definition WaitUntilRedisNotLoading ::
    "'w client \<Rightarrow> (duration \<Rightarrow> 'w \<Rightarrow> 'w) \<Rightarrow> 64 word \<Rightarrow> 'w \<Rightarrow> (unit res \<times> 'w) option" where
  "WaitUntilRedisNotLoading c sleep timeoutMilliseconds w =
     not_loading_loop c sleep timeoutMilliseconds 0 w"

definition setConfig :: "'w client \<Rightarrow> string \<Rightarrow> string \<Rightarrow> 'w \<Rightarrow> unit res \<times> 'w" where
  "setConfig c key value w =
     io_bind (Exec c (lookupAlias c ''CONFIG'') [''SET'', key, value] w) (\<lambda>_ w. (Ok (), w))"

definition EnableAOF :: "'w client \<Rightarrow> 'w \<Rightarrow> unit res \<times> 'w" where
  "EnableAOF c w = setConfig c ''appendonly'' ''yes'' w"

definition RunBGSave :: "'w client \<Rightarrow> 'w \<Rightarrow> unit res \<times> 'w" where
  "RunBGSave c w = io_bind (Exec c (lookupAlias c ''BGSAVE'') [] w) (\<lambda>_ w. (Ok (), w))"

text \<open>A reply that is not an integer makes the type assertion panic.\<close>

definition LastRDBSaveTime :: "'w client \<Rightarrow> 'w \<Rightarrow> 64 word res \<times> 'w" where
  "LastRDBSaveTime c w =
     io_bind (Exec c ''LASTSAVE'' [] w) (\<lambda>r w.
       (case r of IntReply n \<Rightarrow> Ok n | _ \<Rightarrow> Panic ''interface conversion'', w))"

text \<open>The leftmost match of \<open>keys=(\d+)\<close>: the digits.\<close>

fun find_keys :: "string \<Rightarrow> string option" where
  "find_keys s =
     (if take 5 s = ''keys='' \<and> takeWhile is_digit (drop 5 s) \<noteq> []
      then Some (takeWhile is_digit (drop 5 s))
      else (case s of [] \<Rightarrow> None | _ # cs \<Rightarrow> find_keys cs))"

fun count_keys :: "string list \<Rightarrow> 64 word \<Rightarrow> 64 word" where
  "count_keys [] globalCount = globalCount"
| "count_keys (keyspace # keyspaces) globalCount =
     (case find_keys keyspace of
        None \<Rightarrow> count_keys keyspaces globalCount
      | Some digits \<Rightarrow>
          (case strconv_Atoi digits of
             Ok n \<Rightarrow> count_keys keyspaces (globalCount + of_int n)
           | _ \<Rightarrow> count_keys keyspaces globalCount))"

definition GlobalKeyCount :: "'w client \<Rightarrow> 'w \<Rightarrow> 64 word res \<times> 'w" where
  "GlobalKeyCount c w =
     io_bind (exec_string c (lookupAlias c ''INFO'') [''keyspace''] w) (\<lambda>keyspaces w.
       (Ok (count_keys (strings_Split (CHR 0x0A) keyspaces) 0), w))"

text \<open>
  The \<open>select\<close> of \<open>WaitForNewSaveSince\<close>: each turn either the second is over first or the timer
  of the whole call is. The argument says which, turn by turn; with no more turns the call is
  still waiting.
\<close>

datatype select_case = SecondOver | TimerFired

fun WaitForNewSaveSince ::
    "'w client \<Rightarrow> 64 word \<Rightarrow> select_case list \<Rightarrow> 'w \<Rightarrow> (unit res \<times> 'w) option" where
  "WaitForNewSaveSince c lastSaveTime [] w = None"
| "WaitForNewSaveSince c lastSaveTime (TimerFired # ev) w =
     Some (Err (ErrorString ''Timed out waiting for background save to complete''), w)"
| "WaitForNewSaveSince c lastSaveTime (SecondOver # ev) w =
     (case LastRDBSaveTime c w of
        (Ok latestSaveTime, w1) \<Rightarrow>
          if lastSaveTime <s latestSaveTime then Some (Ok (), w1)
          else WaitForNewSaveSince c lastSaveTime ev w1
      | (Err e, w1) \<Rightarrow> Some (Err e, w1)
      | (Panic m, w1) \<Rightarrow> Some (Panic m, w1))"

definition GetConfig :: "'w client \<Rightarrow> string \<Rightarrow> 'w \<Rightarrow> string res \<times> 'w" where
  "GetConfig c key w =
     io_bind (Exec c (lookupAlias c ''CONFIG'') [''GET'', key] w) (\<lambda>r w.
       (res_bind (redis_StringMap r) (\<lambda>output.
          (case map_of output key of
             None \<Rightarrow> Err (ErrorString (''Key '' @ [CHR 0x27] @ key @ [CHR 0x27] @ '' not found''))
           | Some value \<Rightarrow> Ok value)), w))"

definition RDBPath :: "'w client \<Rightarrow> 'w \<Rightarrow> string res \<times> 'w" where
  "RDBPath c w =
     io_bind (GetConfig c ''dir'' w) (\<lambda>dataDir w.
       if dataDir = '''' then (Err (ErrorString ''Data dir not set''), w)
       else io_bind (GetConfig c ''dbfilename'' w) (\<lambda>dbFilename w.
              (Ok (path_Join [dataDir, dbFilename]), w)))"

definition Ping :: "'w client \<Rightarrow> 'w \<Rightarrow> unit res \<times> 'w" where
  "Ping c w =
     io_bind (exec_string c (lookupAlias c ''PING'') [] w) (\<lambda>response w.
       (if strings_TrimSpace response \<noteq> ''PONG''
        then Err (ErrorString (''ping resonded with `'' @ response @ ''`'')) else Ok (), w))"

definition PingServer ::
    "(string \<Rightarrow> bool \<Rightarrow> 'w \<Rightarrow> 'w connection res \<times> 'w) \<Rightarrow> redis_instance \<Rightarrow> 'w \<Rightarrow> unit res \<times> 'w" where
  "PingServer dial inst w =
     io_bind (Connect dial [Host (inst_Host inst), Port (inst_Port inst), Password (inst_Password inst)] w)
       (\<lambda>c w. Ping c w)"

declare not_loading_loop.simps [code]

section \<open>Info\<close>

text \<open>
  A reference reading of the reply to \<open>INFO\<close>: the lines that count, each split at its first
  colon; the value ends at the next colon.
\<close>

definition counting :: "string list \<Rightarrow> string list" where
  "counting ls = filter (\<lambda>l. l \<noteq> '''' \<and> hd l \<noteq> CHR ''#'') (map strings_TrimSpace ls)"

definition info_entries :: "string \<Rightarrow> string list" where
  "info_entries s = counting (strings_Split (CHR 0x0A) s)"

definition info_pair :: "string \<Rightarrow> string \<times> string" where
  "info_pair l =
     (takeWhile (\<lambda>c. c \<noteq> CHR '':'') l,
      takeWhile (\<lambda>c. c \<noteq> CHR '':'') (tl (dropWhile (\<lambda>c. c \<noteq> CHR '':'') l)))"

lemma strings_Split_first:
  "c \<in> set s \<Longrightarrow> strings_Split c s =
     takeWhile (\<lambda>x. x \<noteq> c) s # strings_Split c (tl (dropWhile (\<lambda>x. x \<noteq> c) s))"
  by (induction s) (auto split: list.splits)

lemma hd_strings_Split: "hd (strings_Split c s) = takeWhile (\<lambda>x. x \<noteq> c) s"
  by (induction s) (auto split: list.splits)

lemma Split_pair:
  "CHR '':'' \<in> set l \<Longrightarrow>
     \<exists>rest. strings_Split (CHR '':'') l = fst (info_pair l) # snd (info_pair l) # rest"
  using strings_Split_first [of "CHR '':''" l]
    hd_strings_Split [of "CHR '':''" "tl (dropWhile (\<lambda>x. x \<noteq> CHR '':'') l)"]
    strings_Split_nonempty [of "CHR '':''" "tl (dropWhile (\<lambda>x. x \<noteq> CHR '':'') l)"]
  by (cases "strings_Split (CHR '':'') (tl (dropWhile (\<lambda>x. x \<noteq> CHR '':'') l))")
    (auto simp: info_pair_def)

lemma counting_simps [simp]:
  "counting [] = []"
  "counting (l # ls) = (let t = strings_TrimSpace l in
     if t = '''' \<or> hd t = CHR ''#'' then counting ls else t # counting ls)"
  by (auto simp: counting_def Let_def)

lemma info_loop_spec:
  "info_loop ls acc =
     (if \<forall>l \<in> set (counting ls). CHR '':'' \<in> set l
      then Ok (fold (\<lambda>l. AList.update (fst (info_pair l)) (snd (info_pair l))) (counting ls) acc)
      else Panic ''index out of range'')"
proof (induction ls arbitrary: acc)
  case (Cons l ls)
  show ?case
  proof (cases "CHR '':'' \<in> set (strings_TrimSpace l)")
    case True
    with Cons show ?thesis
      using Split_pair [OF True] by (auto simp: Let_def)
  next
    case False
    with Cons show ?thesis by (simp add: Let_def)
  qed
qed simp

lemma map_of_fold_update:
  "map_of (fold (\<lambda>l. AList.update (f l) (g l)) ls acc) k =
     (case map_of (rev (map (\<lambda>l. (f l, g l)) ls)) k of None \<Rightarrow> map_of acc k | Some v \<Rightarrow> Some v)"
  by (induction ls arbitrary: acc)
    (auto simp: update_conv' map_add_def map_of_append split: option.splits)

text \<open>What a server prints: sections and entries, each line ended by CR LF.\<close>

definition printable :: "char \<Rightarrow> bool" where
  "printable c \<longleftrightarrow> 32 \<le> (of_char c :: nat) \<and> (of_char c :: nat) < 127"

definition wf_info :: "string \<times> string \<Rightarrow> bool" where
  "wf_info = (\<lambda>(k, v). (\<forall>c \<in> set (k @ v). printable c \<and> c \<noteq> CHR '':'') \<and>
     k \<noteq> '''' \<and> hd k \<noteq> CHR '' '' \<and> hd k \<noteq> CHR ''#'' \<and> (v = '''' \<or> last v \<noteq> CHR '' ''))"

definition info_line :: "string \<times> string \<Rightarrow> string" where
  "info_line = (\<lambda>(k, v). k @ '':'' @ v @ [CHR 0x0D, CHR 0x0A])"

definition print_info :: "(string \<times> string) list \<Rightarrow> string" where
  "print_info kvs = ''# Server'' @ [CHR 0x0D, CHR 0x0A] @ concat (map info_line kvs)"

lemma go_spaces_ends:
  "list_all (\<lambda>sp. sp \<noteq> [] \<and>
     \<not> (32 < (of_char (hd sp) :: nat) \<and> (of_char (hd sp) :: nat) < 127) \<and>
     \<not> (32 < (of_char (last sp) :: nat) \<and> (of_char (last sp) :: nat) < 127)) go_spaces"
  by code_simp

lemmas go_space_ends = go_spaces_ends [unfolded list_all_iff, rule_format]

lemma trim_front_visible:
  assumes "s \<noteq> []" "32 < (of_char (hd s) :: nat)" "(of_char (hd s) :: nat) < 127"
  shows "trim_front go_spaces s = s" and "trim_front (map rev go_spaces) s = s"
proof -
  have "\<not> prefix sp s" if "sp \<in> set go_spaces" for sp
    using go_space_ends [OF that] assms by (cases sp; cases s) auto
  then show "trim_front go_spaces s = s" by (intro trim_front_id)
  have "\<not> prefix (rev sp) s" if "sp \<in> set go_spaces" for sp
    using go_space_ends [OF that] assms
    by (cases sp rule: rev_cases; cases s) auto
  then show "trim_front (map rev go_spaces) s = s" by (intro trim_front_id) auto
qed

lemma trim_front_found:
  assumes "sps = as @ sp # bs" "list_all (\<lambda>t. \<not> prefix t s) as" "sp \<noteq> []" "prefix sp s"
  shows "trim_front sps s = trim_front sps (drop (length sp) s)"
proof -
  have "find (\<lambda>t. t \<noteq> [] \<and> prefix t s) (as @ sp # bs) = Some sp"
    using assms(2-4) by (induction as) auto
  then show ?thesis using trim_front.simps [of sps s] assms(1) by (simp only: option.case)
qed

lemma trim_front_CR: "trim_front (map rev go_spaces) (CHR 0x0D # s) = trim_front (map rev go_spaces) s"
proof -
  have "map rev go_spaces =
      [[CHR 0x09], [CHR 0x0A], [CHR 0x0B], [CHR 0x0C]] @ [CHR 0x0D] # map rev (drop 5 go_spaces)"
    by code_simp
  from trim_front_found [OF this, of "CHR 0x0D # s"] show ?thesis by simp
qed

lemma TrimSpace_line:
  assumes "l \<noteq> []" "32 < (of_char (hd l) :: nat)" "(of_char (hd l) :: nat) < 127"
    and "32 < (of_char (last l) :: nat)" "(of_char (last l) :: nat) < 127"
  shows "strings_TrimSpace (l @ [CHR 0x0D]) = l"
  using assms trim_front_visible(1) [of "l @ [CHR 0x0D]"] trim_front_visible(2) [of "rev l"]
  by (simp add: strings_TrimSpace_def trim_front_CR hd_rev)
lemma strings_Split_lines:
  assumes "\<forall>l \<in> set ls. CHR 0x0A \<notin> set l"
  shows "strings_Split (CHR 0x0A) (concat (map (\<lambda>l. l @ [CHR 0x0A]) ls)) = ls @ [[]]"
  using assms by (induction ls) auto

lemma printable_visible:
  assumes "printable c" "c \<noteq> CHR '' ''"
  shows "32 < (of_char c :: nat)" "(of_char c :: nat) < 127"
proof -
  have "of_char c \<noteq> (of_char (CHR '' '') :: nat)" using assms(2) by (simp only: of_char_eq_iff) simp
  then have "of_char c \<noteq> (32 :: nat)" by simp
  with assms(1) show "32 < (of_char c :: nat)" "(of_char c :: nat) < 127"
    by (auto simp: printable_def)
qed

lemma printable_no_LF: "printable c \<Longrightarrow> c \<noteq> CHR 0x0A"
  by (auto simp: printable_def)

lemma wf_infoD:
  assumes "wf_info (k, v)"
  shows "\<forall>c \<in> set k. printable c \<and> c \<noteq> CHR '':''" "\<forall>c \<in> set v. printable c \<and> c \<noteq> CHR '':''"
    "k \<noteq> []" "hd k \<noteq> CHR '' ''" "hd k \<noteq> CHR ''#''" "v = [] \<or> last v \<noteq> CHR '' ''"
  using assms unfolding wf_info_def by simp_all

lemma wf_info_trim:
  assumes "wf_info (k, v)"
  shows "strings_TrimSpace (k @ '':'' @ v @ [CHR 0x0D]) = k @ '':'' @ v"
proof -
  note wf = wf_infoD [OF assms]
  have "32 < (of_char (last (k @ '':'' @ v)) :: nat) \<and> (of_char (last (k @ '':'' @ v)) :: nat) < 127"
    using wf(2,6) printable_visible [of "last v"] by (cases "v = []") simp_all
  moreover have "32 < (of_char (hd (k @ '':'' @ v)) :: nat) \<and> (of_char (hd (k @ '':'' @ v)) :: nat) < 127"
    using wf(1,3,4) printable_visible [of "hd k"] by simp
  ultimately show ?thesis
    using TrimSpace_line [of "k @ '':'' @ v"] by simp
qed

lemma wf_info_no_LF:
  assumes "wf_info (k, v)"
  shows "CHR 0x0A \<notin> set (k @ '':'' @ v @ [CHR 0x0D])"
proof -
  have "CHR 0x0A \<notin> set k" "CHR 0x0A \<notin> set v"
    using wf_infoD(1,2) [OF assms] printable_no_LF by metis+
  then show ?thesis by simp
qed

lemma info_pair_append:
  assumes "\<forall>c \<in> set k. c \<noteq> CHR '':''" "\<forall>c \<in> set v. c \<noteq> CHR '':''"
  shows "info_pair (k @ CHR '':'' # v) = (k, v)"
proof -
  have "takeWhile (\<lambda>c. c \<noteq> CHR '':'') v = v"
    unfolding takeWhile_eq_all_conv by (rule assms(2))
  then show ?thesis using assms(1) unfolding info_pair_def by simp
qed

lemma wf_info_pair:
  assumes "wf_info (k, v)"
  shows "info_pair (k @ '':'' @ v) = (k, v)"
  using wf_infoD(1,2) [OF assms] info_pair_append [of k v] by auto

lemmas wf_info_line = wf_info_trim wf_info_no_LF wf_info_pair

lemma counting_append: "counting (xs @ ys) = counting xs @ counting ys"
  by (simp add: counting_def)

lemma counting_wf:
  "\<forall>kv \<in> set kvs. wf_info kv \<Longrightarrow>
     counting (map (\<lambda>(k, v). k @ '':'' @ v @ [CHR 0x0D]) kvs) = map (\<lambda>(k, v). k @ '':'' @ v) kvs"
proof (induction kvs)
  case (Cons kv kvs)
  obtain k v where kv: "kv = (k, v)" by force
  have "k \<noteq> []" "hd k \<noteq> CHR ''#''" using Cons.prems kv by (auto simp: wf_info_def)
  then show ?case
    using Cons wf_info_line(1) [of k v] kv by (simp add: Let_def)
qed simp

lemma print_info_lines:
  "print_info kvs = concat (map (\<lambda>l. l @ [CHR 0x0A])
     ((''# Server'' @ [CHR 0x0D]) # map (\<lambda>(k, v). k @ '':'' @ v @ [CHR 0x0D]) kvs))"
  by (simp add: print_info_def info_line_def comp_def case_prod_unfold)

lemma counting_comment: "counting [''# Server'' @ [CHR 0x0D]] = []" "counting [[]] = []"
proof -
  have "strings_TrimSpace (''# Server'' @ [CHR 0x0D]) = ''# Server''"
    by (rule TrimSpace_line) simp_all
  then show "counting [''# Server'' @ [CHR 0x0D]] = []"
    unfolding counting_simps by simp
  show "counting [[]] = []" by code_simp
qed

lemma info_entries_lines:
  assumes "\<forall>l \<in> set (h # ls). CHR 0x0A \<notin> set l"
  shows "info_entries (concat (map (\<lambda>l. l @ [CHR 0x0A]) (h # ls))) =
    counting [h] @ counting ls @ counting [[]]"
  unfolding info_entries_def strings_Split_lines [OF assms]
  by (simp only: counting_append [symmetric]) simp

lemma info_entries_print:
  assumes "\<forall>kv \<in> set kvs. wf_info kv"
  shows "info_entries (print_info kvs) = map (\<lambda>(k, v). k @ '':'' @ v) kvs"
proof -
  have "\<forall>l \<in> set ((''# Server'' @ [CHR 0x0D]) # map (\<lambda>(k, v). k @ '':'' @ v @ [CHR 0x0D]) kvs).
      CHR 0x0A \<notin> set l"
    using assms wf_info_line(2) by auto
  from info_entries_lines [OF this] show ?thesis
    unfolding print_info_lines [symmetric] counting_wf [OF assms] counting_comment by simp
qed

lemma Info_reply:
  assumes "exec_string c (lookupAlias c ''INFO'') [] w = (Ok s, w1)"
  shows "Info c w = (info_loop (strings_Split (CHR 0x0A) s) [], w1)"
  by (simp add: Info_def assms)

lemma map_of_info:
  "map_of (fold (\<lambda>l. AList.update (fst (info_pair l)) (snd (info_pair l))) ls []) k =
     map_of (rev (map info_pair ls)) k"
  by (subst map_of_fold_update) (simp split: option.splits)

section \<open>Waiting\<close>

text \<open>The machine after \<open>k\<close> rounds of a server that is still loading, and the rounds of a timeout.\<close>

primrec after_loading :: "'w client \<Rightarrow> (duration \<Rightarrow> 'w \<Rightarrow> 'w) \<Rightarrow> nat \<Rightarrow> 'w \<Rightarrow> 'w" where
  "after_loading c sleep 0 w = w"
| "after_loading c sleep (Suc k) w =
     after_loading c sleep k (sleep (100 * millisecond) (snd (InfoField c ''loading'' w)))"

definition still_loading :: "'w client \<Rightarrow> (duration \<Rightarrow> 'w \<Rightarrow> 'w) \<Rightarrow> nat \<Rightarrow> 'w \<Rightarrow> bool" where
  "still_loading c sleep k w \<longleftrightarrow>
     (case fst (InfoField c ''loading'' (after_loading c sleep k w)) of Ok l \<Rightarrow> l \<noteq> ''0'' | _ \<Rightarrow> False)"

definition loading_rounds :: "64 word \<Rightarrow> nat" where
  "loading_rounds t = nat ((sint t + 99) div 100)"

fun forget :: "'a res \<Rightarrow> unit res" where
  "forget (Ok a) = Ok ()"
| "forget (Err e) = Err e"
| "forget (Panic m) = Panic m"

primrec await :: "'w client \<Rightarrow> (duration \<Rightarrow> 'w \<Rightarrow> 'w) \<Rightarrow> nat \<Rightarrow> 'w \<Rightarrow> unit res \<times> 'w" where
  "await c sleep 0 w = (Ok (), w)"
| "await c sleep (Suc n) w =
     (if still_loading c sleep 0 w
      then await c sleep n (sleep (100 * millisecond) (snd (InfoField c ''loading'' w)))
      else map_prod forget id (InfoField c ''loading'' w))"

lemma not_loading_await:
  assumes "0 \<le> sint i" "sint timeout + 100 < 2 ^ 63"
    and "n = nat ((sint timeout - sint i + 99) div 100)"
  shows "not_loading_loop c sleep timeout i w = Some (await c sleep n w)"
  using assms
proof (induction n arbitrary: i w)
  case 0
  then have "\<not> i <s timeout" by (auto simp: word_sless_alt)
  then show ?case by (subst not_loading_loop.simps) simp
next
  case (Suc n)
  then have less: "i <s timeout" by (simp add: word_sless_alt)
  then have step: "sint (i + 100) = sint i + 100"
    using Suc.prems(1,2) by (simp add: word_sless_alt sint_word_ariths signed_take_bit_int_eq_self)
  have "n = nat ((sint timeout - sint (i + 100) + 99) div 100)"
    using Suc.prems(3) step by simp
  then have "not_loading_loop c sleep timeout (i + 100) v = Some (await c sleep n v)" for v
    using Suc.IH [of "i + 100"] Suc.prems(1,2) step by simp
  with less show ?case
    by (subst not_loading_loop.simps) (auto simp: still_loading_def split: prod.splits res.splits)
qed

lemma still_loading_Suc:
  "still_loading c sleep (Suc k) w =
     still_loading c sleep k (sleep (100 * millisecond) (snd (InfoField c ''loading'' w)))"
  by (simp add: still_loading_def)

lemma await_cases:
  "(\<forall>k < n. still_loading c sleep k w) \<and> await c sleep n w = (Ok (), after_loading c sleep n w) \<or>
   (\<exists>k < n. (\<forall>j < k. still_loading c sleep j w) \<and> \<not> still_loading c sleep k w \<and>
      await c sleep n w = map_prod forget id (InfoField c ''loading'' (after_loading c sleep k w)))"
proof (induction n arbitrary: w)
  case (Suc n)
  show ?case
  proof (cases "still_loading c sleep 0 w")
    case True
    then show ?thesis
      using Suc [of "sleep (100 * millisecond) (snd (InfoField c ''loading'' w))"]
      by (auto simp: still_loading_Suc [symmetric] All_less_Suc2 Ex_less_Suc2)
  next
    case False
    then show ?thesis by (intro disjI2 exI [of _ 0]) (simp add: id_def)
  qed
qed simp

primrec after_saves :: "'w client \<Rightarrow> nat \<Rightarrow> 'w \<Rightarrow> 'w" where
  "after_saves c 0 w = w"
| "after_saves c (Suc k) w = after_saves c k (snd (LastRDBSaveTime c w))"

definition saved_since :: "'w client \<Rightarrow> 64 word \<Rightarrow> nat \<Rightarrow> 'w \<Rightarrow> bool option" where
  "saved_since c t k w =
     (case fst (LastRDBSaveTime c (after_saves c k w)) of Ok n \<Rightarrow> Some (t <s n) | _ \<Rightarrow> None)"

lemma saved_since_Suc: "saved_since c t (Suc k) w = saved_since c t k (snd (LastRDBSaveTime c w))"
  by (simp add: saved_since_def)

lemma WaitForNewSave_second:
  "WaitForNewSaveSince c t (SecondOver # ev) w =
     (case saved_since c t 0 w of
        Some True \<Rightarrow> Some (Ok (), snd (LastRDBSaveTime c w))
      | Some False \<Rightarrow> WaitForNewSaveSince c t ev (snd (LastRDBSaveTime c w))
      | None \<Rightarrow> Some (forget (fst (LastRDBSaveTime c w)), snd (LastRDBSaveTime c w)))"
  by (auto simp: saved_since_def split: prod.splits res.splits)

definition seconds_before_timer :: "select_case list \<Rightarrow> nat" where
  "seconds_before_timer ev = length (takeWhile (\<lambda>e. e = SecondOver) ev)"

lemma seconds_before_timer_simps [simp]:
  "seconds_before_timer [] = 0"
  "seconds_before_timer (TimerFired # ev) = 0"
  "seconds_before_timer (SecondOver # ev) = Suc (seconds_before_timer ev)"
  by (simp_all add: seconds_before_timer_def)

lemma forget_not_Ok: "saved_since c t 0 w = None \<Longrightarrow> forget (fst (LastRDBSaveTime c w)) \<noteq> Ok ()"
  by (auto simp: saved_since_def split: res.splits)

lemma WaitForNewSave_Ok_iff:
  "(\<exists>w'. WaitForNewSaveSince c t ev w = Some (Ok (), w')) \<longleftrightarrow>
     (\<exists>k < seconds_before_timer ev. saved_since c t k w = Some True \<and>
        (\<forall>j < k. saved_since c t j w = Some False))"
proof (induction ev arbitrary: w)
  case (Cons e ev)
  show ?case
  proof (cases e)
    case SecondOver
    show ?thesis
    proof (cases "saved_since c t 0 w = Some False")
      case True
      then show ?thesis
        unfolding SecondOver WaitForNewSave_second
        using Cons.IH [of "snd (LastRDBSaveTime c w)"]
        by (simp add: Ex_less_Suc2 All_less_Suc2 saved_since_Suc)
    next
      case False
      then have "(\<exists>k < Suc (seconds_before_timer ev). saved_since c t k w = Some True \<and>
          (\<forall>j < k. saved_since c t j w = Some False)) \<longleftrightarrow> saved_since c t 0 w = Some True"
        by (metis gr0I zero_less_Suc not_less_zero)
      with False show ?thesis
        unfolding SecondOver WaitForNewSave_second
        using forget_not_Ok [of c t w]
        by (cases "saved_since c t 0 w") (auto split: bool.splits)
    qed
  qed simp
qed simp

lemma WaitForNewSave_returns:
  "TimerFired \<in> set ev \<Longrightarrow> \<exists>r w'. WaitForNewSaveSince c t ev w = Some (r, w')"
proof (induction c t ev w rule: WaitForNewSaveSince.induct)
  case (3 c t ev w)
  then show ?case
    unfolding WaitForNewSave_second
    by (cases "LastRDBSaveTime c w")
      (auto simp: saved_since_def split: option.splits bool.splits res.splits)
qed auto

section \<open>Counting keys\<close>

definition keyspace_line :: "int \<times> int \<times> int \<Rightarrow> string" where
  "keyspace_line = (\<lambda>(db, keys, expires).
     ''db'' @ strconv_Itoa db @ '':keys='' @ strconv_Itoa keys @ '',expires='' @ strconv_Itoa expires
     @ '',avg_ttl=0'' @ [CHR 0x0D])"

definition print_keyspace :: "(int \<times> int \<times> int) list \<Rightarrow> string" where
  "print_keyspace dbs =
     concat (map (\<lambda>l. l @ [CHR 0x0A]) ((''# Keyspace'' @ [CHR 0x0D]) # map keyspace_line dbs))"

declare find_keys.simps [simp del]

lemma find_keys_skip: "CHR ''k'' \<notin> set pre \<Longrightarrow> find_keys (pre @ s) = find_keys s"
proof (induction pre)
  case (Cons x pre)
  then have "x \<noteq> CHR ''k''" by auto
  then have "find_keys (x # pre @ s) = find_keys (pre @ s)"
    by (subst find_keys.simps) simp
  with Cons show ?case by simp
qed simp

lemma find_keys_Nil: "find_keys [] = None"
  by (simp add: find_keys.simps)

lemma find_keys_none: "CHR ''k'' \<notin> set s \<Longrightarrow> find_keys s = None"
  using find_keys_skip [of s "[]"] find_keys_Nil by simp

lemma find_keys_digits:
  assumes "ds \<noteq> []" "\<forall>c \<in> set ds. is_digit c" "\<not> is_digit c"
  shows "find_keys (''keys='' @ ds @ c # rest) = Some ds"
proof -
  have "takeWhile is_digit (ds @ c # rest) = ds" using assms(2,3) by simp
  then show ?thesis using assms(1) by (subst find_keys.simps) simp
qed

lemma Itoa_nonneg: "0 \<le> i \<Longrightarrow> strconv_Itoa i \<noteq> [] \<and> (\<forall>c \<in> set (strconv_Itoa i). is_digit c)"
  using nat_digits_digits by (auto simp: strconv_Itoa_def)

lemma no_k_Itoa: "CHR ''k'' \<notin> set (strconv_Itoa i)"
  using Itoa_chars [of "CHR ''k''" i] by (auto simp: is_digit_def)

lemma find_keys_line:
  assumes "0 \<le> n"
  shows "find_keys (keyspace_line (db, n, e)) = Some (strconv_Itoa n)"
proof -
  let ?rest = "''expires='' @ strconv_Itoa e @ '',avg_ttl=0'' @ [CHR 0x0D]"
  have "CHR ''k'' \<notin> set (''db'' @ strconv_Itoa db @ '':'')"
    using no_k_Itoa by simp
  from find_keys_skip [OF this, of "''keys='' @ strconv_Itoa n @ CHR '','' # ?rest"]
  have "find_keys (keyspace_line (db, n, e)) = find_keys (''keys='' @ strconv_Itoa n @ CHR '','' # ?rest)"
    by (simp add: keyspace_line_def)
  also have "\<dots> = Some (strconv_Itoa n)"
    using Itoa_nonneg [OF assms] by (intro find_keys_digits) (simp_all add: is_digit_def)
  finally show ?thesis .
qed

lemma count_keys_lines:
  assumes "\<forall>(db, n, e) \<in> set dbs. 0 \<le> n \<and> n < 2 ^ 63"
  shows "count_keys (map keyspace_line dbs @ [[]]) acc = acc + of_int (\<Sum>(db, n, e) \<leftarrow> dbs. n)"
  using assms
proof (induction dbs arbitrary: acc)
  case Nil
  show ?case by (simp add: find_keys_Nil)
next
  case (Cons d dbs)
  obtain db n e where d: "d = (db, n, e)" by (cases d) auto
  with Cons.prems have "0 \<le> n" "strconv_Atoi (strconv_Itoa n) = Ok n"
    by (auto simp: in_int_range_def intro!: Atoi_Itoa)
  then show ?case using Cons d find_keys_line [of n db e] by (simp add: algebra_simps)
qed

lemma no_LF_line: "CHR 0x0A \<notin> set (keyspace_line d)"
proof -
  have "CHR 0x0A \<notin> set (strconv_Itoa i)" for i
    using Itoa_chars [of "CHR 0x0A" i] by (auto simp: is_digit_def)
  then show ?thesis by (cases d) (simp add: keyspace_line_def)
qed

lemma count_keys_print:
  assumes "\<forall>(db, n, e) \<in> set dbs. 0 \<le> n \<and> n < 2 ^ 63"
  shows "count_keys (strings_Split (CHR 0x0A) (print_keyspace dbs)) 0 = of_int (\<Sum>(db, n, e) \<leftarrow> dbs. n)"
proof -
  have "\<forall>l \<in> set ((''# Keyspace'' @ [CHR 0x0D]) # map keyspace_line dbs). CHR 0x0A \<notin> set l"
    using no_LF_line by auto
  then have "strings_Split (CHR 0x0A) (print_keyspace dbs) =
      (''# Keyspace'' @ [CHR 0x0D]) # map keyspace_line dbs @ [[]]"
    unfolding print_keyspace_def by (simp only: strings_Split_lines append_Cons)
  moreover have "find_keys (''# Keyspace'' @ [CHR 0x0D]) = None"
    by (intro find_keys_none) simp
  ultimately show ?thesis
    by (simp only: count_keys.simps option.case count_keys_lines [OF assms]) simp
qed

section \<open>Connections and aliases\<close>

text \<open>
  A count of open connections: dialling opens one, closing it ends it, sending a command does
  neither.
\<close>

definition counts_connections :: "(string \<Rightarrow> bool \<Rightarrow> 'w \<Rightarrow> 'w connection res \<times> 'w) \<Rightarrow> ('w \<Rightarrow> nat) \<Rightarrow> bool" where
  "counts_connections dial opened \<longleftrightarrow>
     (\<forall>a t w. (\<forall>conn w1. dial a t w = (Ok conn, w1) \<longrightarrow>
          opened w1 = opened w + 1 \<and>
          (\<forall>cmd args v. opened (snd (conn_Do conn cmd args v)) = opened v) \<and>
          (\<forall>v. opened (snd (conn_Close conn v)) = opened v - 1)) \<and>
        (\<not> is_ok (fst (dial a t w)) \<longrightarrow> opened (snd (dial a t w)) = opened w))"

lemma with_connection_sel [simp]:
  "c_connection (with_connection o' conn) = conn" "c_host (with_connection o' conn) = c_host o'"
  "c_port (with_connection o' conn) = c_port o'" "c_password (with_connection o' conn) = c_password o'"
  "c_tls (with_connection o' conn) = c_tls o'" "c_aliases (with_connection o' conn) = c_aliases o'"
  by (simp_all add: with_connection_def client_options.defs client.defs)

lemma Connect_OkE:
  assumes "Connect dial options w = (Ok c, w')"
  obtains conn w1 where
    "dial (options_Address (fold (\<lambda>opt. opt) options default_options))
       (c_tls (fold (\<lambda>opt. opt) options default_options)) w = (Ok conn, w1)"
    "c = with_connection (fold (\<lambda>opt. opt) options default_options) conn"
    "c_password c = '''' \<and> w' = w1 \<or>
     c_password c \<noteq> '''' \<and> (\<exists>r. conn_Do conn ''AUTH'' [c_password c] w1 = (Ok r, w'))"
  using assms
  by (auto simp: Connect_def Let_def io_bind_Ok_iff Exec_def split: if_splits prod.splits res.splits)
lemma conn_Do_opened:
  assumes "counts_connections dial opened" "dial a t w = (Ok conn, w1)"
  shows "opened w1 = opened w + 1" "opened (snd (conn_Do conn cmd args v)) = opened v"
    "opened (snd (conn_Close conn v)) = opened v - 1"
  using assms unfolding counts_connections_def by blast+

lemma Connect_Ok_opened:
  assumes count: "counts_connections dial opened" and run: "Connect dial options w = (Ok c, w')"
  shows "opened w' = opened w + 1 \<and> (\<forall>cmd args v. opened (snd (conn_Do (c_connection c) cmd args v)) = opened v)"
proof -
  obtain conn w1 where dial: "dial (options_Address (fold (\<lambda>opt. opt) options default_options))
      (c_tls (fold (\<lambda>opt. opt) options default_options)) w = (Ok conn, w1)"
    and c: "c = with_connection (fold (\<lambda>opt. opt) options default_options) conn"
    and auth: "c_password c = '''' \<and> w' = w1 \<or>
      c_password c \<noteq> '''' \<and> (\<exists>r. conn_Do conn ''AUTH'' [c_password c] w1 = (Ok r, w'))"
    using Connect_OkE [OF run] by blast
  note opened = conn_Do_opened [OF count dial]
  have "opened w' = opened w1"
    using auth opened(2) [of "''AUTH''" "[c_password c]" w1] by (metis snd_conv)
  then show ?thesis using opened(1,2) c by simp
qed

lemma Connect_Err_opened:
  assumes count: "counts_connections dial opened" and run: "Connect dial options w = (Err e, w')"
  shows "opened w' = opened w"
proof -
  define o' where "o' = fold (\<lambda>opt. opt) options default_options"
  obtain d w1 where dial: "dial (options_Address o') (c_tls o') w = (d, w1)" by fastforce
  show ?thesis
  proof (cases d)
    case (Ok conn)
    note opened = conn_Do_opened [OF count dial [unfolded Ok]]
    obtain r w2 where auth: "conn_Do conn ''AUTH'' [c_password o'] w1 = (r, w2)" by fastforce
    have "opened w2 = opened w1" using opened(2) [of "''AUTH''" "[c_password o']" w1] auth by simp
    moreover have "c_password o' \<noteq> '''' \<and> r = Err e \<and> w' = snd (conn_Close conn w2)"
      using run dial Ok auth
      by (auto simp: Connect_def Let_def Exec_def o'_def [symmetric] split: if_splits res.splits)
    ultimately show ?thesis using opened(1,3) by simp
  next
    case (Err e')
    then show ?thesis
      using run dial count unfolding counts_connections_def Connect_def Let_def o'_def [symmetric]
      by (auto dest!: spec [of _ "options_Address o'"] spec [of _ "c_tls o'"] spec [of _ w])
  next
    case (Panic m)
    then show ?thesis using run dial by (simp add: Connect_def Let_def o'_def [symmetric])
  qed
qed

lemma map_of_CmdAliases:
  "map_of (c_aliases (fold (\<lambda>(cmd, alias). registerAlias cmd alias) m o')) k =
     (case find (\<lambda>(cmd, alias). strings_ToUpper cmd = k) (rev m) of
        Some (cmd, alias) \<Rightarrow> Some alias | None \<Rightarrow> map_of (c_aliases o') k)"
proof (induction m rule: rev_induct)
  case (snoc x m)
  then show ?case
    by (cases x) (auto simp: registerAlias_def update_conv' split: option.splits)
qed simp

lemma find_unique:
  assumes "distinct (map f xs)" "x \<in> set xs" "f x = k"
  shows "find (\<lambda>x. f x = k) xs = Some x"
  using assms by (induction xs) auto

lemma CmdAliases_lookup:
  assumes "distinct (map (strings_ToUpper \<circ> fst) m)" "(cmd', alias) \<in> set m"
    "strings_ToUpper cmd' = strings_ToUpper cmd"
  shows "lookup_alias (c_aliases (CmdAliases m o')) cmd = alias"
proof -
  have "find (\<lambda>x. (strings_ToUpper \<circ> fst) x = strings_ToUpper cmd) (rev m) = Some (cmd', alias)"
    by (rule find_unique) (use assms in \<open>simp_all add: rev_map [symmetric] comp_def\<close>)
  then have "find (\<lambda>(cmd', alias). strings_ToUpper cmd' = strings_ToUpper cmd) (rev m) = Some (cmd', alias)"
    by (simp add: case_prod_unfold)
  then show ?thesis by (simp add: lookup_alias_def CmdAliases_def map_of_CmdAliases)
qed

lemma CmdAliases_none:
  assumes "\<forall>(cmd', alias) \<in> set m. strings_ToUpper cmd' \<noteq> strings_ToUpper cmd"
  shows "lookup_alias (c_aliases (CmdAliases m o')) cmd = cmd"
proof -
  have "find (\<lambda>(cmd', alias). strings_ToUpper cmd' = strings_ToUpper cmd) (rev m) = None"
    using assms by (auto simp: find_None_iff)
  then show ?thesis by (simp add: lookup_alias_def CmdAliases_def map_of_CmdAliases)
qed

lemma PingServer_options:
  "fold (\<lambda>opt. opt) [Host h, Port p, Password pw] default_options =
     \<lparr>c_host = h, c_port = (if 0 < p then p else DefaultPort), c_password = pw, c_tls = False, c_aliases = []\<rparr>"
  by (simp add: Host_def Port_def Password_def default_options_def)

section \<open>Properties\<close>

text \<open>A server for the examples: it counts its connections and answers each command the same way.\<close>

definition example_dial :: "(string \<Rightarrow> string list \<Rightarrow> reply res) \<Rightarrow> string \<Rightarrow> bool \<Rightarrow> nat \<Rightarrow> nat connection res \<times> nat" where
  "example_dial answer address tls n =
     (Ok \<lparr>conn_Do = (\<lambda>cmd args n. (answer cmd args, n)), conn_Close = (\<lambda>n. (Ok (), n - 1))\<rparr>, n + 1)"

definition example_client :: "(string \<Rightarrow> string list \<Rightarrow> reply res) \<Rightarrow> nat client" where
  "example_client answer = with_connection default_options
     \<lparr>conn_Do = (\<lambda>cmd args n. (answer cmd args, n)), conn_Close = (\<lambda>n. (Ok (), n - 1))\<rparr>"

lemma example_client_simps [simp]:
  "c_aliases (example_client answer) = []"
  "conn_Do (c_connection (example_client answer)) cmd args n = (answer cmd args, n)"
  by (simp_all add: example_client_def default_options_def)

lemma example_counts: "counts_connections (example_dial answer) (\<lambda>n. n)"
  by (auto simp: counts_connections_def example_dial_def)

text \<open>
  C31. \<open>Info\<close> reads the reply of the server as intended: from any reply it computes the last
  binding of each name among the lines that are neither blank nor comments, and it panics
  exactly when one of these lines has no colon. What a server prints for a list of fields is read
  back as those fields, and \<open>InfoField\<close> finds each of them.
\<close>

theorem info_reads_fields:
  assumes reply: "exec_string c (lookupAlias c ''INFO'') [] w = (Ok s, w1)"
  shows "(if \<forall>l \<in> set (info_entries s). CHR '':'' \<in> set l
      then \<exists>m. Info c w = (Ok m, w1) \<and> map_of m = map_of (rev (map info_pair (info_entries s)))
      else Info c w = (Panic ''index out of range'', w1)) \<and>
    (\<forall>kvs k v. s = print_info kvs \<and> (\<forall>kv \<in> set kvs. wf_info kv) \<and> map_of (rev kvs) k = Some v
      \<longrightarrow> InfoField c k w = (Ok v, w1))"
proof -
  note info = Info_reply [OF reply, unfolded info_loop_spec, folded info_entries_def]
  have InfoField: "InfoField c k w = (Ok v, w1)"
    if s: "s = print_info kvs" and wf: "\<forall>kv \<in> set kvs. wf_info kv" and kv: "map_of (rev kvs) k = Some v" for kvs k v
  proof -
    have entries: "info_entries s = map (\<lambda>(k, v). k @ '':'' @ v) kvs"
      using info_entries_print [OF wf] s by simp
    have "map info_pair (info_entries s) = kvs"
      unfolding entries using wf wf_info_pair by (auto intro!: map_idI simp: case_prod_unfold)
    then have "map_of (fold (\<lambda>l. AList.update (fst (info_pair l)) (snd (info_pair l))) (info_entries s) []) k = Some v"
      using kv by (simp only: map_of_info)
    moreover have "\<forall>l \<in> set (info_entries s). CHR '':'' \<in> set l" unfolding entries by auto
    ultimately show ?thesis by (simp add: InfoField_def info)
  qed
  have "map_of (fold (\<lambda>l. AList.update (fst (info_pair l)) (snd (info_pair l))) (info_entries s) []) =
      map_of (rev (map info_pair (info_entries s)))"
    by (rule ext) (rule map_of_info)
  then show ?thesis using InfoField info by simp
qed

theorem info_reads_fields_witness:
  "InfoField (example_client (\<lambda>cmd args. Ok (BulkReply
     (print_info [(''redis_version'', ''3.2.8''), (''loading'', ''0'')])))) ''loading'' 1 = (Ok ''0'', 1)"
proof -
  let ?kvs = "[(''redis_version'', ''3.2.8''), (''loading'', ''0'')]"
  let ?c = "example_client (\<lambda>cmd args. Ok (BulkReply (print_info ?kvs)))"
  have reply: "exec_string ?c (lookupAlias ?c ''INFO'') [] 1 = (Ok (print_info ?kvs), 1)"
    by (simp add: exec_string_def Exec_def)
  have "(\<forall>kv \<in> set ?kvs. wf_info kv)" by code_simp
  moreover have "map_of (rev ?kvs) ''loading'' = Some ''0''" by code_simp
  ultimately show ?thesis using info_reads_fields [OF reply] by blast
qed

text \<open>
  C32. \<open>WaitUntilRedisNotLoading\<close> returns, for every timeout below the last 100 units of a 64-bit
  integer, after at most \<open>\<lceil>timeout / 100\<rceil>\<close> questions. It ends at the first round that is not
  answered by a loading server, with the error of that round if there was one. When the server is
  still loading in the last round the call reports success all the same.
\<close>

theorem loading_wait_returns:
  assumes "sint timeout + 100 < 2 ^ 63"
  shows "\<exists>r w'. WaitUntilRedisNotLoading c sleep timeout w = Some (r, w') \<and>
    ((\<forall>k < loading_rounds timeout. still_loading c sleep k w) \<and>
       r = Ok () \<and> w' = after_loading c sleep (loading_rounds timeout) w \<or>
     (\<exists>k < loading_rounds timeout. (\<forall>j < k. still_loading c sleep j w) \<and>
       \<not> still_loading c sleep k w \<and>
       r = forget (fst (InfoField c ''loading'' (after_loading c sleep k w)))))"
proof -
  have "WaitUntilRedisNotLoading c sleep timeout w = Some (await c sleep (loading_rounds timeout) w)"
    unfolding WaitUntilRedisNotLoading_def
    by (rule not_loading_await) (use assms in \<open>simp_all add: loading_rounds_def\<close>)
  then show ?thesis
    using await_cases [of "loading_rounds timeout" c sleep w]
    by (metis fst_map_prod prod.collapse fst_conv snd_conv)
qed

theorem loading_wait_returns_witness:
  "\<exists>w'. WaitUntilRedisNotLoading (example_client (\<lambda>cmd args. Ok (BulkReply ''loading:1''))) (\<lambda>d n. n) 250 1
     = Some (Ok (), w')"
proof -
  let ?c = "example_client (\<lambda>cmd args. Ok (BulkReply ''loading:1''))"
  have "fst (InfoField ?c ''loading'' n) = Ok ''1''" for n
    by (simp add: InfoField_def Info_def exec_string_def Exec_def) code_simp
  then have "still_loading ?c (\<lambda>d n. n) k n" for k n
    by (simp add: still_loading_def)
  then show ?thesis using loading_wait_returns [of 250 ?c "\<lambda>d n. n" 1] by auto
qed

lemma fst_io_bind_Ok_iff:
  "fst (io_bind p f) = Ok b \<longleftrightarrow> (\<exists>a. fst p = Ok a \<and> fst (f a (snd p)) = Ok b)"
  by (cases "(p, f)" rule: io_bind.cases) auto

lemma Ping_Ok_iff:
  "fst (Ping c w) = Ok () \<longleftrightarrow>
     (\<exists>r s. fst (conn_Do (c_connection c) (lookupAlias c ''PING'') [] w) = Ok r \<and>
        redis_String r = Ok s \<and> strings_TrimSpace s = ''PONG'')"
  unfolding Ping_def exec_string_def Exec_def by (auto simp: fst_io_bind_Ok_iff split: if_splits)

lemma Ping_opened:
  assumes "\<forall>cmd args v. opened (snd (conn_Do (c_connection c) cmd args v)) = opened v"
  shows "opened (snd (Ping c w)) = opened w"
proof -
  let ?p = "conn_Do (c_connection c) (lookupAlias c ''PING'') [] w"
  have "snd (Ping c w) = snd ?p"
    unfolding Ping_def exec_string_def Exec_def
    by (cases ?p; cases "fst ?p"; cases "redis_String (case fst ?p of Ok r \<Rightarrow> r | _ \<Rightarrow> NilReply)") auto
  with assms show ?thesis by simp
qed

text \<open>The state after authentication with a password, which is skipped when there is none.\<close>

definition authenticate :: "string \<Rightarrow> 'w connection \<Rightarrow> 'w \<Rightarrow> bool \<times> 'w" where
  "authenticate password conn w =
     (if password = '''' then (True, w)
      else map_prod is_ok id (conn_Do conn ''AUTH'' [password] w))"

lemma PingServer_dialled:
  assumes port: "0 < inst_Port inst"
    and dial: "dial (inst_Host inst @ '':'' @ strconv_Itoa (inst_Port inst)) False w = (Ok conn, w1)"
  shows "fst (PingServer dial inst w) = Ok () \<longleftrightarrow>
    fst (authenticate (inst_Password inst) conn w1) \<and>
    (\<exists>r s. fst (conn_Do conn ''PING'' [] (snd (authenticate (inst_Password inst) conn w1))) = Ok r \<and>
       redis_String r = Ok s \<and> strings_TrimSpace s = ''PONG'')"
proof -
  let ?o = "\<lparr>c_host = inst_Host inst, c_port = inst_Port inst, c_password = inst_Password inst,
      c_tls = False, c_aliases = []\<rparr>"
  let ?c = "with_connection ?o conn"
  obtain r w2 where auth: "conn_Do conn ''AUTH'' [inst_Password inst] w1 = (r, w2)" by fastforce
  have "Connect dial [Host (inst_Host inst), Port (inst_Port inst), Password (inst_Password inst)] w =
     (if inst_Password inst = '''' then (Ok ?c, w1)
      else case r of Ok _ \<Rightarrow> (Ok ?c, w2) | Err e \<Rightarrow> (Err e, snd (conn_Close conn w2)) | Panic m \<Rightarrow> (Panic m, w2))"
    using port dial unfolding Connect_def PingServer_options Let_def options_Address_def Exec_def
    by (simp add: auth split: res.splits)
  then show ?thesis
    unfolding PingServer_def authenticate_def
    by (cases "inst_Password inst = ''''"; cases r) (simp_all add: Ping_Ok_iff lookupAlias_def lookup_alias_def auth)
qed

lemma PingServer_refused:
  assumes "0 < inst_Port inst"
    and "\<not> is_ok (fst (dial (inst_Host inst @ '':'' @ strconv_Itoa (inst_Port inst)) False w))"
  shows "fst (PingServer dial inst w) \<noteq> Ok ()"
  using assms unfolding PingServer_def Connect_def PingServer_options Let_def options_Address_def
  by (auto simp: fst_io_bind_Ok_iff)

lemma PingServer_Ok_opened:
  assumes count: "counts_connections dial opened" and ok: "fst (PingServer dial inst w) = Ok ()"
  shows "opened (snd (PingServer dial inst w)) = opened w + 1"
proof -
  let ?p = "Connect dial [Host (inst_Host inst), Port (inst_Port inst), Password (inst_Password inst)] w"
  from ok obtain c where c: "fst ?p = Ok c" unfolding PingServer_def fst_io_bind_Ok_iff by blast
  then have con: "?p = (Ok c, snd ?p)" by (metis prod.collapse)
  then have "PingServer dial inst w = Ping c (snd ?p)"
    unfolding PingServer_def by (metis io_bind.simps(1))
  with Connect_Ok_opened [OF count con] Ping_opened show ?thesis by metis
qed

text \<open>
  C33. \<open>PingServer\<close> succeeds exactly when the server accepts a connection at the instance's host
  and port, accepts the password if there is one, and answers \<open>PONG\<close>. A failed attempt to
  connect leaves no connection open, but a connection that was made stays open after a successful
  ping, which never disconnects: each one adds one open connection.
\<close>

theorem ping_server_spec:
  assumes count: "counts_connections dial opened" and port: "0 < inst_Port inst"
  shows "(fst (PingServer dial inst w) = Ok () \<longleftrightarrow>
      (\<exists>conn w1 r s. dial (inst_Host inst @ '':'' @ strconv_Itoa (inst_Port inst)) False w = (Ok conn, w1) \<and>
        fst (authenticate (inst_Password inst) conn w1) \<and>
        fst (conn_Do conn ''PING'' [] (snd (authenticate (inst_Password inst) conn w1))) = Ok r \<and>
        redis_String r = Ok s \<and> strings_TrimSpace s = ''PONG'')) \<and>
    (fst (PingServer dial inst w) = Ok () \<longrightarrow> opened (snd (PingServer dial inst w)) = opened w + 1) \<and>
    (\<forall>options e w1. Connect dial options w = (Err e, w1) \<longrightarrow> opened w1 = opened w)"
proof (intro conjI impI allI)
  let ?d = "dial (inst_Host inst @ '':'' @ strconv_Itoa (inst_Port inst)) False w"
  show "fst (PingServer dial inst w) = Ok () \<longleftrightarrow>
      (\<exists>conn w1 r s. ?d = (Ok conn, w1) \<and>
        fst (authenticate (inst_Password inst) conn w1) \<and>
        fst (conn_Do conn ''PING'' [] (snd (authenticate (inst_Password inst) conn w1))) = Ok r \<and>
        redis_String r = Ok s \<and> strings_TrimSpace s = ''PONG'')"
  proof (cases "is_ok (fst ?d)")
    case True
    then obtain conn w1 where d: "?d = (Ok conn, w1)" unfolding is_ok_iff by (metis prod.collapse)
    show ?thesis unfolding PingServer_dialled [where dial = dial, OF port d] d by simp
  next
    case False
    then have "fst (PingServer dial inst w) \<noteq> Ok ()" by (rule PingServer_refused [OF port])
    moreover have "?d \<noteq> (Ok conn, w1)" for conn w1 using False by auto
    ultimately show ?thesis by blast
  qed
qed (use PingServer_Ok_opened [OF count] Connect_Err_opened [OF count] in blast)+

theorem ping_server_spec_witness:
  "PingServer (example_dial (\<lambda>cmd args. Ok (SimpleReply ''PONG'')))
     \<lparr>inst_ID = ''i1'', inst_Host = ''10.0.0.1'', inst_Port = 6380, inst_Password = ''pw''\<rparr> 0 = (Ok (), 1)"
proof -
  let ?dial = "example_dial (\<lambda>cmd args. Ok (SimpleReply ''PONG''))"
  let ?inst = "\<lparr>inst_ID = ''i1'', inst_Host = ''10.0.0.1'', inst_Port = 6380, inst_Password = ''pw''\<rparr>"
  have pong: "strings_TrimSpace ''PONG'' = ''PONG''" by code_simp
  note spec = ping_server_spec [OF example_counts, of ?inst "\<lambda>cmd args. Ok (SimpleReply ''PONG'')" 0]
  have "fst (PingServer ?dial ?inst 0) = Ok ()"
    using spec by (simp add: example_dial_def authenticate_def pong)
  moreover from this have "snd (PingServer ?dial ?inst 0) = 0 + 1" using spec by simp
  ultimately show ?thesis by (metis add_0 prod.collapse)
qed



text \<open>
  \<open>WaitForNewSaveSince\<close> succeeds exactly when, before its timer fires, the server reports a
  save later than the given one, having answered every earlier question with an older save; and it
  does return once its timer fires.
\<close>

theorem new_save_awaited:
  "((\<exists>w'. WaitForNewSaveSince c t ev w = Some (Ok (), w')) \<longleftrightarrow>
     (\<exists>k < seconds_before_timer ev. saved_since c t k w = Some True \<and>
        (\<forall>j < k. saved_since c t j w = Some False))) \<and>
   (TimerFired \<in> set ev \<longrightarrow> (\<exists>r w'. WaitForNewSaveSince c t ev w = Some (r, w')))"
  by (rule conjI [OF WaitForNewSave_Ok_iff impI]) (rule WaitForNewSave_returns)

theorem new_save_awaited_witness:
  "(\<exists>w'. WaitForNewSaveSince (example_client (\<lambda>cmd args. Ok (IntReply 7))) 5 [SecondOver, TimerFired] 1 = Some (Ok (), w')) \<and>
   (\<exists>r w'. WaitForNewSaveSince (example_client (\<lambda>cmd args. Ok (IntReply 7))) 5 [SecondOver, TimerFired] 1 = Some (r, w'))"
proof -
  let ?c = "example_client (\<lambda>cmd args. Ok (IntReply 7))"
  have "saved_since ?c 5 0 1 = Some True"
    by (simp add: saved_since_def LastRDBSaveTime_def Exec_def word_sless_alt)
  then have "\<exists>k < seconds_before_timer [SecondOver, TimerFired]. saved_since ?c 5 k 1 = Some True \<and>
      (\<forall>j < k. saved_since ?c 5 j 1 = Some False)"
    by (intro exI [of _ 0]) (simp only: seconds_before_timer_simps not_less_zero zero_less_Suc simp_thms)
  then show ?thesis
    using new_save_awaited [of ?c 5 "[SecondOver, TimerFired]" 1] by (metis list.set_intros)
qed

text \<open>
  \<open>GlobalKeyCount\<close> adds up the keys of all databases the server reports, modulo \<open>2 ^ 64\<close> as
  the addition of Go does, and reads every count the server can print.
\<close>

theorem key_count_sums:
  assumes "exec_string c (lookupAlias c ''INFO'') [''keyspace''] w = (Ok (print_keyspace dbs), w1)"
    and "\<forall>(db, keys, expires) \<in> set dbs. 0 \<le> keys \<and> keys < 2 ^ 63"
  shows "GlobalKeyCount c w = (Ok (of_int (\<Sum>(db, keys, expires) \<leftarrow> dbs. keys)), w1)"
  using count_keys_print [OF assms(2)] by (simp add: GlobalKeyCount_def assms(1))

theorem key_count_sums_witness:
  "GlobalKeyCount (example_client (\<lambda>cmd args. Ok (BulkReply (print_keyspace [(0, 12, 3), (4, 30, 0)])))) 1 = (Ok 42, 1)"
proof -
  have reply: "exec_string (example_client (\<lambda>cmd args. Ok (BulkReply s)))
      (lookupAlias (example_client (\<lambda>cmd args. Ok (BulkReply s))) ''INFO'') [''keyspace''] 1 = (Ok s, 1)" for s
    by (simp add: exec_string_def Exec_def)
  have "(\<Sum>(db, keys, expires) \<leftarrow> [(0 :: int, 12 :: int, 3 :: int), (4, 30, 0)]. keys) = 42" by simp
  moreover have "\<forall>(db, keys, expires) \<in> set [(0 :: int, 12 :: int, 3 :: int), (4, 30, 0)]. 0 \<le> keys \<and> keys < 2 ^ 63"
    by simp
  ultimately show ?thesis
    using key_count_sums [OF reply, of "[(0, 12, 3), (4, 30, 0)]"] by (simp only: of_int_numeral)
qed

end
