(* ===== verification/Resetter.thy ===== *)
theory Resetter
  imports Redis_Client
begin

text \<open>
  \<open>src/resetter/resetter.go\<close>: recycling a dedicated Redis instance. The resetter stops Redis,
  removes its data, puts the default configuration in place and starts Redis again. Monit, the
  Redis library's dialling function and the port checker are fields of the resetter, as in the
  code; the service names of the machine are a parameter of the address resolution.
\<close>

section \<open>The code\<close>

record resetter =
  defaultConfPath :: string
  liveConfPath :: string
  portChecker :: "tcp_addr \<Rightarrow> duration \<Rightarrow> world \<Rightarrow> unit res \<times> world"
  reset_timeout :: duration
  Monit_StopAndWait :: "string \<Rightarrow> world \<Rightarrow> unit res \<times> world"
  Monit_StartAndWait :: "string \<Rightarrow> world \<Rightarrow> unit res \<times> world"
  redis_Dial :: "string \<Rightarrow> world \<Rightarrow> world connection res \<times> world"

definition Resetter_New ::
    "(string \<Rightarrow> world \<Rightarrow> unit res \<times> world) \<Rightarrow> (string \<Rightarrow> world \<Rightarrow> unit res \<times> world) \<Rightarrow>
     (string \<Rightarrow> world \<Rightarrow> world connection res \<times> world) \<Rightarrow> string \<Rightarrow> string \<Rightarrow>
     (tcp_addr \<Rightarrow> duration \<Rightarrow> world \<Rightarrow> unit res \<times> world) \<Rightarrow> resetter" where
  "Resetter_New stop start dial defaultConf liveConf checker =
     \<lparr>defaultConfPath = defaultConf, liveConfPath = liveConf, portChecker = checker,
      reset_timeout = second * 30, Monit_StopAndWait = stop, Monit_StartAndWait = start,
      redis_Dial = dial\<rparr>"

text \<open>
  The text of an error, where the code looks into it. The errors of a Redis connection are texts;
  those of the operating system never mention scripts.
\<close>

fun error_text :: "gerror \<Rightarrow> string" where
  "error_text (ErrorString s) = s"
| "error_text (RedisError s) = s"
| "error_text (Errorf s e) = s @ error_text e"
| "error_text _ = ''''"

definition isNoScriptErr :: "gerror \<Rightarrow> bool" where
  "isNoScriptErr err \<longleftrightarrow> strings_Contains (error_text err) ''No scripts in execution right now''"

definition getAuthenticatedRedisConn :: "resetter \<Rightarrow> world \<Rightarrow> world connection res \<times> world" where
  "getAuthenticatedRedisConn r w =
     io_bind (Conf_Load (liveConfPath r) w, w) (\<lambda>liveConf w.
       (let address = Conf_Host liveConf @ '':'' @ strconv_Itoa (Conf_Port liveConf) in
        io_bind (redis_Dial r address w) (\<lambda>connection w.
          case conn_Do connection ''AUTH'' [Conf_Password liveConf] w of
            (Ok _, w1) \<Rightarrow> (Ok connection, w1)
          | (Err e, w1) \<Rightarrow> (Err e, snd (conn_Close connection w1))
          | (Panic m, w1) \<Rightarrow> (Panic m, w1))))"

text \<open>The deferred \<open>connection.Close\<close> runs on every way out, a panic included.\<close>

definition killScript :: "resetter \<Rightarrow> world \<Rightarrow> unit res \<times> world" where
  "killScript r w =
     io_bind (getAuthenticatedRedisConn r w) (\<lambda>connection w.
       (case conn_Do connection ''SCRIPT'' [''KILL''] w of
          (d, w1) \<Rightarrow>
            (case d of
               Ok _ \<Rightarrow> Ok ()
             | Err e \<Rightarrow> if isNoScriptErr e then Ok () else Err (Errorf ''failed to kill redis script: '' e)
             | Panic m \<Rightarrow> Panic m,
             snd (conn_Close connection w1))))"

definition stopRedis :: "resetter \<Rightarrow> world \<Rightarrow> unit res \<times> world" where
  "stopRedis r w = io_bind (killScript r w) (\<lambda>_ w. Monit_StopAndWait r ''redis'' w)"

definition startRedis :: "resetter \<Rightarrow> world \<Rightarrow> unit res \<times> world" where
  "startRedis r w = Monit_StartAndWait r ''redis'' w"

text \<open>The two data files are named relative to the working directory.\<close>

definition deleteData :: "world \<Rightarrow> unit res \<times> world" where
  "deleteData w =
     io_bind (os_Remove ''appendonly.aof'' w) (\<lambda>_ w. (Ok (), snd (os_Remove ''dump.rdb'' w)))"

definition resetConfigWithNewPassword :: "resetter \<Rightarrow> world \<Rightarrow> unit res \<times> world" where
  "resetConfigWithNewPassword r w =
     io_bind (Conf_Load (defaultConfPath r) w, w) (\<lambda>conf w. Conf_Save conf (liveConfPath r) w)"

text \<open>
  \<open>net.ResolveTCPAddr("tcp", "127.0.0.1:" + port)\<close>: an empty port is 0, a number must be between
  0 and 65535, anything else is looked up among the service names.
\<close>

definition ResolveTCPAddr_local :: "(string \<Rightarrow> int option) \<Rightarrow> string \<Rightarrow> tcp_addr res" where
  "ResolveTCPAddr_local services port =
     (let address = (\<lambda>n. if 0 \<le> n \<and> n \<le> 65535
            then Ok \<lparr>addr_IP = ''127.0.0.1'', addr_Port = n\<rparr>
            else Err (ErrorString ''address: invalid port''));
          (neg, digits) = split_sign port in
      if CHR '':'' \<in> set port then Err (ErrorString ''too many colons in address'')
      else if CHR ''['' \<in> set port then Err (ErrorString ''unexpected [ in address'')
      else if CHR '']'' \<in> set port then Err (ErrorString ''unexpected ] in address'')
      else (case parse_digits 0 digits of
              Some n \<Rightarrow> address (if neg then - int n else int n)
            | None \<Rightarrow> (case services port of
                 Some n \<Rightarrow> address n
               | None \<Rightarrow> Err (ErrorString ''unknown port''))))"

definition ResetRedis :: "(string \<Rightarrow> int option) \<Rightarrow> resetter \<Rightarrow> world \<Rightarrow> unit res \<times> world" where
  "ResetRedis services r w =
     io_bind (stopRedis r w) (\<lambda>_ w.
     io_bind (deleteData w) (\<lambda>_ w.
     io_bind (resetConfigWithNewPassword r w) (\<lambda>_ w.
     io_bind (startRedis r w) (\<lambda>_ w.
     io_bind (Conf_Load (liveConfPath r) w, w) (\<lambda>conf w.
     io_bind (ResolveTCPAddr_local services (Conf_Get conf ''port''), w) (\<lambda>address w.
       portChecker r address (reset_timeout r) w))))))"

section \<open>Lemmas\<close>

definition aof_file :: "world \<Rightarrow> string list" where
  "aof_file w = cwd w @ [''appendonly.aof'']"

definition rdb_file :: "world \<Rightarrow> string list" where
  "rdb_file w = cwd w @ [''dump.rdb'']"

lemma resolve_data_files:
  "resolve (cwd w) ''appendonly.aof'' = aof_file w" "resolve (cwd w) ''dump.rdb'' = rdb_file w"
  by (simp_all add: resolve_def absolute_def clean_step_def aof_file_def rdb_file_def)

lemma data_files_differ: "aof_file w \<noteq> rdb_file w"
  by (simp add: aof_file_def rdb_file_def)

lemma Remove_frame_Ok: "os_Remove p w = (x, w') \<Longrightarrow> fs_frame {resolve (cwd w) p} w w'"
  using Remove_frame [of w p] by simp

lemma deleteData_frame: "fs_frame {aof_file w, rdb_file w} w (snd (deleteData w))"
proof -
  obtain x w1 where rm: "os_Remove ''appendonly.aof'' w = (x, w1)" by fastforce
  have fr: "fs_frame {aof_file w} w w1" using Remove_frame_Ok [OF rm] by (simp add: resolve_data_files)
  then have "rdb_file w1 = rdb_file w" by (auto simp: rdb_file_def dest: fs_frame_cwd)
  then have "fs_frame {rdb_file w} w1 (snd (os_Remove ''dump.rdb'' w1))"
    using Remove_frame [of w1 "''dump.rdb''"] by (simp add: resolve_data_files)
  then have "fs_frame {aof_file w, rdb_file w} w (snd (os_Remove ''dump.rdb'' w1))"
    using fr by (auto intro: fs_frame_trans elim: fs_frame_mono)
  then show ?thesis
    using fr rm by (cases x) (auto simp: deleteData_def elim: fs_frame_mono)
qed

text \<open>
  A successful removal of the data: the append-only file is gone; the dump is gone unless the
  kernel would not remove it, which the code ignores.
\<close>

lemma deleteData_Ok:
  assumes "deleteData w = (Ok (), w')" "fs_wf w"
  shows "node_at w (aof_file w) \<noteq> None" "node_at w' (aof_file w) = None" "fs_wf w'"
    "node_at w' (rdb_file w) = None \<or>
     refuses w OpRemove (rdb_file w) \<noteq> None \<or> is_dir_at w (rdb_file w)"
proof -
  obtain w1 where rm: "os_Remove ''appendonly.aof'' w = (Ok (), w1)"
    and w': "w' = snd (os_Remove ''dump.rdb'' w1)"
    using assms(1) by (auto simp: deleteData_def io_bind_Ok_iff)
  have fr1: "fs_frame {aof_file w} w w1" using Remove_frame_Ok [OF rm] by (simp add: resolve_data_files)
  then have cwd1: "rdb_file w1 = rdb_file w" by (auto simp: rdb_file_def dest: fs_frame_cwd)
  then have fr2: "fs_frame {rdb_file w} w1 w'"
    using Remove_frame [of w1 "''dump.rdb''"] w' by (simp add: resolve_data_files)
  have wf1: "fs_wf w1" using fs_wf_Remove [OF assms(2), of "''appendonly.aof''"] rm by simp
  then show "fs_wf w'" using w' by (simp add: fs_wf_Remove)
  show "node_at w (aof_file w) \<noteq> None" "node_at w' (aof_file w) = None"
    using Remove_Ok [OF rm] fs_frame_node [OF fr2] data_files_differ [of w]
    by (simp_all add: resolve_data_files)
  show "node_at w' (rdb_file w) = None \<or> refuses w OpRemove (rdb_file w) \<noteq> None \<or> is_dir_at w (rdb_file w)"
  proof (cases "fst (os_Remove ''dump.rdb'' w1) = Ok ()")
    case True
    then show ?thesis
      using Remove_Ok [of "''dump.rdb''" w1 w'] w' cwd1 by (simp add: resolve_data_files prod_eq_iff)
  next
    case False
    have kept: "refuses w1 = refuses w" "node_at w1 (rdb_file w) = node_at w (rdb_file w)"
      using fr1 data_files_differ [of w] by (auto simp: fs_frame_def same_env_def)
    from False have "node_at w' (rdb_file w) = node_at w1 (rdb_file w)"
      using Remove_not_Ok [OF False] w' by simp
    moreover have "node_at w1 (rdb_file w) = None" if allowed: "refuses w OpRemove (rdb_file w) = None"
      and nodir: "\<not> is_dir_at w (rdb_file w)"
    proof (rule ccontr)
      assume "node_at w1 (rdb_file w) \<noteq> None"
      then obtain m c where "node_at w1 (rdb_file w) = Some (FileNode m c)"
        using nodir kept by (metis is_dir_at_alt is_dir_node_simps(1) node.exhaust option.exhaust)
      then have "walk w1 (rdb_file w) = Ok (FileNode m c)" using wf1 by (simp add: walk_node)
      then show False
        using False allowed kept cwd1
        by (simp add: os_Remove_def change_path_def resolve_data_files)
    qed
    ultimately show ?thesis by argo
  qed
qed

lemma deleteData_missing:
  assumes "node_at w (aof_file w) = None"
  shows "\<exists>e. deleteData w = (Err e, w)"
proof -
  have no: "fst (os_Remove ''appendonly.aof'' w) \<noteq> Ok ()"
    using Remove_Ok [of "''appendonly.aof''" w] assms by (metis prod.collapse resolve_data_files(1))
  moreover have "fst (os_Remove ''appendonly.aof'' w) \<noteq> Panic m" for m
    by (auto simp: os_Remove_def change_path_def split: option.splits res.splits node.splits)
  ultimately obtain e where "fst (os_Remove ''appendonly.aof'' w) = Err e"
    by (cases "fst (os_Remove ''appendonly.aof'' w)") auto
  then have "os_Remove ''appendonly.aof'' w = (Err e, w)"
    using Remove_not_Ok [OF no] by (metis prod.collapse)
  then show ?thesis by (simp add: deleteData_def)
qed

lemma stopRedis_fails: "fst (stopRedis r w) \<noteq> Ok () \<Longrightarrow> ResetRedis services r w = stopRedis r w"
  unfolding ResetRedis_def by (cases "stopRedis r w"; cases "fst (stopRedis r w)") auto

lemma ResetRedis_OkE:
  assumes "ResetRedis services r w = (Ok (), w')" "stopRedis r w = (Ok (), w1)"
  obtains w2 conf w3 w4 conf' a where "deleteData w1 = (Ok (), w2)"
    "Conf_Load (defaultConfPath r) w2 = Ok conf" "Conf_Save conf (liveConfPath r) w2 = (Ok (), w3)"
    "Monit_StartAndWait r ''redis'' w3 = (Ok (), w4)" "Conf_Load (liveConfPath r) w4 = Ok conf'"
    "ResolveTCPAddr_local services (Conf_Get conf' ''port'') = Ok a"
    "portChecker r a (reset_timeout r) w4 = (Ok (), w')"
  using assms
  by (auto simp: ResetRedis_def resetConfigWithNewPassword_def startRedis_def io_bind_Ok_iff)

lemma deleteData_blocks_reset:
  assumes "stopRedis r w = (Ok (), w1)" "node_at w1 (aof_file w1) = None"
  shows "\<exists>e. ResetRedis services r w = (Err e, w1)"
  using deleteData_missing [OF assms(2)] assms(1) by (auto simp: ResetRedis_def)

text \<open>The dialling function of the resetter, in the form of the one that \<open>Connect\<close> uses.\<close>

abbreviation plain_dial :: "resetter \<Rightarrow> string \<Rightarrow> bool \<Rightarrow> world \<Rightarrow> world connection res \<times> world" where
  "plain_dial r \<equiv> \<lambda>a tls. redis_Dial r a"

lemma getAuthenticated_eq:
  assumes "Conf_Load (liveConfPath r) w = Ok conf"
    and "redis_Dial r (Conf_Host conf @ '':'' @ strconv_Itoa (Conf_Port conf)) w = (Ok conn, w1)"
    and "conn_Do conn ''AUTH'' [Conf_Password conf] w1 = (y, w2)"
  shows "getAuthenticatedRedisConn r w =
    (case y of Ok _ \<Rightarrow> (Ok conn, w2) | Err e \<Rightarrow> (Err e, snd (conn_Close conn w2)) | Panic m \<Rightarrow> (Panic m, w2))"
  using assms by (simp add: getAuthenticatedRedisConn_def split: res.splits)

lemma getAuthenticated_cases:
  obtains (authenticated) conf conn w1 y w2 where "Conf_Load (liveConfPath r) w = Ok conf"
    "redis_Dial r (Conf_Host conf @ '':'' @ strconv_Itoa (Conf_Port conf)) w = (Ok conn, w1)"
    "conn_Do conn ''AUTH'' [Conf_Password conf] w1 = (y, w2)"
  | (no_dial) conf where "Conf_Load (liveConfPath r) w = Ok conf"
    "\<not> is_ok (fst (redis_Dial r (Conf_Host conf @ '':'' @ strconv_Itoa (Conf_Port conf)) w))"
    "snd (getAuthenticatedRedisConn r w) = snd (redis_Dial r (Conf_Host conf @ '':'' @ strconv_Itoa (Conf_Port conf)) w)"
    "\<not> is_ok (fst (getAuthenticatedRedisConn r w))"
  | (no_conf) "snd (getAuthenticatedRedisConn r w) = w" "\<not> is_ok (fst (getAuthenticatedRedisConn r w))"
proof (cases "Conf_Load (liveConfPath r) w")
  case (Ok conf)
  let ?d = "redis_Dial r (Conf_Host conf @ '':'' @ strconv_Itoa (Conf_Port conf)) w"
  obtain d w1 where dial: "?d = (d, w1)" by fastforce
  show ?thesis
  proof (cases d)
    case (Ok conn)
    then show ?thesis
      using authenticated [OF \<open>Conf_Load (liveConfPath r) w = res.Ok conf\<close>] dial by (metis surj_pair)
  qed (use no_dial [OF \<open>Conf_Load (liveConfPath r) w = res.Ok conf\<close>] dial Ok in
      \<open>simp_all add: getAuthenticatedRedisConn_def\<close>)
qed (use no_conf in \<open>simp_all add: getAuthenticatedRedisConn_def\<close>)

text \<open>An attempt to connect opens one connection when it succeeds, and none when it fails.\<close>

lemma getAuthenticated_opened:
  assumes "counts_connections (plain_dial r) opened"
  shows "\<forall>conn w'. getAuthenticatedRedisConn r w = (Ok conn, w') \<longrightarrow> opened w' = opened w + 1 \<and>
      (\<forall>cmd args v. opened (snd (conn_Do conn cmd args v)) = opened v) \<and>
      (\<forall>v. opened (snd (conn_Close conn v)) = opened v - 1)"
    and "\<forall>e w'. getAuthenticatedRedisConn r w = (Err e, w') \<longrightarrow> opened w' = opened w"
proof -
  have "(\<forall>conn w'. getAuthenticatedRedisConn r w = (Ok conn, w') \<longrightarrow> opened w' = opened w + 1 \<and>
      (\<forall>cmd args v. opened (snd (conn_Do conn cmd args v)) = opened v) \<and>
      (\<forall>v. opened (snd (conn_Close conn v)) = opened v - 1)) \<and>
    (\<forall>e w'. getAuthenticatedRedisConn r w = (Err e, w') \<longrightarrow> opened w' = opened w)"
  proof (cases r w rule: getAuthenticated_cases)
    case (authenticated conf conn w1 y w2)
    note opened = conn_Do_opened [OF assms, OF authenticated(2)]
    have "opened w2 = opened w1"
      using opened(2) [of "''AUTH''" "[Conf_Password conf]" w1] authenticated(3) by simp
    then show ?thesis
      unfolding getAuthenticated_eq [OF authenticated] using opened by (auto split: res.splits)
  next
    case (no_dial conf)
    then have "opened (snd (getAuthenticatedRedisConn r w)) = opened w"
      using assms unfolding counts_connections_def by metis
    then show ?thesis using no_dial(4) by auto
  next
    case no_conf
    then show ?thesis by auto
  qed
  then show "\<forall>conn w'. getAuthenticatedRedisConn r w = (Ok conn, w') \<longrightarrow> opened w' = opened w + 1 \<and>
      (\<forall>cmd args v. opened (snd (conn_Do conn cmd args v)) = opened v) \<and>
      (\<forall>v. opened (snd (conn_Close conn v)) = opened v - 1)"
    and "\<forall>e w'. getAuthenticatedRedisConn r w = (Err e, w') \<longrightarrow> opened w' = opened w"
    by blast+
qed

lemma killScript_opened:
  assumes "counts_connections (plain_dial r) opened" "fst (killScript r w) = Ok () \<or> fst (killScript r w) = Err e"
  shows "opened (snd (killScript r w)) = opened w"
proof -
  obtain x w1 where auth: "getAuthenticatedRedisConn r w = (x, w1)" by fastforce
  show ?thesis
  proof (cases x)
    case (Ok conn)
    note opened = getAuthenticated_opened(1) [OF assms(1), rule_format, OF auth [unfolded Ok]]
    obtain y w2 where kill: "conn_Do conn ''SCRIPT'' [''KILL''] w1 = (y, w2)" by fastforce
    then have "opened w2 = opened w1" using opened by (metis snd_conv)
    then show ?thesis using opened by (simp add: killScript_def auth Ok kill)
  next
    case (Err e)
    then show ?thesis
      using getAuthenticated_opened(2) [OF assms(1), rule_format, OF auth [unfolded Err]]
      by (simp add: killScript_def auth)
  next
    case (Panic m)
    then show ?thesis using assms(2) by (simp add: killScript_def auth)
  qed
qed

lemma killScript_Ok_iff:
  "fst (killScript r w) = Ok () \<longleftrightarrow>
     (\<exists>conn w1. getAuthenticatedRedisConn r w = (Ok conn, w1) \<and>
        (case fst (conn_Do conn ''SCRIPT'' [''KILL''] w1) of
           Ok _ \<Rightarrow> True | Err e \<Rightarrow> isNoScriptErr e | Panic m \<Rightarrow> False))"
proof -
  obtain x w1 where auth: "getAuthenticatedRedisConn r w = (x, w1)" by fastforce
  show ?thesis
    by (cases x) (auto simp: killScript_def auth split: prod.splits res.splits)
qed

lemma Save_Ok_file:
  assumes "Conf_Save conf p w = (Ok (), w')"
  shows "\<exists>m. node_at w' (resolve (cwd w) p) = Some (FileNode m (Encode conf))"
    and "fs_frame {resolve (cwd w) p} w w'"
  using WriteFile_Ok [of p "Encode conf" _ w w'] WriteFile_frame [of w p "Encode conf"] assms
  by (auto simp: Conf_Save_def) (metis snd_conv)

lemma parse_Itoa_nonneg:
  assumes "0 \<le> p"
  shows "split_sign (strconv_Itoa p) = (False, strconv_Itoa p)"
    and "parse_digits 0 (strconv_Itoa p) = Some (nat p)"
  using assms split_sign_digits [of "nat_digits (nat p)"] parse_nat_digits
    nat_digits_digits [OF hd_in_set, of "nat p"]
  by (simp_all add: strconv_Itoa_def)

text \<open>
  The address the resetter waits for is that of the configured port; but a configuration that
  leaves the port to Redis' default makes it wait for port 0, although \<open>Conf.Port\<close> knows the
  default.
\<close>

lemma reset_wait_address:
  "0 < p \<Longrightarrow> p \<le> 65535 \<Longrightarrow> Conf_Get conf ''port'' = strconv_Itoa p \<Longrightarrow>
     ResolveTCPAddr_local services (Conf_Get conf ''port'') = Ok \<lparr>addr_IP = ''127.0.0.1'', addr_Port = p\<rparr> \<and>
     Conf_Port conf = p"
  "Conf_Get conf ''port'' = '''' \<Longrightarrow>
     ResolveTCPAddr_local services (Conf_Get conf ''port'') = Ok \<lparr>addr_IP = ''127.0.0.1'', addr_Port = 0\<rparr> \<and>
     Conf_Port conf = DefaultPort"
proof -
  assume p: "0 < p" "p \<le> 65535" and conf: "Conf_Get conf ''port'' = strconv_Itoa p"
  have plain: "CHR '':'' \<notin> set (strconv_Itoa p)" "CHR ''['' \<notin> set (strconv_Itoa p)" "CHR '']'' \<notin> set (strconv_Itoa p)"
    using Itoa_chars [of "CHR '':''" p] Itoa_chars [of "CHR ''[''" p] Itoa_chars [of "CHR '']''" p]
    by (auto simp: is_digit_def)
  have "strconv_Atoi (strconv_Itoa p) = Ok p"
    using p by (intro Atoi_Itoa) (simp add: in_int_range_def)
  then show "ResolveTCPAddr_local services (Conf_Get conf ''port'') = Ok \<lparr>addr_IP = ''127.0.0.1'', addr_Port = p\<rparr> \<and>
     Conf_Port conf = p"
    using p plain parse_Itoa_nonneg [of p]
    by (simp add: ResolveTCPAddr_local_def conf Conf_Port_def)
next
  assume "Conf_Get conf ''port'' = ''''"
  then show "ResolveTCPAddr_local services (Conf_Get conf ''port'') = Ok \<lparr>addr_IP = ''127.0.0.1'', addr_Port = 0\<rparr> \<and>
     Conf_Port conf = DefaultPort"
    by (simp add: ResolveTCPAddr_local_def Conf_Port_def strconv_Atoi_def strconv_ParseInt_def split_sign_def)
qed

section \<open>Properties\<close>

text \<open>
  C10. A reset that succeeds gives a fresh Redis: when Monit is told to start it, the append-only
  file is gone, the dump is gone (unless the kernel would not remove it, which is ignored), the
  live configuration is the default one, with the default password, and no other file has
  changed; and the reset only returns once the port checker has found Redis listening.
\<close>

theorem reset_gives_fresh_redis:
  assumes stop: "stopRedis r w = (Ok (), w1)" and wf: "fs_wf w1"
    and live: "resolve (cwd w1) (liveConfPath r) \<notin> {aof_file w1, rdb_file w1}"
    and default: "resolve (cwd w1) (defaultConfPath r) \<notin> {aof_file w1, rdb_file w1}"
    and run: "ResetRedis services r w = (Ok (), w')"
  shows "\<exists>conf w3 w4 a. Conf_Load (defaultConfPath r) w1 = Ok conf \<and>
    Monit_StartAndWait r ''redis'' w3 = (Ok (), w4) \<and>
    node_at w3 (aof_file w1) = None \<and>
    (node_at w3 (rdb_file w1) = None \<or> refuses w1 OpRemove (rdb_file w1) \<noteq> None \<or> is_dir_at w1 (rdb_file w1)) \<and>
    (\<exists>m. node_at w3 (resolve (cwd w1) (liveConfPath r)) = Some (FileNode m (Encode conf))) \<and>
    (\<forall>q. q \<notin> {aof_file w1, rdb_file w1, resolve (cwd w1) (liveConfPath r)} \<longrightarrow> node_at w3 q = node_at w1 q) \<and>
    (wf_conf conf \<and> refuses w1 OpOpen (resolve (cwd w1) (liveConfPath r)) = None \<longrightarrow>
       Conf_Load (liveConfPath r) w3 = Ok conf) \<and>
    portChecker r a (reset_timeout r) w4 = (Ok (), w')"
proof -
  obtain w2 conf w3 w4 conf' a where del: "deleteData w1 = (Ok (), w2)"
    and load: "Conf_Load (defaultConfPath r) w2 = Ok conf"
    and save: "Conf_Save conf (liveConfPath r) w2 = (Ok (), w3)"
    and start: "Monit_StartAndWait r ''redis'' w3 = (Ok (), w4)"
    and check: "portChecker r a (reset_timeout r) w4 = (Ok (), w')"
    using ResetRedis_OkE [OF run stop] by metis
  note deleted = deleteData_Ok [OF del wf]
  have fr: "fs_frame {aof_file w1, rdb_file w1} w1 w2" using deleteData_frame [of w1] del by simp
  then have cwd: "cwd w2 = cwd w1" and refuses: "refuses w2 = refuses w1"
    by (auto simp: fs_frame_def same_env_def)
  have other: "node_at w3 q = node_at w2 q" if "q \<noteq> resolve (cwd w1) (liveConfPath r)" for q
    using fs_frame_node [OF Save_Ok_file(2) [OF save], of q] that cwd by simp
  have same: "node_at w3 (aof_file w1) = node_at w2 (aof_file w1)"
    "node_at w3 (rdb_file w1) = node_at w2 (rdb_file w1)"
    using live by (auto intro!: other)
  obtain m where m: "node_at w3 (resolve (cwd w2) (liveConfPath r)) = Some (FileNode m (Encode conf))"
    using Save_Ok_file(1) [OF save] by blast
  show ?thesis
  proof (intro exI conjI allI impI)
    show "Conf_Load (defaultConfPath r) w1 = Ok conf"
      using load Load_frame [OF wf deleted(3) fr default] by simp
    show "node_at w3 (rdb_file w1) = None \<or> refuses w1 OpRemove (rdb_file w1) \<noteq> None \<or> is_dir_at w1 (rdb_file w1)"
      using deleted(4) unfolding same .
    show "node_at w3 (resolve (cwd w1) (liveConfPath r)) = Some (FileNode m (Encode conf))"
      using m cwd by simp
    show "node_at w3 q = node_at w1 q"
      if "q \<notin> {aof_file w1, rdb_file w1, resolve (cwd w1) (liveConfPath r)}" for q
      using that other [of q] fs_frame_node [OF fr, of q] by simp
    show "Conf_Load (liveConfPath r) w3 = Ok conf"
      if "wf_conf conf \<and> refuses w1 OpOpen (resolve (cwd w1) (liveConfPath r)) = None"
      using Load_Save [OF deleted(3) _ _ save] that cwd refuses by simp
  qed (use start check deleted(2) same in auto)
qed

text \<open>A machine with the files of a Redis server, whose working directory is the server's.\<close>

definition example_store :: world where
  "example_store = (machine
     [([''redis''], DirNode (octal 7 5 5)),
      ([''redis'', ''appendonly.aof''], FileNode (octal 6 4 4) ''data''),
      ([''redis'', ''dump.rdb''], FileNode (octal 6 4 4) ''data''),
      ([''redis.conf''], FileNode (octal 6 4 4) ''requirepass live''),
      ([''redis.conf-default''], FileNode (octal 6 4 4) ''port 6380'')])\<lparr>cwd := [''redis'']\<rparr>"

definition example_conn :: "world connection" where
  "example_conn = \<lparr>conn_Do = (\<lambda>cmd args w. (Ok NilReply, w)), conn_Close = (\<lambda>w. (Ok (), w))\<rparr>"

definition example_resetter :: resetter where
  "example_resetter = Resetter_New (\<lambda>_ w. (Ok (), w)) (\<lambda>_ w. (Ok (), w)) (\<lambda>_ w. (Ok example_conn, w))
     ''/redis.conf-default'' ''/redis.conf'' (\<lambda>a t w. (Ok (), w))"

lemma example_resetter_simps [simp]:
  "liveConfPath example_resetter = ''/redis.conf''" "defaultConfPath example_resetter = ''/redis.conf-default''"
  "Monit_StopAndWait example_resetter p w = (Ok (), w)" "redis_Dial example_resetter a w = (Ok example_conn, w)"
  by (simp_all add: example_resetter_def Resetter_New_def)

lemma example_stop:
  assumes "Conf_Load ''/redis.conf'' w = Ok conf"
  shows "stopRedis example_resetter w = (Ok (), w)"
  using assms
  by (simp add: stopRedis_def killScript_def getAuthenticatedRedisConn_def example_conn_def Let_def)

lemma example_store_wf: "fs_wf example_store"
  by code_simp

theorem reset_gives_fresh_redis_witness:
  "\<exists>w3. node_at w3 [''redis'', ''appendonly.aof''] = None \<and>
     (\<exists>m. node_at w3 [''redis.conf''] = Some (FileNode m (''port 6380'' @ [CHR 0x0A])))"
proof -
  have "is_ok (Conf_Load ''/redis.conf'' example_store)" by code_simp
  then have stop: "stopRedis example_resetter example_store = (Ok (), example_store)"
    using example_stop by (auto simp: is_ok_iff)
  have "fst (ResetRedis (\<lambda>_. None) example_resetter example_store) = Ok ()" by code_simp
  then have run: "ResetRedis (\<lambda>_. None) example_resetter example_store =
      (Ok (), snd (ResetRedis (\<lambda>_. None) example_resetter example_store))"
    by (rule eq_pair_fst)
  have files: "resolve (cwd example_store) ''/redis.conf'' = [''redis.conf'']"
    "resolve (cwd example_store) ''/redis.conf-default'' = [''redis.conf-default'']"
    "aof_file example_store = [''redis'', ''appendonly.aof'']" "rdb_file example_store = [''redis'', ''dump.rdb'']"
    by code_simp+
  have conf: "Conf_Load ''/redis.conf-default'' example_store = Ok [\<lparr>Key = ''port'', Value = ''6380''\<rparr>]"
    "Encode [\<lparr>Key = ''port'', Value = ''6380''\<rparr>] = ''port 6380'' @ [CHR 0x0A]"
    by code_simp+
  show ?thesis
    using reset_gives_fresh_redis [OF stop example_store_wf _ _ run] unfolding example_resetter_simps files
    using conf by auto
qed



text \<open>
  Killing a running script succeeds exactly when the server accepts the connection and the
  password and kills the script or has none. Whatever the outcome, the connection is closed again.
\<close>

theorem kill_script_spec:
  assumes "counts_connections (\<lambda>a tls. redis_Dial r a) opened"
  shows "(fst (killScript r w) = Ok () \<longleftrightarrow>
     (\<exists>conn w1. getAuthenticatedRedisConn r w = (Ok conn, w1) \<and>
        (case fst (conn_Do conn ''SCRIPT'' [''KILL''] w1) of
           Ok _ \<Rightarrow> True | Err e \<Rightarrow> isNoScriptErr e | Panic m \<Rightarrow> False))) \<and>
    (\<forall>e. fst (killScript r w) = Ok () \<or> fst (killScript r w) = Err e \<longrightarrow> opened (snd (killScript r w)) = opened w)"
  using killScript_Ok_iff killScript_opened [OF assms] by blast

text \<open>A server with one process per connection, which has no script to kill.\<close>

definition example_counted :: resetter where
  "example_counted = example_resetter\<lparr>redis_Dial := (\<lambda>_ w.
     (Ok \<lparr>conn_Do = (\<lambda>cmd args w.
            (if cmd = ''SCRIPT'' then Err (RedisError ''NOTBUSY No scripts in execution right now.'') else Ok NilReply, w)),
          conn_Close = (\<lambda>w. (Ok (), w\<lparr>procs := tl (procs w)\<rparr>))\<rparr>,
      w\<lparr>procs := 1 # procs w\<rparr>))\<rparr>"

theorem kill_script_spec_witness:
  "fst (killScript example_counted example_store) = Ok () \<and>
   length (procs (snd (killScript example_counted example_store))) = 0"
proof -
  have count: "counts_connections (\<lambda>a tls. redis_Dial example_counted a) (\<lambda>w. length (procs w))"
    by (auto simp: counts_connections_def example_counted_def)
  have "fst (killScript example_counted example_store) = Ok ()" by code_simp
  moreover have "procs example_store = []" by (simp add: example_store_def)
  ultimately show ?thesis using kill_script_spec [OF count, of example_store] by simp
qed

end
