(* ===== verification/Go_Utf8.thy ===== *)
theory Go_Utf8
  imports Go_Strings
begin

text \<open>
  Runes: how \<open>for i, c := range s\<close> decodes a string and how \<open>string(runes)\<close> encodes one. A Go
  string is a sequence of bytes; a byte that starts no valid UTF-8 sequence counts as one
  replacement character.
\<close>

type_synonym rune = nat

definition RuneError :: rune where "RuneError = 0xFFFD"

definition byte :: "char \<Rightarrow> nat" where "byte c = of_char c"

definition continuation :: "nat \<Rightarrow> bool" where
  "continuation b \<longleftrightarrow> 0x80 \<le> b \<and> b \<le> 0xBF"

text \<open>The second bytes allowed after a first byte; overlong forms and surrogates are excluded.\<close>

definition second_byte_ok :: "nat \<Rightarrow> nat \<Rightarrow> bool" where
  "second_byte_ok b0 b1 \<longleftrightarrow>
     (if b0 = 0xE0 then 0xA0 else if b0 = 0xF0 then 0x90 else 0x80) \<le> b1 \<and>
     b1 \<le> (if b0 = 0xED then 0x9F else if b0 = 0xF4 then 0x8F else 0xBF)"

text \<open>\<open>utf8.DecodeRuneInString\<close> of a non-empty string: the rune and its width in bytes.\<close>

fun decode_bytes :: "nat list \<Rightarrow> rune \<times> nat" where
  "decode_bytes [] = (RuneError, 0)"
| "decode_bytes (b0 # bs) =
     (if b0 < 0x80 then (b0, 1)
      else if 0xC2 \<le> b0 \<and> b0 \<le> 0xDF then
        (case bs of
           b1 # _ \<Rightarrow> if continuation b1 then ((b0 - 0xC0) * 64 + (b1 - 0x80), 2) else (RuneError, 1)
         | _ \<Rightarrow> (RuneError, 1))
      else if 0xE0 \<le> b0 \<and> b0 \<le> 0xEF then
        (case bs of
           b1 # b2 # _ \<Rightarrow>
             if second_byte_ok b0 b1 \<and> continuation b2
             then ((b0 - 0xE0) * 4096 + (b1 - 0x80) * 64 + (b2 - 0x80), 3) else (RuneError, 1)
         | _ \<Rightarrow> (RuneError, 1))
      else if 0xF0 \<le> b0 \<and> b0 \<le> 0xF4 then
        (case bs of
           b1 # b2 # b3 # _ \<Rightarrow>
             if second_byte_ok b0 b1 \<and> continuation b2 \<and> continuation b3
             then ((b0 - 0xF0) * 262144 + (b1 - 0x80) * 4096 + (b2 - 0x80) * 64 + (b3 - 0x80), 4)
             else (RuneError, 1)
         | _ \<Rightarrow> (RuneError, 1))
      else (RuneError, 1))"

definition DecodeRune :: "string \<Rightarrow> rune \<times> nat" where
  "DecodeRune s = decode_bytes (map byte s)"

text \<open>The encoding of one rune in \<open>string(runes)\<close>; a value that is no rune becomes \<open>RuneError\<close>.\<close>

definition encode_rune :: "rune \<Rightarrow> string" where
  "encode_rune r =
     map char_of
       (if r < 0x80 then [r]
        else if r < 0x800 then [0xC0 + r div 64, 0x80 + r mod 64]
        else if 0xD800 \<le> r \<and> r \<le> 0xDFFF \<or> 0x10FFFF < r then [0xEF, 0xBF, 0xBD]
        else if r < 0x10000 then [0xE0 + r div 4096, 0x80 + r div 64 mod 64, 0x80 + r mod 64]
        else [0xF0 + r div 262144, 0x80 + r div 4096 mod 64, 0x80 + r div 64 mod 64, 0x80 + r mod 64])"

definition string_of_runes :: "rune list \<Rightarrow> string" where
  "string_of_runes rs = concat (map encode_rune rs)"

section \<open>Lemmas\<close>

definition ascii :: "string \<Rightarrow> bool" where
  "ascii s \<longleftrightarrow> (\<forall>c \<in> set s. byte c < 0x80)"

lemma decode_bytes_width:
  "s \<noteq> [] \<Longrightarrow> 0 < snd (decode_bytes s) \<and> snd (decode_bytes s) \<le> length s"
  by (cases s) (auto split: list.splits)

lemma DecodeRune_width:
  "s \<noteq> [] \<Longrightarrow> 0 < snd (DecodeRune s) \<and> snd (DecodeRune s) \<le> length s"
  using decode_bytes_width [of "map byte s"] by (simp add: DecodeRune_def)

lemma DecodeRune_ascii: "byte c < 0x80 \<Longrightarrow> DecodeRune (c # s) = (byte c, 1)"
  by (simp add: DecodeRune_def)

lemma encode_byte: "byte c < 0x80 \<Longrightarrow> encode_rune (byte c) = [c]"
  by (simp add: encode_rune_def byte_def)

text \<open>\<open>utf8.RuneCountInString\<close>.\<close>

function RuneCount :: "string \<Rightarrow> nat" where
  "RuneCount s = (if s = [] then 0 else Suc (RuneCount (drop (snd (DecodeRune s)) s)))"
  by pat_completeness auto
termination
  by (relation "measure length") (use DecodeRune_width in \<open>auto simp: length_drop intro: diff_less\<close>)

declare RuneCount.simps [simp del]

lemma RuneCount_ascii: "ascii s \<Longrightarrow> RuneCount s = length s"
proof (induction s)
  case Nil
  show ?case by (simp add: RuneCount.simps)
next
  case (Cons c s)
  then have "DecodeRune (c # s) = (byte c, 1)" by (intro DecodeRune_ascii) (simp add: ascii_def)
  with Cons show ?case by (subst RuneCount.simps) (simp add: ascii_def)
qed

text \<open>What is encoded is decoded to the same rune, so Go's replacement is the only change.\<close>

definition valid_rune :: "rune \<Rightarrow> bool" where
  "valid_rune r \<longleftrightarrow> r \<le> 0x10FFFF \<and> \<not> (0xD800 \<le> r \<and> r \<le> 0xDFFF)"

lemma map_byte_char_of: "(\<And>x. x \<in> set xs \<Longrightarrow> x < 256) \<Longrightarrow> map byte (map char_of xs) = xs"
  by (induction xs) (auto simp: byte_def)

lemma encode_rune_2:
  assumes "0x80 \<le> r" "r < 0x800"
  shows "decode_bytes ([0xC0 + r div 64, 0x80 + r mod 64] @ bs) = (r, 2)"
proof -
  have "r mod 64 < 64" "2 \<le> r div 64" "r div 64 \<le> 31" using assms by auto
  then show ?thesis using mod_mult_div_eq [of r 64] by (simp add: continuation_def)
qed

lemma base64_digits:
  "(r :: nat) = r div 4096 * 4096 + r div 64 mod 64 * 64 + r mod 64"
  "(r :: nat) div 4096 = r div 262144 * 64 + r div 4096 mod 64"
proof -
  have "r div 64 div 64 = r div 4096" "r div 4096 div 64 = r div 262144"
    by (simp_all add: div_mult2_eq [symmetric])
  then show "r = r div 4096 * 4096 + r div 64 mod 64 * 64 + r mod 64"
    "r div 4096 = r div 262144 * 64 + r div 4096 mod 64"
    using div_mult_mod_eq [of r 64] div_mult_mod_eq [of "r div 64" 64] div_mult_mod_eq [of "r div 4096" 64]
    by linarith+
qed

lemma encode_rune_3:
  assumes "0x800 \<le> r" "r < 0x10000" "\<not> (0xD800 \<le> r \<and> r \<le> 0xDFFF)"
  shows "decode_bytes ([0xE0 + r div 4096, 0x80 + r div 64 mod 64, 0x80 + r mod 64] @ bs) = (r, 3)"
proof -
  define a b c where "a = r div 4096" "b = r div 64 mod 64" "c = r mod 64"
  have r: "r = a * 4096 + b * 64 + c" and lim: "a \<le> 15" "b < 64" "c < 64"
    unfolding a_b_c_def using assms(2) base64_digits(1) [of r] by (linarith, auto)
  have "second_byte_ok (0xE0 + a) (0x80 + b)"
    using assms lim unfolding second_byte_ok_def r by auto
  then show ?thesis using lim r unfolding a_b_c_def [symmetric] by (simp add: continuation_def)
qed

lemma encode_rune_4:
  assumes "0x10000 \<le> r" "r \<le> 0x10FFFF"
  shows "decode_bytes ([0xF0 + r div 262144, 0x80 + r div 4096 mod 64, 0x80 + r div 64 mod 64, 0x80 + r mod 64] @ bs)
    = (r, 4)"
proof -
  define a b c d where "a = r div 262144" "b = r div 4096 mod 64" "c = r div 64 mod 64" "d = r mod 64"
  have r: "r = a * 262144 + b * 4096 + c * 64 + d" and lim: "a \<le> 4" "b < 64" "c < 64" "d < 64"
    unfolding a_b_c_d_def using assms(2) base64_digits [of r] by (linarith, auto)
  have "second_byte_ok (0xF0 + a) (0x80 + b)"
    using assms lim unfolding second_byte_ok_def r by auto
  then show ?thesis using lim r unfolding a_b_c_d_def [symmetric] by (simp add: continuation_def)
qed

lemma DecodeRune_encode:
  assumes "valid_rune r"
  shows "DecodeRune (encode_rune r @ s) = (r, length (encode_rune r))"
proof -
  consider "r < 0x80" | "0x80 \<le> r" "r < 0x800" | "0x800 \<le> r" "r < 0x10000" | "0x10000 \<le> r" by linarith
  then show ?thesis
  proof cases
    case 1
    then show ?thesis by (simp add: encode_rune_def DecodeRune_def byte_def)
  next
    case 2
    have "map byte (encode_rune r) = [0xC0 + r div 64, 0x80 + r mod 64]"
      using 2 unfolding encode_rune_def by (subst map_byte_char_of) auto
    then show ?thesis using encode_rune_2 [OF 2, of "map byte s"] 2
      by (simp add: DecodeRune_def encode_rune_def)
  next
    case 3
    have "map byte (encode_rune r) = [0xE0 + r div 4096, 0x80 + r div 64 mod 64, 0x80 + r mod 64]"
      using 3 assms unfolding encode_rune_def valid_rune_def by (subst map_byte_char_of) auto
    then show ?thesis using encode_rune_3 [OF 3, of "map byte s"] 3 assms
      by (simp add: DecodeRune_def encode_rune_def valid_rune_def)
  next
    case 4
    have "map byte (encode_rune r) =
        [0xF0 + r div 262144, 0x80 + r div 4096 mod 64, 0x80 + r div 64 mod 64, 0x80 + r mod 64]"
      using 4 assms unfolding encode_rune_def valid_rune_def by (subst map_byte_char_of) auto
    then show ?thesis using encode_rune_4 [OF 4, of "map byte s"] 4 assms
      by (simp add: DecodeRune_def encode_rune_def valid_rune_def)
  qed
qed

end
