(* ===== verification/S3_Storage.thy ===== *)
theory S3_Storage
  imports Go_OS Go_Utf8
begin

text \<open>
  \<open>src/s3/bucket.go\<close> and \<open>src/s3/client.go\<close>: buckets of an S3 store and the upload of a file
  through the AWS command line tool. The command that a factory makes and the request that
  creates a bucket are parameters; the environment of the process is an argument of \<open>Upload\<close>.
\<close>

section \<open>Buckets\<close>

text \<open>A command that has been set up: its combined output and its error, if any.\<close>

type_synonym command = "world \<Rightarrow> (string \<times> gerror option) \<times> world"

type_synonym command_factory = "string \<Rightarrow> string list \<Rightarrow> string list \<Rightarrow> command"

record s3_bucket =
  awsCliPath :: string
  bucket_name :: string
  bucket_endpoint :: string
  bucket_key :: string
  bucket_secret :: string
  cmdFactory :: command_factory

definition InjectCommandFactory :: "command_factory \<Rightarrow> s3_bucket \<Rightarrow> s3_bucket" where
  "InjectCommandFactory factory b = b\<lparr>cmdFactory := factory\<rparr>"

definition AwsCliPath :: "string \<Rightarrow> s3_bucket \<Rightarrow> s3_bucket" where
  "AwsCliPath path b = b\<lparr>awsCliPath := path\<rparr>"

text \<open>\<open>exec_Command\<close> is \<open>exec.Command\<close> with the environment set, the default factory.\<close>

definition NewBucket ::
    "command_factory \<Rightarrow> string \<Rightarrow> string \<Rightarrow> string \<Rightarrow> string \<Rightarrow> (s3_bucket \<Rightarrow> s3_bucket) list \<Rightarrow> s3_bucket" where
  "NewBucket exec_Command name endpoint key secret options =
     fold (\<lambda>option. option) options
       \<lparr>awsCliPath = ''aws'', bucket_name = name, bucket_endpoint = endpoint, bucket_key = key,
        bucket_secret = secret, cmdFactory = exec_Command\<rparr>"

text \<open>
  \<open>obfuscate\<close> writes into an array with one rune per byte of the text, at the byte offsets of its
  runes: the places in between stay 0. \<open>cutoff\<close> leaves the last quarter of the text, at most
  four bytes, readable; \<open>float64(n)/4.0\<close> is exact.
\<close>

definition cutoff :: "string \<Rightarrow> nat" where
  "cutoff txt = length txt - min (length txt div 4) 4"

function obfuscate_loop :: "nat \<Rightarrow> nat \<Rightarrow> string \<Rightarrow> rune list \<Rightarrow> rune list" where
  "obfuscate_loop k i s runes =
     (if s = [] then runes
      else (let (c, width) = DecodeRune s in
            obfuscate_loop k (i + width) (drop width s)
              (runes[i := (if k > 0 \<and> i \<ge> k then c else 42)])))"
  by pat_completeness auto
termination
proof (relation "measure (\<lambda>(k, i, s, runes). length s)")
  fix k i :: nat and s :: string and runes :: "rune list" and p :: "rune \<times> nat" and c :: rune and width
  assume "s \<noteq> []" "p = DecodeRune s" "(c, width) = p"
  then have "0 < width" "width \<le> length s" using DecodeRune_width [of s] by (metis snd_conv)+
  then show "((k, i + width, drop width s, runes[i := if 0 < k \<and> k \<le> i then c else 42]), k, i, s, runes)
      \<in> measure (\<lambda>(k, i, s, runes). length s)"
    by simp
qed simp

declare obfuscate_loop.simps [simp del]

definition obfuscate :: "string \<Rightarrow> string" where
  "obfuscate txt =
     string_of_runes (obfuscate_loop (cutoff txt) 0 txt (replicate (length txt) 0))"

text \<open>The log data is one map: each entry replaces its event.\<close>

definition bucket_logInfo :: "string \<Rightarrow> string \<Rightarrow> (string \<times> string) list \<Rightarrow> world \<Rightarrow> (string \<times> string) list \<times> world" where
  "bucket_logInfo action event data w =
     (let data = AList.update ''event'' event data in (data, Logger_Info action data w))"

definition bucket_logError :: "string \<Rightarrow> gerror \<Rightarrow> (string \<times> string) list \<Rightarrow> world \<Rightarrow> (string \<times> string) list \<times> world" where
  "bucket_logError action err data w =
     (let data = AList.update ''event'' ''failed'' data in (data, Logger_Error action err data w))"

definition Upload :: "string list \<Rightarrow> s3_bucket \<Rightarrow> string \<Rightarrow> string \<Rightarrow> world \<Rightarrow> unit res \<times> world" where
  "Upload environ b source target w =
     (let bucketPath = ''s3://'' @ bucket_name b @ ''/'' @ target;
          env = environ @ [''AWS_ACCESS_KEY_ID='' @ bucket_key b, ''AWS_SECRET_ACCESS_KEY='' @ bucket_secret b];
          logData = [(''cli_path'', awsCliPath b), (''source_path'', source), (''bucket_path'', bucketPath),
            (''endpoint'', bucket_endpoint b), (''aws_access_key'', bucket_key b),
            (''aws_secret_key'', obfuscate (bucket_secret b))];
          (logData, w) = bucket_logInfo ''s3bucket.upload'' ''creating-command'' logData w;
          cmd = cmdFactory b (awsCliPath b) env
            [''s3'', ''cp'', source, bucketPath, ''--endpoint-url'', bucket_endpoint b];
          (logData, w) = bucket_logInfo ''s3bucket.upload'' ''shelling-out'' logData w;
          ((output, err), w) = cmd w in
      case err of
        Some e \<Rightarrow>
          (let (_, w) = bucket_logError ''s3bucket.upload'' e (AList.update ''cli_output'' output logData) w in
           (Err e, w))
      | None \<Rightarrow> (let (_, w) = bucket_logInfo ''s3bucket.upload'' ''done'' logData w in (Ok (), w)))"

definition Bucket_Name :: "s3_bucket \<Rightarrow> string" where
  "Bucket_Name b = bucket_name b"

section \<open>The client\<close>

text \<open>The regions of goamz, with the fields that the code and goamz' \<open>Bucket\<close> look at.\<close>

record aws_region =
  Region_Name :: string
  S3Endpoint :: string
  S3BucketEndpoint :: string
  S3LocationConstraint :: bool
  S3LowercaseBucket :: bool

text \<open>\<open>aws.Regions\<close> is a map: its values come in some order.\<close>

fun getRegion :: "aws_region list \<Rightarrow> string \<Rightarrow> aws_region" where
  "getRegion (region # regions) endpointUrl =
     (if endpointUrl = S3Endpoint region then region else getRegion regions endpointUrl)"
| "getRegion [] endpointUrl =
     \<lparr>Region_Name = ''custom-region'', S3Endpoint = endpointUrl, S3BucketEndpoint = '''',
      S3LocationConstraint = True, S3LowercaseBucket = False\<rparr>"

record goamz_s3 =
  AccessKey :: string
  SecretKey :: string
  Region :: aws_region

record s3_client =
  client_endpoint :: string
  goamzClient :: goamz_s3

definition NewClient :: "aws_region list \<Rightarrow> string \<Rightarrow> string \<Rightarrow> string \<Rightarrow> s3_client" where
  "NewClient regions endpoint accessKey secretKey =
     \<lparr>client_endpoint = endpoint,
      goamzClient = \<lparr>AccessKey = accessKey, SecretKey = secretKey, Region = getRegion regions endpoint\<rparr>\<rparr>"

definition ascii_lower :: "char \<Rightarrow> char" where
  "ascii_lower c =
     (if 65 \<le> (of_char c :: nat) \<and> (of_char c :: nat) \<le> 90 then char_of ((of_char c :: nat) + 32) else c)"

text \<open>\<open>goamz.S3.Bucket\<close>.\<close>

definition goamz_Bucket :: "goamz_s3 \<Rightarrow> string \<Rightarrow> string" where
  "goamz_Bucket s3 name =
     (if S3BucketEndpoint (Region s3) \<noteq> '''' \<or> S3LowercaseBucket (Region s3) then map ascii_lower name else name)"

definition ApiClient :: "s3_client \<Rightarrow> goamz_s3" where
  "ApiClient c = goamzClient c"

definition client_logInfo :: "string \<Rightarrow> string \<Rightarrow> (string \<times> string) list \<Rightarrow> world \<Rightarrow> (string \<times> string) list \<times> world" where
  "client_logInfo action event data w =
     (let data = AList.update ''event'' event data in (data, Logger_Info action data w))"

definition client_logError :: "string \<Rightarrow> gerror \<Rightarrow> (string \<times> string) list \<Rightarrow> world \<Rightarrow> (string \<times> string) list \<times> world" where
  "client_logError action err data w =
     (let data = AList.update ''event'' ''failed'' data in (data, Logger_Error action err data w))"

text \<open>
  \<open>put_bucket\<close> is the request of goamz' \<open>PutBucket(goamz.Private)\<close>; its error replies carry an
  HTTP status, and 409 says that the bucket exists.
\<close>

definition GetOrCreateBucket ::
    "command_factory \<Rightarrow> (goamz_s3 \<Rightarrow> string \<Rightarrow> world \<Rightarrow> unit res \<times> world) \<Rightarrow> s3_client \<Rightarrow> string \<Rightarrow> world \<Rightarrow>
     s3_bucket res \<times> world" where
  "GetOrCreateBucket exec_Command put_bucket c bucketName w =
     (let action = ''s3client.get-or-create-bucket'';
          (logData, w) = client_logInfo action ''starting'' [(''bucket_name'', bucketName)] w;
          bucket = goamz_Bucket (goamzClient c) bucketName;
          finish = (\<lambda>logData w.
            (let (_, w) = client_logInfo action ''done'' logData w in
             (Ok (NewBucket exec_Command bucket (client_endpoint c) (AccessKey (goamzClient c))
                   (SecretKey (goamzClient c)) []), w)));
          (r, w) = put_bucket (goamzClient c) bucket w in
      case r of
        Ok _ \<Rightarrow> finish logData w
      | Err (S3Error status msg) \<Rightarrow>
          if status \<noteq> 409 then
            (let (_, w) = client_logError action (S3Error status msg) logData w in (Err (S3Error status msg), w))
          else (let (logData, w) = client_logInfo action ''already-exists'' logData w in finish logData w)
      | Err e \<Rightarrow> (let (_, w) = client_logError action e logData w in (Err e, w))
      | Panic m \<Rightarrow> (Panic m, w))"

section \<open>Lemmas\<close>

lemma obfuscate_loop_Nil [simp]: "obfuscate_loop k i [] runes = runes"
  by (simp add: obfuscate_loop.simps)

lemma obfuscate_loop_hides:
  "length (obfuscate_loop k i s runes) = length runes \<and>
   (\<forall>j < length runes. j < k \<longrightarrow> obfuscate_loop k i s runes ! j \<in> {42, runes ! j})"
proof (induction k i s runes rule: obfuscate_loop.induct)
  case (1 k i s runes)
  show ?case
  proof (cases "s = []")
    case False
    obtain c n where d: "DecodeRune s = (c, n)" by fastforce
    define x where "x = (if k > 0 \<and> i \<ge> k then c else 42)"
    have step: "obfuscate_loop k i s runes = obfuscate_loop k (i + n) (drop n s) (runes[i := x])"
      using False d by (subst obfuscate_loop.simps) (simp add: x_def)
    have IH: "length (obfuscate_loop k (i + n) (drop n s) (runes[i := x])) = length runes \<and>
        (\<forall>j < length runes. j < k \<longrightarrow>
          obfuscate_loop k (i + n) (drop n s) (runes[i := x]) ! j \<in> {42, runes[i := x] ! j})"
      using 1 [OF False refl d [symmetric]] by (simp add: x_def)
    have "runes[i := x] ! j \<in> {42, runes ! j}" if "j < k" "j < length runes" for j
      using that by (cases "i = j") (auto simp: x_def)
    with IH show ?thesis unfolding step by (metis empty_iff insert_iff)
  qed simp
qed

lemma obfuscate_loop_ascii:
  assumes "ascii s" "0 < k" "length runes = i + length s"
  shows "obfuscate_loop k i s runes =
    take i runes @ map (\<lambda>(j, c). if k \<le> j then byte c else 42) (enumerate i s)"
  using assms
proof (induction s arbitrary: i runes)
  case (Cons c s)
  let ?x = "if k \<le> i then byte c else 42"
  have "DecodeRune (c # s) = (byte c, 1)"
    using Cons.prems(1) by (intro DecodeRune_ascii) (simp add: ascii_def)
  then have "obfuscate_loop k i (c # s) runes = obfuscate_loop k (Suc i) s (runes[i := ?x])"
    using Cons.prems(2) by (subst obfuscate_loop.simps) simp
  also have "\<dots> = take (Suc i) (runes[i := ?x]) @ map (\<lambda>(j, c). if k \<le> j then byte c else 42) (enumerate (Suc i) s)"
    using Cons.prems by (intro Cons.IH) (simp_all add: ascii_def)
  also have "take (Suc i) (runes[i := ?x]) = take i runes @ [?x]"
    using Cons.prems(3) by (simp add: take_Suc_conv_app_nth)
  finally show ?case by simp
qed simp

lemma string_of_runes_ascii: "ascii s \<Longrightarrow> string_of_runes (map byte s) = s"
  by (induction s) (auto simp: string_of_runes_def ascii_def encode_byte)

lemma string_of_runes_append: "string_of_runes (a @ b) = string_of_runes a @ string_of_runes b"
  by (simp add: string_of_runes_def)

lemma string_of_stars: "string_of_runes (replicate n 42) = replicate n (CHR ''*'')"
proof -
  have "encode_rune 42 = ''*''" by code_simp
  then show ?thesis by (induction n) (simp_all add: string_of_runes_def)
qed

lemma obfuscate_ascii:
  assumes "ascii s"
  shows "obfuscate s = replicate (cutoff s) (CHR ''*'') @ drop (cutoff s) s"
proof (cases "s = []")
  case True
  then show ?thesis by (simp add: obfuscate_def cutoff_def string_of_runes_def)
next
  case False
  then have "length s div 4 < length s" by (intro div_less_dividend) auto
  then have pos: "0 < cutoff s" by (simp add: cutoff_def)
  have "map (\<lambda>(j, c). if cutoff s \<le> j then byte c else 42) (enumerate 0 s) =
      replicate (cutoff s) 42 @ map byte (drop (cutoff s) s)"
  proof (rule nth_equalityI)
    show "length (map (\<lambda>(j, c). if cutoff s \<le> j then byte c else 42) (enumerate 0 s)) =
        length (replicate (cutoff s) 42 @ map byte (drop (cutoff s) s))"
      by (simp add: cutoff_def)
    show "map (\<lambda>(j, c). if cutoff s \<le> j then byte c else 42) (enumerate 0 s) ! i =
        (replicate (cutoff s) 42 @ map byte (drop (cutoff s) s)) ! i"
      if "i < length (map (\<lambda>(j, c). if cutoff s \<le> j then byte c else 42) (enumerate 0 s))" for i
      using that by (auto simp: nth_append nth_enumerate_eq)
  qed
  moreover have "ascii (drop (cutoff s) s)" using assms by (auto simp: ascii_def dest: in_set_dropD)
  ultimately show ?thesis
    using obfuscate_loop_ascii [OF assms pos, of "replicate (length s) 0" 0]
    by (simp add: obfuscate_def string_of_runes_append string_of_stars string_of_runes_ascii)
qed

lemma getRegion_endpoint: "S3Endpoint (getRegion regions e) = e"
  by (induction regions) auto

lemma getRegion_unique:
  assumes "distinct (map S3Endpoint regions)" "region \<in> set regions" "S3Endpoint region = e"
  shows "getRegion regions e = region"
  using assms by (induction regions) (auto simp: rev_image_eqI)

section \<open>Properties\<close>

text \<open>
  C28. What \<open>obfuscate\<close> shows of a secret is at most its last four bytes and at most a quarter of
  it: every position before the cutoff is a star, or 0 inside a character of several bytes. A
  secret of ASCII characters is shown as stars followed by those last bytes.
\<close>

theorem obfuscate_hides_secret:
  "(\<exists>rs. obfuscate s = string_of_runes rs \<and> length rs = length s \<and> (\<forall>j < cutoff s. rs ! j \<in> {42, 0})) \<and>
   length s - cutoff s \<le> 4 \<and> 4 * (length s - cutoff s) \<le> length s \<and>
   (ascii s \<longrightarrow> obfuscate s = replicate (cutoff s) (CHR ''*'') @ drop (cutoff s) s)"
proof (intro conjI)
  let ?rs = "obfuscate_loop (cutoff s) 0 s (replicate (length s) 0)"
  have "cutoff s \<le> length s" by (simp add: cutoff_def)
  then have "length ?rs = length s \<and> (\<forall>j < cutoff s. ?rs ! j \<in> {42, 0})"
    using obfuscate_loop_hides [of "cutoff s" 0 s "replicate (length s) 0"]
    by (metis length_replicate nth_replicate order_less_le_trans)
  then show "\<exists>rs. obfuscate s = string_of_runes rs \<and> length rs = length s \<and> (\<forall>j < cutoff s. rs ! j \<in> {42, 0})"
    unfolding obfuscate_def by blast
qed (auto simp: cutoff_def obfuscate_ascii)

theorem obfuscate_hides_secret_witness: "obfuscate ''my-secret-key-01'' = ''************y-01''"
proof -
  have "ascii ''my-secret-key-01''" by code_simp
  then have "obfuscate ''my-secret-key-01'' = replicate (cutoff ''my-secret-key-01'') (CHR ''*'') @
      drop (cutoff ''my-secret-key-01'') ''my-secret-key-01''"
    using obfuscate_hides_secret [of "''my-secret-key-01''"] by blast
  also have "\<dots> = ''************y-01''" by code_simp
  finally show ?thesis .
qed

text \<open>The last entry of the log, and the data that \<open>Upload\<close> logs.\<close>

definition upload_command :: "string list \<Rightarrow> s3_bucket \<Rightarrow> string \<Rightarrow> string \<Rightarrow> command" where
  "upload_command environ b source target =
     cmdFactory b (awsCliPath b)
       (environ @ [''AWS_ACCESS_KEY_ID='' @ bucket_key b, ''AWS_SECRET_ACCESS_KEY='' @ bucket_secret b])
       [''s3'', ''cp'', source, ''s3://'' @ bucket_name b @ ''/'' @ target, ''--endpoint-url'', bucket_endpoint b]"

definition upload_entry :: "s3_bucket \<Rightarrow> log_level \<Rightarrow> string \<Rightarrow> log_entry \<Rightarrow> bool" where
  "upload_entry b lvl event e \<longleftrightarrow>
     log_level e = lvl \<and> log_action e = ''s3bucket.upload'' \<and> map_of (log_data e) ''event'' = Some event \<and>
     map_of (log_data e) ''aws_secret_key'' = Some (obfuscate (bucket_secret b)) \<and>
     map_of (log_data e) ''aws_access_key'' = Some (bucket_key b)"

lemma logs_log_write: "logs (log_write l a e d w) = logs w @ [\<lparr>log_level = l, log_action = a, log_error = e, log_data = d\<rparr>]"
  by (simp add: log_write_def)

text \<open>
  \<open>Upload\<close> runs exactly one command, the AWS tool copying the source to the target in the
  bucket with the credentials in its environment, and returns the command's error. It logs two
  entries before the command and one after it; every entry shows the secret obfuscated.
\<close>

theorem upload_runs_one_command:
  "\<exists>e1 e2 e3 w2 w3 out err.
     Upload environ b source target w =
       (case err of None \<Rightarrow> Ok () | Some e \<Rightarrow> Err e, w3\<lparr>logs := logs w3 @ [e3]\<rparr>) \<and>
     upload_command environ b source target w2 = ((out, err), w3) \<and>
     w2 = w\<lparr>logs := logs w @ [e1, e2]\<rparr> \<and>
     upload_entry b INFO ''creating-command'' e1 \<and> upload_entry b INFO ''shelling-out'' e2 \<and>
     upload_entry b (if err = None then INFO else ERROR) (if err = None then ''done'' else ''failed'') e3 \<and>
     (err \<noteq> None \<longrightarrow> log_error e3 = err \<and> map_of (log_data e3) ''cli_output'' = Some out)"
proof -
  define d where "d = [(''cli_path'', awsCliPath b), (''source_path'', source),
    (''bucket_path'', ''s3://'' @ bucket_name b @ ''/'' @ target), (''endpoint'', bucket_endpoint b),
    (''aws_access_key'', bucket_key b), (''aws_secret_key'', obfuscate (bucket_secret b))]"
  define entry where "entry = (\<lambda>l err data. \<lparr>log_level = l, log_action = ''s3bucket.upload'', log_error = err, log_data = data\<rparr>)"
  define d1 where "d1 = AList.update ''event'' ''creating-command'' d"
  define d2 where "d2 = AList.update ''event'' ''shelling-out'' d1"
  define w2 where "w2 = w\<lparr>logs := logs w @ [entry INFO None d1, entry INFO None d2]\<rparr>"
  obtain out err w3 where cmd: "upload_command environ b source target w2 = ((out, err), w3)"
    by (metis surj_pair)
  define e3 where "e3 = (case err of
      None \<Rightarrow> entry INFO None (AList.update ''event'' ''done'' d2)
    | Some e \<Rightarrow> entry ERROR (Some e) (AList.update ''event'' ''failed'' (AList.update ''cli_output'' out d2)))"
  have keys: "map_of d ''aws_secret_key'' = Some (obfuscate (bucket_secret b))"
    "map_of d ''aws_access_key'' = Some (bucket_key b)"
    by (simp_all add: d_def)
  have w2: "log_write INFO ''s3bucket.upload'' None d2 (log_write INFO ''s3bucket.upload'' None d1 w) = w2"
    by (simp add: w2_def entry_def log_write_def)
  have "Upload environ b source target w =
      (case err of None \<Rightarrow> Ok () | Some e \<Rightarrow> Err e, w3\<lparr>logs := logs w3 @ [e3]\<rparr>)"
    unfolding Upload_def bucket_logInfo_def bucket_logError_def Let_def prod.case d_def [symmetric]
      d1_def [symmetric] d2_def [symmetric] w2 upload_command_def [symmetric] cmd
    by (simp add: e3_def entry_def log_write_def split: option.split)
  moreover have "upload_entry b INFO ''creating-command'' (entry INFO None d1)"
    "upload_entry b INFO ''shelling-out'' (entry INFO None d2)"
    using keys by (simp_all add: upload_entry_def entry_def d1_def d2_def update_conv')
  moreover have "upload_entry b (if err = None then INFO else ERROR) (if err = None then ''done'' else ''failed'') e3"
    "err \<noteq> None \<longrightarrow> log_error e3 = err \<and> map_of (log_data e3) ''cli_output'' = Some out"
    using keys by (cases err; simp add: upload_entry_def e3_def entry_def d1_def d2_def update_conv')+
  ultimately show ?thesis using cmd w2_def by blast
qed

definition example_bucket :: s3_bucket where
  "example_bucket = NewBucket (\<lambda>name env args w. ((''denied'', Some (ErrorString ''exit status 1'')), w))
     ''backups'' ''https://s3.example.com'' ''key'' ''my-secret-key-01'' [AwsCliPath ''/usr/bin/aws'']"

theorem upload_runs_one_command_witness:
  "fst (Upload [] example_bucket ''dump.rdb'' ''b1'' (machine [])) = Err (ErrorString ''exit status 1'') \<and>
   (\<exists>e. last (logs (snd (Upload [] example_bucket ''dump.rdb'' ''b1'' (machine [])))) = e \<and>
      map_of (log_data e) ''aws_secret_key'' = Some (obfuscate ''my-secret-key-01'') \<and>
      map_of (log_data e) ''cli_output'' = Some ''denied'')"
proof -
  have cmd: "upload_command [] example_bucket ''dump.rdb'' ''b1'' v = ((''denied'', Some (ErrorString ''exit status 1'')), v)" for v
    by (simp add: upload_command_def example_bucket_def NewBucket_def AwsCliPath_def)
  have secret: "bucket_secret example_bucket = ''my-secret-key-01''"
    by (simp add: example_bucket_def NewBucket_def AwsCliPath_def)
  show ?thesis
    using upload_runs_one_command [of "[]" example_bucket "''dump.rdb''" "''b1''" "machine []"]
    unfolding cmd by (auto simp: upload_entry_def secret)
qed

text \<open>
  \<open>GetOrCreateBucket\<close> succeeds exactly when the request creates the bucket or is answered with
  status 409, and then returns the same bucket in both cases, with the credentials and the endpoint
  of the client; any other error is returned as it is.
\<close>

theorem bucket_created_or_existing:
  assumes "put_bucket (goamzClient c) (goamz_Bucket (goamzClient c) name)
      (Logger_Info ''s3client.get-or-create-bucket'' [(''bucket_name'', name), (''event'', ''starting'')] w) = (r, w1)"
  shows "fst (GetOrCreateBucket exec_Command put_bucket c name w) =
    (case r of
       Ok _ \<Rightarrow> Ok (NewBucket exec_Command (goamz_Bucket (goamzClient c) name) (client_endpoint c)
         (AccessKey (goamzClient c)) (SecretKey (goamzClient c)) [])
     | Err e \<Rightarrow>
         if \<exists>msg. e = S3Error 409 msg
         then Ok (NewBucket exec_Command (goamz_Bucket (goamzClient c) name) (client_endpoint c)
           (AccessKey (goamzClient c)) (SecretKey (goamzClient c)) [])
         else Err e
     | Panic m \<Rightarrow> Panic m)"
  using assms
  by (simp add: GetOrCreateBucket_def client_logInfo_def client_logError_def Let_def
      split: res.splits gerror.splits)

theorem bucket_created_or_existing_witness:
  "fst (GetOrCreateBucket (\<lambda>name env args w. (('''', None), w))
     (\<lambda>s3 name w. (Err (S3Error 409 ''BucketAlreadyExists''), w))
     (NewClient [] ''https://s3.example.com'' ''key'' ''secret'') ''backups'' (machine [])) =
   Ok (NewBucket (\<lambda>name env args w. (('''', None), w)) ''backups'' ''https://s3.example.com'' ''key'' ''secret'' [])"
  using bucket_created_or_existing [of "\<lambda>s3 name w. (Err (S3Error 409 ''BucketAlreadyExists''), w)", OF refl,
      of "\<lambda>name env args w. (('''', None), w)" "NewClient [] ''https://s3.example.com'' ''key'' ''secret''"]
  by (simp add: NewClient_def goamz_Bucket_def)

end
