(* ===== verification/Recovery.thy ===== *)
theory Recovery
  imports S3_Storage
begin

text \<open>
  \<open>src/recovery/task/*.go\<close> and \<open>src/utils/files.go\<close>: the steps of a backup. A task takes an
  artifact, a file named by its path, and returns one; a pipeline runs tasks one after the other.
  The S3 client of an upload is an interface of two functions, which the client of
  \<open>src/s3\<close> implements.
\<close>

section \<open>Renaming and moving files\<close>

text \<open>
  \<open>os.Rename\<close>: a directory in the way of the new name is an error of Go; otherwise the kernel
  moves the object, and everything below it, and replaces a plain file that has the new name.
\<close>

definition move_tree :: "string list \<Rightarrow> string list \<Rightarrow> world \<Rightarrow> world" where
  "move_tree q t w =
     w\<lparr>nodes := map (\<lambda>(p, n). (if prefix q p then t @ drop (length q) p else p, n))
                  (filter (\<lambda>(p, n). p \<noteq> t) (nodes w))\<rparr>"

definition sys_rename :: "string \<Rightarrow> string \<Rightarrow> world \<Rightarrow> unit res \<times> world" where
  "sys_rename oldname newname w =
     change_path OpRename oldname w (\<lambda>q.
       case walk w q of
         Err e \<Rightarrow> (Err e, w)
       | Panic m \<Rightarrow> (Panic m, w)
       | Ok n \<Rightarrow> change_path OpRename newname w (\<lambda>t.
           if is_dir_node n \<and> strict_prefix q t then (Err (PathError EINVAL), w)
           else (case walk w t of
                   Ok (FileNode _ _) \<Rightarrow>
                     if q = t then (Ok (), w)
                     else if is_dir_node n then (Err (PathError ENOTDIR), w)
                     else (Ok (), move_tree q t w)
                 | Ok (DirNode _) \<Rightarrow> if q = t then (Ok (), w) else (Err (PathError EISDIR), w)
                 | Err e \<Rightarrow>
                     if os_IsNotExist e \<and> is_dir_at w (butlast t) then (Ok (), move_tree q t w)
                     else (Err e, w)
                 | Panic m \<Rightarrow> (Panic m, w))))"

definition os_Rename :: "string \<Rightarrow> string \<Rightarrow> world \<Rightarrow> unit res \<times> world" where
  "os_Rename oldname newname w =
     (case os_Stat newname w of
        Ok (DirNode _) \<Rightarrow>
          (case os_Stat oldname w of
             Ok _ \<Rightarrow>
               if newname = oldname \<or> resolve (cwd w) newname \<noteq> resolve (cwd w) oldname
               then (Err (ErrorString ''file exists''), w) else sys_rename oldname newname w
           | Err e \<Rightarrow> (Err e, w)
           | Panic m \<Rightarrow> (Panic m, w))
      | _ \<Rightarrow> sys_rename oldname newname w)"

text \<open>
  \<open>MoveFile\<close>. The source is open while the destination is created, so its content is what the
  file holds after that; \<open>io.Copy\<close> of an empty file writes nothing.
\<close>

definition os_Open :: "string \<Rightarrow> world \<Rightarrow> node res" where
  "os_Open p w = at_path OpOpen p w (walk w)"

definition io_Copy :: "string \<Rightarrow> string list \<Rightarrow> world \<Rightarrow> unit res \<times> world" where
  "io_Copy destination src w =
     (case node_at w src of
        Some (FileNode _ c) \<Rightarrow> if c = '''' then (Ok (), w) else write_opened destination c w
      | _ \<Rightarrow> (Err (PathError EISDIR), w))"

definition MoveFile :: "string \<Rightarrow> string \<Rightarrow> world \<Rightarrow> unit res \<times> world" where
  "MoveFile source destination w =
     io_bind (os_Open source w, w) (\<lambda>sourceFile w.
     io_bind (os_Create destination w) (\<lambda>destinationFile w.
     io_bind (io_Copy destination (resolve (cwd w) source) w) (\<lambda>_ w.
       os_Remove source w)))"

section \<open>Artifacts, tasks, pipelines\<close>

record artifact =
  artifact_path :: string

definition NewArtifact :: "string \<Rightarrow> artifact" where
  "NewArtifact path = \<lparr>artifact_path = path\<rparr>"

definition artifact_Path :: "artifact \<Rightarrow> string" where
  "artifact_Path a = artifact_path a"

record task =
  task_Name :: string
  task_Run :: "artifact \<Rightarrow> world \<Rightarrow> artifact res \<times> world"

record pipeline =
  pipeline_name :: string
  pipeline_tasks :: "task list"

definition pipeline_Name :: "pipeline \<Rightarrow> string" where
  "pipeline_Name p = pipeline_name p"

definition pipeline_logInfo :: "pipeline \<Rightarrow> string \<Rightarrow> task \<Rightarrow> world \<Rightarrow> world" where
  "pipeline_logInfo p event t w =
     Logger_Info ''pipleline-step''
       [(''event'', event), (''pipeline'', pipeline_Name p), (''task'', task_Name t)] w"

definition pipeline_logError :: "pipeline \<Rightarrow> gerror \<Rightarrow> task \<Rightarrow> world \<Rightarrow> world" where
  "pipeline_logError p err t w =
     Logger_Error ''pipleline-step'' err
       [(''event'', ''failed''), (''pipeline'', pipeline_Name p), (''task'', task_Name t)] w"

fun run_tasks :: "pipeline \<Rightarrow> task list \<Rightarrow> artifact \<Rightarrow> world \<Rightarrow> artifact res \<times> world" where
  "run_tasks p [] artifact w = (Ok artifact, w)"
| "run_tasks p (t # ts) artifact w =
     (case task_Run t artifact (pipeline_logInfo p ''starting'' t w) of
        (Ok artifact, w) \<Rightarrow> run_tasks p ts artifact (pipeline_logInfo p ''done'' t w)
      | (Err e, w) \<Rightarrow> (Err e, pipeline_logError p e t w)
      | (Panic m, w) \<Rightarrow> (Panic m, w))"

definition pipeline_Run :: "pipeline \<Rightarrow> artifact \<Rightarrow> world \<Rightarrow> artifact res \<times> world" where
  "pipeline_Run p artifact w = run_tasks p (pipeline_tasks p) artifact w"

definition NewPipeline :: "string \<Rightarrow> task list \<Rightarrow> task" where
  "NewPipeline name tasks =
     (let p = \<lparr>pipeline_name = name, pipeline_tasks = tasks\<rparr> in
      \<lparr>task_Name = pipeline_Name p, task_Run = pipeline_Run p\<rparr>)"

section \<open>Renaming an artifact\<close>

record rename =
  rename_target :: string

definition rename_Name :: "rename \<Rightarrow> string" where
  "rename_Name r = ''rename''"

definition rename_logInfo :: "rename \<Rightarrow> string \<Rightarrow> string \<Rightarrow> world \<Rightarrow> world" where
  "rename_logInfo r event source w =
     Logger_Info (rename_Name r)
       [(''event'', event), (''source'', source), (''target'', rename_target r), (''task'', rename_Name r)] w"

definition rename_logError :: "rename \<Rightarrow> gerror \<Rightarrow> string \<Rightarrow> world \<Rightarrow> world" where
  "rename_logError r err source w =
     Logger_Error (rename_Name r) err
       [(''event'', ''failed''), (''source'', source), (''target'', rename_target r), (''task'', rename_Name r)] w"

definition rename_Run :: "rename \<Rightarrow> artifact \<Rightarrow> world \<Rightarrow> artifact res \<times> world" where
  "rename_Run r a w =
     (let w = rename_logInfo r ''starting'' (artifact_Path a) w in
      case os_Rename (artifact_Path a) (rename_target r) w of
        (Err e, w) \<Rightarrow> (Err e, rename_logError r e (artifact_Path a) w)
      | (Panic m, w) \<Rightarrow> (Panic m, w)
      | (Ok _, w) \<Rightarrow> (Ok (NewArtifact (rename_target r)), rename_logInfo r ''done'' (artifact_Path a) w))"

definition NewRename :: "string \<Rightarrow> task" where
  "NewRename target =
     (let r = \<lparr>rename_target = target\<rparr> in \<lparr>task_Name = rename_Name r, task_Run = rename_Run r\<rparr>)"

section \<open>Uploading an artifact\<close>

record bucket_interface =
  bucket_Upload :: "string \<Rightarrow> string \<Rightarrow> world \<Rightarrow> unit res \<times> world"
  bucket_Name :: string

text \<open>The client of an upload: its \<open>GetOrCreateBucket\<close>.\<close>

type_synonym client_interface = "string \<Rightarrow> world \<Rightarrow> bucket_interface res \<times> world"

record s3upload =
  upload_client :: client_interface
  upload_bucketName :: string
  upload_targetPath :: string
  upload_endpoint :: string
  upload_key :: string
  upload_secret :: string

definition InjectS3Client :: "client_interface \<Rightarrow> s3upload \<Rightarrow> s3upload" where
  "InjectS3Client s3client u = u\<lparr>upload_client := s3client\<rparr>"

definition upload_Name :: "s3upload \<Rightarrow> string" where
  "upload_Name u = ''s3upload''"

definition upload_logAction :: "s3upload \<Rightarrow> string \<Rightarrow> string" where
  "upload_logAction u subAction =
     (if subAction \<noteq> '''' then upload_Name u @ ''.'' @ subAction else upload_Name u)"

definition upload_logInfo :: "s3upload \<Rightarrow> string \<Rightarrow> string \<Rightarrow> (string \<times> string) list \<Rightarrow> world \<Rightarrow> world" where
  "upload_logInfo u subAction event data w =
     Logger_Info (upload_logAction u subAction) (AList.update ''event'' event data) w"

definition upload_logError :: "s3upload \<Rightarrow> string \<Rightarrow> gerror \<Rightarrow> (string \<times> string) list \<Rightarrow> world \<Rightarrow> world" where
  "upload_logError u subAction err data w =
     Logger_Error (upload_logAction u subAction) err (AList.update ''event'' ''failed'' data) w"

definition createBucket :: "s3upload \<Rightarrow> world \<Rightarrow> bucket_interface res \<times> world" where
  "createBucket u w =
     (let logData = [(''bucket'', upload_bucketName u)];
          w = upload_logInfo u ''create-bucket'' ''starting'' logData w in
      case upload_client u (upload_bucketName u) w of
        (Err e, w) \<Rightarrow> (Err e, upload_logError u ''create-bucket'' e logData w)
      | (Panic m, w) \<Rightarrow> (Panic m, w)
      | (Ok bucket, w) \<Rightarrow> (Ok bucket, upload_logInfo u ''create-bucket'' ''done'' logData w))"

definition uploadToBucket :: "s3upload \<Rightarrow> bucket_interface \<Rightarrow> string \<Rightarrow> world \<Rightarrow> unit res \<times> world" where
  "uploadToBucket u bucket sourcePath w =
     (let logData = [(''source_path'', sourcePath), (''target_path'', upload_targetPath u),
            (''bucket'', upload_bucketName u)];
          w = upload_logInfo u ''upload'' ''starting'' logData w in
      case bucket_Upload bucket sourcePath (upload_targetPath u) w of
        (Err e, w) \<Rightarrow> (Err e, upload_logError u ''upload'' e logData w)
      | (Panic m, w) \<Rightarrow> (Panic m, w)
      | (Ok _, w) \<Rightarrow> (Ok (), upload_logInfo u ''upload'' ''done'' logData w))"

definition s3upload_Run :: "s3upload \<Rightarrow> artifact \<Rightarrow> world \<Rightarrow> artifact res \<times> world" where
  "s3upload_Run u a w =
     (let logData = [(''source_path'', artifact_Path a), (''target_path'', upload_targetPath u),
            (''bucket'', upload_bucketName u)];
          w = upload_logInfo u '''' ''starting'' logData w in
      case createBucket u w of
        (Err e, w) \<Rightarrow> (Err e, upload_logError u '''' e logData w)
      | (Panic m, w) \<Rightarrow> (Panic m, w)
      | (Ok bucket, w) \<Rightarrow>
          (case uploadToBucket u bucket (artifact_Path a) w of
             (Err e, w) \<Rightarrow> (Err e, upload_logError u '''' e logData w)
           | (Panic m, w) \<Rightarrow> (Panic m, w)
           | (Ok _, w) \<Rightarrow> (Ok a, upload_logInfo u '''' ''done'' logData w)))"

text \<open>The S3 client and its buckets as the interfaces.\<close>

definition bucket_of :: "string list \<Rightarrow> s3_bucket \<Rightarrow> bucket_interface" where
  "bucket_of environ b = \<lparr>bucket_Upload = Upload environ b, bucket_Name = Bucket_Name b\<rparr>"

definition client_of ::
    "string list \<Rightarrow> command_factory \<Rightarrow> (goamz_s3 \<Rightarrow> string \<Rightarrow> world \<Rightarrow> unit res \<times> world) \<Rightarrow> s3_client \<Rightarrow> client_interface" where
  "client_of environ exec_Command put_bucket c name w =
     io_bind (GetOrCreateBucket exec_Command put_bucket c name w) (\<lambda>b w. (Ok (bucket_of environ b), w))"

definition NewS3Upload ::
    "string list \<Rightarrow> command_factory \<Rightarrow> (goamz_s3 \<Rightarrow> string \<Rightarrow> world \<Rightarrow> unit res \<times> world) \<Rightarrow> aws_region list \<Rightarrow>
     string \<Rightarrow> string \<Rightarrow> string \<Rightarrow> string \<Rightarrow> string \<Rightarrow> (s3upload \<Rightarrow> s3upload) list \<Rightarrow> task" where
  "NewS3Upload environ exec_Command put_bucket regions bucketName targetPath endpoint key secret injectors =
     (let u = fold (\<lambda>injector. injector) injectors
            \<lparr>upload_client = client_of environ exec_Command put_bucket (NewClient regions endpoint key secret),
             upload_bucketName = bucketName, upload_targetPath = targetPath, upload_endpoint = endpoint,
             upload_key = key, upload_secret = secret\<rparr> in
      \<lparr>task_Name = upload_Name u, task_Run = s3upload_Run u\<rparr>)"

section \<open>Lemmas on renaming\<close>

definition moved_key :: "string list \<Rightarrow> string list \<Rightarrow> string list \<Rightarrow> string list" where
  "moved_key q t p = (if prefix q p then t @ drop (length q) p else p)"

text \<open>What makes a move from \<open>q\<close> to \<open>t\<close> sound: nothing lies below \<open>t\<close>, and \<open>t\<close> is not below \<open>q\<close>.\<close>

definition movable :: "world \<Rightarrow> string list \<Rightarrow> string list \<Rightarrow> bool" where
  "movable w q t \<longleftrightarrow> fs_wf w \<and> q \<noteq> [] \<and> t \<noteq> [] \<and> \<not> prefix q t \<and> is_dir_at w (butlast t) \<and>
     (\<forall>p. strict_prefix t p \<longrightarrow> node_at w p = None)"

lemma moved_key_below [simp]: "moved_key q t (q @ r) = t @ r"
  by (simp add: moved_key_def)

lemma key_node: "fs_wf w \<Longrightarrow> (p, n) \<in> set (nodes w) \<longleftrightarrow> p \<noteq> [] \<and> node_at w p = Some n"
  by (auto simp: fs_wf_def node_at_def map_of_eq_Some_iff)

lemma moved_key_inj:
  assumes "movable w q t" "node_at w a \<noteq> None" "node_at w b \<noteq> None" "a \<noteq> t" "b \<noteq> t"
    and "moved_key q t a = moved_key q t b"
  shows "a = b"
proof -
  have no: "\<not> strict_prefix t p" if "node_at w p \<noteq> None" for p
    using assms(1) that unfolding movable_def by metis
  consider "prefix q a" "prefix q b" | "prefix q a" "\<not> prefix q b" | "\<not> prefix q a" "prefix q b"
    | "\<not> prefix q a" "\<not> prefix q b" by blast
  then show ?thesis
  proof cases
    case 1
    then show ?thesis using assms(6) by (auto simp: moved_key_def prefix_def)
  next
    case 2
    then have "prefix t b" using assms(6) by (simp add: moved_key_def prefix_def) metis
    then show ?thesis using no [OF assms(3)] assms(5) by (simp add: strict_prefix_def)
  next
    case 3
    then have "prefix t a" using assms(6) by (simp add: moved_key_def prefix_def)
    then show ?thesis using no [OF assms(2)] assms(4) by (simp add: strict_prefix_def)
  next
    case 4
    then show ?thesis using assms(6) by (simp add: moved_key_def)
  qed
qed

lemma nodes_move_tree:
  "nodes (move_tree q t w) = map (\<lambda>(p, n). (moved_key q t p, n)) (filter (\<lambda>(p, n). p \<noteq> t) (nodes w))"
  by (simp add: move_tree_def moved_key_def)

lemma distinct_move_tree:
  assumes "movable w q t"
  shows "distinct (map fst (nodes (move_tree q t w)))"
proof -
  have wf: "fs_wf w" using assms by (simp add: movable_def)
  let ?xs = "filter (\<lambda>(p, n). p \<noteq> t) (nodes w)"
  have "inj_on (moved_key q t) (fst ` set ?xs)"
  proof (rule inj_onI)
    fix a b assume "a \<in> fst ` set ?xs" "b \<in> fst ` set ?xs" and eq: "moved_key q t a = moved_key q t b"
    then have "a \<noteq> t" "b \<noteq> t" "node_at w a \<noteq> None" "node_at w b \<noteq> None"
      by (auto simp: key_node [OF wf])
    then show "a = b" using moved_key_inj [OF assms] eq by blast
  qed
  moreover have "distinct (map fst ?xs)"
    using wf distinct_fst_filter by (auto simp: fs_wf_def)
  moreover have "map fst (nodes (move_tree q t w)) = map (moved_key q t) (map fst ?xs)"
    by (simp add: nodes_move_tree case_prod_unfold comp_def)
  ultimately show ?thesis by (auto simp: distinct_map intro: comp_inj_on)
qed

lemma in_move_tree:
  assumes "movable w q t"
  shows "(p, n) \<in> set (nodes (move_tree q t w)) \<longleftrightarrow>
    (\<exists>p0. p0 \<noteq> [] \<and> node_at w p0 = Some n \<and> p0 \<noteq> t \<and> moved_key q t p0 = p)"
  using key_node [of w] assms unfolding nodes_move_tree movable_def by auto

lemma moved_key_eq_iff:
  assumes m: "movable w q t" and p0: "node_at w p0 \<noteq> None" "p0 \<noteq> t"
  shows "moved_key q t p0 = p \<longleftrightarrow>
    (if prefix t p then p0 = q @ drop (length t) p else \<not> prefix q p \<and> p0 = p)"
proof (cases "prefix q p0")
  case True
  then obtain r where r: "p0 = q @ r" by (auto simp: prefix_def)
  show ?thesis unfolding r moved_key_below by (auto simp: prefix_def)
next
  case False
  have "\<not> strict_prefix t p0" using m p0(1) unfolding movable_def by metis
  then have "\<not> prefix t p0" using p0(2) by (simp add: strict_prefix_def)
  then show ?thesis using False by (auto simp: moved_key_def)
qed

lemma node_at_move_tree:
  assumes m: "movable w q t" and p: "p \<noteq> []"
  shows "node_at (move_tree q t w) p =
    (if prefix t p then node_at w (q @ drop (length t) p) else if prefix q p then None else node_at w p)"
    (is "_ = ?r")
proof -
  have q: "q \<noteq> []" and qt: "\<not> prefix q t" using m by (auto simp: movable_def)
  have "node_at (move_tree q t w) p = Some n \<longleftrightarrow> ?r = Some n" for n
  proof -
    have "node_at (move_tree q t w) p = Some n \<longleftrightarrow>
        (\<exists>p0. p0 \<noteq> [] \<and> node_at w p0 = Some n \<and> p0 \<noteq> t \<and> moved_key q t p0 = p)"
      using p distinct_move_tree [OF m] in_move_tree [OF m] by (simp add: node_at_def map_of_eq_Some_iff)
    also have "\<dots> \<longleftrightarrow> (\<exists>p0. p0 \<noteq> [] \<and> node_at w p0 = Some n \<and> p0 \<noteq> t \<and>
        (if prefix t p then p0 = q @ drop (length t) p else \<not> prefix q p \<and> p0 = p))"
      using moved_key_eq_iff [OF m] by (metis option.distinct(1))
    also have "\<dots> \<longleftrightarrow> ?r = Some n"
      using p q qt by (auto simp: prefix_def)
    finally show ?thesis .
  qed
  then show ?thesis by (metis not_None_eq)
qed

lemma fs_wf_move_tree:
  assumes m: "movable w q t"
  shows "fs_wf (move_tree q t w)"
  unfolding fs_wf_def
proof (intro conjI ballI)
  show "distinct (map fst (nodes (move_tree q t w)))" by (rule distinct_move_tree [OF m])
  have wf: "fs_wf w" and q: "q \<noteq> []" and t: "t \<noteq> []" and qt: "\<not> prefix q t" and dir: "is_dir_at w (butlast t)"
    using m by (auto simp: movable_def)
  fix p assume "p \<in> set (map fst (nodes (move_tree q t w)))"
  then obtain p0 n where p0: "p0 \<noteq> []" "node_at w p0 = Some n" "p0 \<noteq> t" "moved_key q t p0 = p"
    using in_move_tree [OF m] by fastforce
  then show "p \<noteq> []" using t by (auto simp: moved_key_def split: if_splits)
  have parent: "is_dir_at w (butlast p0)" by (rule fs_wf_parent [OF wf p0(2)])
  have kept: "is_dir_at (move_tree q t w) r" if "is_dir_at w r" "\<not> prefix q r" "\<not> prefix t r" for r
    using that node_at_move_tree [OF m, of r] by (cases "r = []") (simp_all add: is_dir_at_alt node_at_def)
  show "is_dir_at (move_tree q t w) (butlast p)"
  proof (cases "prefix q p0")
    case True
    then obtain r where r: "p0 = q @ r" "p = t @ r" using p0(4) by (auto simp: prefix_def)
    show ?thesis
    proof (cases "r = []")
      case True
      have "\<not> prefix q (butlast t)" using qt by (meson prefix_order.trans prefixeq_butlast)
      moreover have "\<not> prefix t (butlast t)" using t prefix_length_le [of t "butlast t"] by (cases t) auto
      ultimately show ?thesis using kept [OF dir] r True by simp
    next
      case False
      have "butlast p = t @ butlast r" "butlast p0 = q @ butlast r" using r False by (simp_all add: butlast_append)
      then show ?thesis using parent node_at_move_tree [OF m, of "butlast p"] t by (simp add: is_dir_at_alt)
    qed
  next
    case False
    then have "p = p0" using p0(4) by (simp add: moved_key_def)
    moreover have "\<not> prefix q (butlast p0)" using False by (meson prefix_order.trans prefixeq_butlast)
    moreover have "\<not> prefix t (butlast p0)"
    proof
      assume "prefix t (butlast p0)"
      then have "prefix t p0" by (meson prefix_order.trans prefixeq_butlast)
      then have "strict_prefix t p0" using p0(3) by (simp add: strict_prefix_def)
      then show False using m p0(2) unfolding movable_def by (metis option.distinct(1))
    qed
    ultimately show ?thesis using kept parent by simp
  qed
qed

lemma file_in_the_way: "walk w t = Ok n \<Longrightarrow> is_file_at w q \<Longrightarrow> prefix q t \<Longrightarrow> q = t"
  by (auto simp: walk_def split: if_splits)

lemma file_blocks_missing: "walk w t = Err (PathError ENOENT) \<Longrightarrow> is_file_at w q \<Longrightarrow> prefix q t \<Longrightarrow> q = t"
  by (auto simp: walk_def split: if_splits)

lemma nothing_below:
  assumes "fs_wf w" "\<not> is_dir_at w t" "strict_prefix t p"
  shows "node_at w p = None"
  using fs_wf_ancestor [OF assms(1) _ assms(3)] assms(2) by (cases "node_at w p") auto

lemma not_dir_file: "node_at w q = Some n \<Longrightarrow> \<not> is_dir_node n \<Longrightarrow> is_file_at w q"
  by (cases n) (auto simp: is_file_at_alt)

lemma movable_onto_file:
  assumes "fs_wf w" "walk w q = Ok n" "walk w t = Ok (FileNode m c)" "q \<noteq> t" "\<not> is_dir_node n"
  shows "movable w q t"
proof -
  have q: "node_at w q = Some n" and t: "node_at w t = Some (FileNode m c)" using assms walk_Ok by blast+
  have "\<not> prefix q t" using file_in_the_way [OF assms(3) not_dir_file [OF q assms(5)]] assms(4) by blast
  moreover have "q \<noteq> []" using q assms(5) by (auto simp: node_at_def)
  moreover have "\<not> is_dir_at w t" using t by (simp add: is_dir_at_alt)
  ultimately show ?thesis
    using assms(1) t nothing_below file_nonroot [OF t] fs_wf_parent unfolding movable_def by blast
qed

lemma movable_onto_missing:
  assumes "fs_wf w" "walk w q = Ok n" "walk w t = Err (PathError ENOENT)" "is_dir_at w (butlast t)"
    and "\<not> (is_dir_node n \<and> strict_prefix q t)"
  shows "movable w q t"
proof -
  have q: "node_at w q = Some n" and t: "node_at w t = None"
    using assms walk_Ok walk_Err_ENOENT by blast+
  then have neq: "q \<noteq> t" by auto
  have "\<not> prefix q t"
    using file_blocks_missing [OF assms(3)] not_dir_file [OF q] assms(5) neq by (auto simp: strict_prefix_def)
  moreover have "q \<noteq> []" using \<open>\<not> prefix q t\<close> by auto
  moreover have "t \<noteq> []" "\<not> is_dir_at w t" using t by (auto simp: node_at_def is_dir_at_def)
  ultimately show ?thesis
    using assms(1,4) nothing_below unfolding movable_def by blast
qed

lemma sys_rename_Ok:
  assumes wf: "fs_wf w" and run: "sys_rename old new w = (Ok (), w')"
  shows "node_at w (resolve (cwd w) old) \<noteq> None \<and>
    (w' = w \<and> resolve (cwd w) old = resolve (cwd w) new \<or>
     w' = move_tree (resolve (cwd w) old) (resolve (cwd w) new) w \<and>
     movable w (resolve (cwd w) old) (resolve (cwd w) new))"
proof -
  let ?q = "resolve (cwd w) old" and ?t = "resolve (cwd w) new"
  obtain n where q: "walk w ?q = Ok n"
    using run by (auto simp: sys_rename_def change_path_def split: if_splits option.splits res.splits)
  have "\<not> (is_dir_node n \<and> strict_prefix ?q ?t) \<and>
      (case walk w ?t of
         Ok (FileNode _ _) \<Rightarrow> ?q = ?t \<and> w' = w \<or> ?q \<noteq> ?t \<and> \<not> is_dir_node n \<and> w' = move_tree ?q ?t w
       | Ok (DirNode _) \<Rightarrow> ?q = ?t \<and> w' = w
       | Err e \<Rightarrow> e = PathError ENOENT \<and> is_dir_at w (butlast ?t) \<and> w' = move_tree ?q ?t w
       | Panic m \<Rightarrow> False)"
    using run q
    by (auto simp: sys_rename_def change_path_def os_IsNotExist_def
        split: if_splits option.splits res.splits node.splits)
  then show ?thesis
    using q walk_Ok [OF q] movable_onto_file [OF wf q] movable_onto_missing [OF wf q]
    by (auto split: res.splits node.splits)
qed

lemma Rename_sys:
  assumes "os_Rename old new w = (Ok (), w')"
  shows "sys_rename old new w = (Ok (), w')"
  using assms by (auto simp: os_Rename_def split: res.splits node.splits if_splits)

text \<open>A successful rename moves the object with everything below it, and nothing else changes.\<close>

lemma Rename_Ok:
  assumes wf: "fs_wf w" and run: "os_Rename old new w = (Ok (), w')"
  defines "q \<equiv> resolve (cwd w) old" and "t \<equiv> resolve (cwd w) new"
  shows "fs_wf w'" "node_at w q \<noteq> None" "node_at w' (t @ r) = node_at w (q @ r)"
    "q \<noteq> t \<Longrightarrow> prefix q p \<Longrightarrow> node_at w' p = None"
    "\<not> prefix q p \<Longrightarrow> \<not> prefix t p \<Longrightarrow> node_at w' p = node_at w p"
    "same_env w w'"
proof -
  note ok = sys_rename_Ok [OF wf Rename_sys [OF run], folded q_def t_def]
  show "node_at w q \<noteq> None" using ok by blast
  have "fs_wf w' \<and> node_at w' (t @ r) = node_at w (q @ r) \<and> (q \<noteq> t \<and> prefix q p \<longrightarrow> node_at w' p = None) \<and>
      (\<not> prefix q p \<and> \<not> prefix t p \<longrightarrow> node_at w' p = node_at w p) \<and> same_env w w'"
  proof (cases "w' = w \<and> q = t")
    case False
    then have w': "w' = move_tree q t w" and m: "movable w q t" using ok by auto
    have "t \<noteq> []" "q \<noteq> []" "\<not> prefix q t" using m by (auto simp: movable_def)
    have "\<not> prefix t q"
      using m \<open>node_at w q \<noteq> None\<close> \<open>\<not> prefix q t\<close> unfolding movable_def strict_prefix_def
      by (metis prefix_order.refl)
    then have "\<not> prefix t p" if "prefix q p"
      using that \<open>\<not> prefix q t\<close> prefix_same_cases by blast
    then show ?thesis
      using w' node_at_move_tree [OF m, of "t @ r"] node_at_move_tree [OF m, of p] fs_wf_move_tree [OF m]
        \<open>t \<noteq> []\<close> \<open>q \<noteq> []\<close>
      by (cases "p = []") (auto simp: same_env_def move_tree_def node_at_def)
  qed (use wf in auto)
  then show "fs_wf w'" "node_at w' (t @ r) = node_at w (q @ r)" "q \<noteq> t \<Longrightarrow> prefix q p \<Longrightarrow> node_at w' p = None"
    "\<not> prefix q p \<Longrightarrow> \<not> prefix t p \<Longrightarrow> node_at w' p = node_at w p" "same_env w w'"
    by blast+
qed

section \<open>Lemmas on moving\<close>

lemma io_Copy_frame: "fs_frame {resolve (cwd w) d} w (snd (io_Copy d q w))"
  using write_opened_frame [of w d] by (auto simp: io_Copy_def split: option.splits node.splits)

lemma io_Copy_Ok:
  assumes run: "io_Copy d q w = (Ok (), w')" and t: "node_at w (resolve (cwd w) d) = Some (FileNode m '''')"
  obtains m0 c where "node_at w q = Some (FileNode m0 c)" "node_at w' (resolve (cwd w) d) = Some (FileNode m c)"
proof -
  obtain m0 c where q: "node_at w q = Some (FileNode m0 c)"
    using run by (auto simp: io_Copy_def split: option.splits node.splits)
  moreover have "resolve (cwd w) d \<noteq> []" by (rule file_nonroot [OF t])
  ultimately have "node_at w' (resolve (cwd w) d) = Some (FileNode m c)"
    using run t
    by (auto simp: io_Copy_def write_opened_def Let_def set_content_def node_at_put
        split: if_splits option.splits)
  with q show ?thesis by (rule that)
qed

lemma MoveFile_steps:
  assumes "MoveFile s d w = (Ok (), w')"
  obtains n w1 w2 where "os_Open s w = Ok n" "os_Create d w = (Ok (), w1)"
    "io_Copy d (resolve (cwd w1) s) w1 = (Ok (), w2)" "os_Remove s w2 = (Ok (), w')"
  using assms by (auto simp: MoveFile_def io_bind_Ok_iff)

lemma MoveFile_source_kept:
  assumes run: "MoveFile s d w = (x, w')" "x \<noteq> Ok ()" and neq: "resolve (cwd w) s \<noteq> resolve (cwd w) d"
  shows "node_at w' (resolve (cwd w) s) = node_at w (resolve (cwd w) s)"
proof -
  let ?q = "resolve (cwd w) s" and ?t = "resolve (cwd w) d"
  obtain y1 w1 where w1: "os_Create d w = (y1, w1)" by fastforce
  obtain y2 w2 where w2: "io_Copy d (resolve (cwd w1) s) w1 = (y2, w2)" by fastforce
  have fr1: "fs_frame {?t} w w1" using Create_frame [of w d] w1 by simp
  then have "fs_frame {?t} w1 w2"
    using io_Copy_frame [of w1 d "resolve (cwd w1) s"] w2 fs_frame_cwd [OF fr1] by simp
  then have fr2: "fs_frame {?t} w w2" using fr1 fs_frame_trans by blast
  have "w' = w \<or> w' = w1 \<or> w' = w2"
    using run w1 w2 Remove_not_Ok [of s w2]
    by (cases "os_Open s w"; cases y1; cases y2) (auto simp: MoveFile_def)
  then show ?thesis using fs_frame_node [OF fr1, of ?q] fs_frame_node [OF fr2, of ?q] neq by auto
qed

lemma MoveFile_Ok:
  assumes run: "MoveFile s d w = (Ok (), w')"
  shows "node_at w' (resolve (cwd w) s) = None"
    and "resolve (cwd w) s \<noteq> resolve (cwd w) d \<Longrightarrow>
      (\<exists>m m' c. node_at w (resolve (cwd w) s) = Some (FileNode m c) \<and>
         node_at w' (resolve (cwd w) d) = Some (FileNode m' c))"
    and "p \<noteq> resolve (cwd w) s \<Longrightarrow> p \<noteq> resolve (cwd w) d \<Longrightarrow> node_at w' p = node_at w p"
proof -
  let ?q = "resolve (cwd w) s" and ?t = "resolve (cwd w) d"
  obtain n w1 w2 where create: "os_Create d w = (Ok (), w1)"
    and copy: "io_Copy d (resolve (cwd w1) s) w1 = (Ok (), w2)" and rm: "os_Remove s w2 = (Ok (), w')"
    using MoveFile_steps [OF run] by metis
  have fr1: "fs_frame {?t} w w1" using Create_frame [of w d] create by simp
  then have cwd1: "cwd w1 = cwd w" by (rule fs_frame_cwd)
  have fr2: "fs_frame {?t} w1 w2" using io_Copy_frame [of w1 d "resolve (cwd w1) s"] copy cwd1 by simp
  then have cwd2: "cwd w2 = cwd w" using fs_frame_cwd cwd1 by metis
  have fr3: "fs_frame {?q} w2 w'" using Remove_frame [of w2 s] rm cwd2 by simp
  show "node_at w' ?q = None" using Remove_Ok [OF rm] cwd2 by simp
  show "node_at w' p = node_at w p" if "p \<noteq> ?q" "p \<noteq> ?t"
    using that fs_frame_node [OF fr1, of p] fs_frame_node [OF fr2, of p] fs_frame_node [OF fr3, of p] by simp
  obtain m' where "node_at w1 (resolve (cwd w1) d) = Some (FileNode m' '''')"
    using Create_Ok [OF create] cwd1 by auto
  from io_Copy_Ok [OF copy this] obtain m c
    where "node_at w1 ?q = Some (FileNode m c)" "node_at w2 ?t = Some (FileNode m' c)"
    using cwd1 by metis
  then show "\<exists>m m' c. node_at w ?q = Some (FileNode m c) \<and> node_at w' ?t = Some (FileNode m' c)" if "?q \<noteq> ?t"
    using that fs_frame_node [OF fr1, of ?q] fs_frame_node [OF fr3, of ?t] by auto
qed

section \<open>Lemmas on tasks\<close>

text \<open>
  A run of tasks in which every one succeeds, from an artifact and a machine to an artifact and a
  machine.
\<close>

inductive ran :: "pipeline \<Rightarrow> task list \<Rightarrow> artifact \<Rightarrow> world \<Rightarrow> artifact \<Rightarrow> world \<Rightarrow> bool" for p where
  ran_none: "ran p [] a w a w"
| ran_task: "task_Run t a (pipeline_logInfo p ''starting'' t w) = (Ok a1, w1) \<Longrightarrow>
    ran p ts a1 (pipeline_logInfo p ''done'' t w1) b w' \<Longrightarrow> ran p (t # ts) a w b w'"

inductive_simps ran_Nil [simp]: "ran p [] a w b w'"
inductive_simps ran_Cons: "ran p (t # ts) a w b w'"

lemma run_tasks_Ok_iff: "run_tasks p ts a w = (Ok b, w') \<longleftrightarrow> ran p ts a w b w'"
  by (induction ts arbitrary: a w) (auto simp: ran_Cons split: prod.splits res.splits)

lemma run_tasks_append:
  "run_tasks p (ts @ us) a w = io_bind (run_tasks p ts a w) (\<lambda>b w. run_tasks p us b w)"
  by (induction ts arbitrary: a w) (auto split: prod.splits res.splits)

text \<open>The first task that fails, after a run of those before it.\<close>

definition failed_at :: "pipeline \<Rightarrow> task list \<Rightarrow> artifact \<Rightarrow> world \<Rightarrow> gerror \<Rightarrow> world \<Rightarrow> bool" where
  "failed_at p ts a w e w' \<longleftrightarrow>
     (\<exists>before t after a1 w1 w2. ts = before @ t # after \<and> ran p before a w a1 w1 \<and>
        task_Run t a1 (pipeline_logInfo p ''starting'' t w1) = (Err e, w2) \<and>
        w' = pipeline_logError p e t w2)"

lemma failed_at_Nil [simp]: "\<not> failed_at p [] a w e w'"
  by (simp add: failed_at_def)

lemma failed_at_Cons:
  "failed_at p (t # ts) a w e w' \<longleftrightarrow>
     (case task_Run t a (pipeline_logInfo p ''starting'' t w) of
        (Ok a1, w1) \<Rightarrow> failed_at p ts a1 (pipeline_logInfo p ''done'' t w1) e w'
      | (Err e1, w1) \<Rightarrow> e1 = e \<and> w' = pipeline_logError p e t w1
      | (Panic m, w1) \<Rightarrow> False)" (is "_ = ?r")
proof
  assume "failed_at p (t # ts) a w e w'"
  then obtain before t' after a1 w1 w2 where split: "t # ts = before @ t' # after"
    and run: "ran p before a w a1 w1" "task_Run t' a1 (pipeline_logInfo p ''starting'' t' w1) = (Err e, w2)"
    and w': "w' = pipeline_logError p e t' w2"
    unfolding failed_at_def by blast
  show ?r
  proof (cases before)
    case Nil
    then show ?thesis using split run w' by simp
  next
    case (Cons u us)
    then obtain b v where first: "task_Run t a (pipeline_logInfo p ''starting'' t w) = (Ok b, v)"
      and rest: "ran p us b (pipeline_logInfo p ''done'' t v) a1 w1" and ts: "ts = us @ t' # after"
      using split run(1) by (auto simp: ran_Cons)
    have "failed_at p ts b (pipeline_logInfo p ''done'' t v) e w'"
      unfolding failed_at_def ts by (intro exI conjI) (rule refl, rule rest, rule run(2), rule w')
    then show ?thesis using first by simp
  qed
next
  assume r: ?r
  obtain x w1 where run: "task_Run t a (pipeline_logInfo p ''starting'' t w) = (x, w1)" by fastforce
  show "failed_at p (t # ts) a w e w'"
  proof (cases x)
    case (Ok a1)
    with r run have "failed_at p ts a1 (pipeline_logInfo p ''done'' t w1) e w'" by simp
    then obtain before t' after a2 w2 w3 where split: "ts = before @ t' # after"
      and rest: "ran p before a1 (pipeline_logInfo p ''done'' t w1) a2 w2"
        "task_Run t' a2 (pipeline_logInfo p ''starting'' t' w2) = (Err e, w3)" "w' = pipeline_logError p e t' w3"
      unfolding failed_at_def by blast
    have "ran p (t # before) a w a2 w2" using run Ok rest(1) by (simp add: ran_Cons)
    moreover have "t # ts = (t # before) @ t' # after" using split by simp
    ultimately show ?thesis using rest(2,3) unfolding failed_at_def by blast
  next
    case (Err e1)
    then have "e1 = e" "w' = pipeline_logError p e t w1" using r run by simp_all
    then show ?thesis
      unfolding failed_at_def using run Err by (intro exI [of _ "[]"] exI [of _ t] exI) simp
  qed (use r run in simp)
qed

lemma run_tasks_Err_iff: "run_tasks p ts a w = (Err e, w') \<longleftrightarrow> failed_at p ts a w e w'"
  by (induction ts arbitrary: a w) (auto simp: failed_at_Cons split: prod.splits res.splits)

text \<open>
  What every task of a pipeline keeps of the machine the pipeline keeps, as long as logging keeps
  it too.
\<close>

locale task_effects =
  fixes keeps :: "world \<Rightarrow> world \<Rightarrow> bool"
  assumes keeps_refl: "keeps w w"
    and keeps_trans: "keeps w1 w2 \<Longrightarrow> keeps w2 w3 \<Longrightarrow> keeps w1 w3"
    and keeps_log: "keeps w (log_write l a e d w)"
begin

definition harmless :: "task \<Rightarrow> bool" where
  "harmless t \<longleftrightarrow> (\<forall>a w. keeps w (snd (task_Run t a w)))"

lemma run_tasks_keeps: "\<forall>t \<in> set ts. harmless t \<Longrightarrow> keeps w (snd (run_tasks p ts a w))"
proof (induction ts arbitrary: a w)
  case Nil
  show ?case by (simp add: keeps_refl)
next
  case (Cons t ts)
  obtain x w1 where run: "task_Run t a (pipeline_logInfo p ''starting'' t w) = (x, w1)" by fastforce
  have "keeps (pipeline_logInfo p ''starting'' t w) w1"
    using Cons.prems run unfolding harmless_def by (metis list.set_intros(1) snd_conv)
  then have w1: "keeps w w1"
    unfolding pipeline_logInfo_def using keeps_log keeps_trans by blast
  then have logged: "keeps w (log_write l b e d w1)" for l b e d using keeps_log keeps_trans by blast
  show ?case
  proof (cases x)
    case (Ok b)
    have "keeps (pipeline_logInfo p ''done'' t w1) (snd (run_tasks p ts b (pipeline_logInfo p ''done'' t w1)))"
      using Cons by simp
    then have "keeps w (snd (run_tasks p ts b (pipeline_logInfo p ''done'' t w1)))"
      using logged keeps_trans unfolding pipeline_logInfo_def by blast
    with run Ok show ?thesis by simp
  qed (use run w1 logged in \<open>simp_all add: pipeline_logError_def\<close>)
qed

lemma pipeline_harmless: "\<forall>t \<in> set ts. harmless t \<Longrightarrow> harmless (NewPipeline name ts)"
  using run_tasks_keeps by (simp add: harmless_def NewPipeline_def pipeline_Run_def Let_def)

lemma keeps_upload_log:
  "keeps w w1 \<Longrightarrow> keeps w (upload_logInfo u act ev d w1)" "keeps w w1 \<Longrightarrow> keeps w (upload_logError u act e d w1)"
  using keeps_log keeps_trans unfolding upload_logInfo_def upload_logError_def by blast+

lemma createBucket_keeps:
  assumes client: "\<And>name w. keeps w (snd (upload_client u name w))"
  shows "keeps w (snd (createBucket u w))"
    and "createBucket u w = (Ok b, w1) \<Longrightarrow> \<exists>name v v1. upload_client u name v = (Ok b, v1)"
proof -
  let ?v = "upload_logInfo u ''create-bucket'' ''starting'' [(''bucket'', upload_bucketName u)] w"
  obtain x w2 where x: "upload_client u (upload_bucketName u) ?v = (x, w2)" by fastforce
  have "keeps w ?v" by (rule keeps_upload_log) (rule keeps_refl)
  moreover have "keeps ?v w2" using client [of ?v "upload_bucketName u"] unfolding x snd_conv .
  ultimately have "keeps w w2" by (rule keeps_trans)
  then show "keeps w (snd (createBucket u w))"
    using x by (cases x) (simp_all add: createBucket_def Let_def keeps_upload_log)
  show "createBucket u w = (Ok b, w1) \<Longrightarrow> \<exists>name v v1. upload_client u name v = (Ok b, v1)"
    using x by (cases x) (auto simp: createBucket_def Let_def)
qed

lemma uploadToBucket_keeps:
  assumes bucket: "\<And>s t v. keeps v (snd (bucket_Upload b s t v))"
  shows "keeps w (snd (uploadToBucket u b s w))"
proof -
  let ?d = "[(''source_path'', s), (''target_path'', upload_targetPath u), (''bucket'', upload_bucketName u)]"
  let ?w = "upload_logInfo u ''upload'' ''starting'' ?d w"
  obtain x w1 where x: "bucket_Upload b s (upload_targetPath u) ?w = (x, w1)" by fastforce
  have "keeps w ?w" by (rule keeps_upload_log) (rule keeps_refl)
  moreover have "keeps ?w w1" using bucket [of ?w s "upload_targetPath u"] unfolding x snd_conv .
  ultimately have "keeps w w1" by (rule keeps_trans)
  then show ?thesis using x by (cases x) (simp_all add: uploadToBucket_def Let_def keeps_upload_log)
qed

lemma s3upload_harmless:
  assumes client: "\<And>name w. keeps w (snd (upload_client u name w))"
    and bucket: "\<And>name w b w1 s t v. upload_client u name w = (Ok b, w1) \<Longrightarrow> keeps v (snd (bucket_Upload b s t v))"
  shows "keeps w (snd (s3upload_Run u a w))"
proof -
  let ?d = "[(''source_path'', artifact_Path a), (''target_path'', upload_targetPath u), (''bucket'', upload_bucketName u)]"
  let ?w = "upload_logInfo u '''' ''starting'' ?d w"
  obtain x w1 where x: "createBucket u ?w = (x, w1)" by fastforce
  have "keeps w ?w" by (rule keeps_upload_log) (rule keeps_refl)
  moreover have "keeps ?w w1" using createBucket_keeps(1) [OF client, of ?w] unfolding x snd_conv .
  ultimately have w1: "keeps w w1" by (rule keeps_trans)
  show ?thesis
  proof (cases x)
    case (Ok b)
    then obtain name v v1 where b: "upload_client u name v = (res.Ok b, v1)"
      using createBucket_keeps(2) [OF client] x by blast
    obtain y w2 where y: "uploadToBucket u b (artifact_Path a) w1 = (y, w2)" by fastforce
    have "keeps w1 w2" using uploadToBucket_keeps [of b w1 u "artifact_Path a"] bucket [OF b] y by simp
    then have "keeps w w2" using w1 keeps_trans by blast
    then show ?thesis
      using x Ok y by (cases y) (simp_all add: s3upload_Run_def Let_def keeps_upload_log)
  qed (use x w1 in \<open>simp_all add: s3upload_Run_def Let_def keeps_upload_log\<close>)
qed

end

interpretation wf_tasks: task_effects "\<lambda>w w'. fs_wf w \<longrightarrow> fs_wf w'"
  by unfold_locales auto

lemma Rename_not_Ok: "fst (os_Rename old new w) \<noteq> Ok () \<Longrightarrow> snd (os_Rename old new w) = w"
  by (auto simp: os_Rename_def sys_rename_def change_path_def
      split: res.splits node.splits if_splits option.splits)

lemma fs_wf_Rename: "fs_wf w \<Longrightarrow> fs_wf (snd (os_Rename old new w))"
  using Rename_Ok(1) [of w old new] Rename_not_Ok [of old new w]
  by (cases "fst (os_Rename old new w) = Ok ()") (auto simp: prod_eq_iff)

lemma rename_harmless: "wf_tasks.harmless (NewRename target)"
proof -
  have "fs_wf (snd (rename_Run r a w))" if "fs_wf w" for r a w
  proof -
    let ?w = "rename_logInfo r ''starting'' (artifact_Path a) w"
    obtain x w1 where x: "os_Rename (artifact_Path a) (rename_target r) ?w = (x, w1)" by fastforce
    have "fs_wf ?w" using that by (simp add: rename_logInfo_def)
    from fs_wf_Rename [OF this, of "artifact_Path a" "rename_target r"] have "fs_wf w1" unfolding x by simp
    then show ?thesis
      using x by (cases x) (simp_all add: rename_Run_def Let_def rename_logInfo_def rename_logError_def)
  qed
  then show ?thesis by (simp add: wf_tasks.harmless_def NewRename_def Let_def)
qed

text \<open>The command that uploads, and the request that creates a bucket, leave a tree of files.\<close>

definition tree_kept_by ::
    "command_factory \<Rightarrow> (goamz_s3 \<Rightarrow> string \<Rightarrow> world \<Rightarrow> unit res \<times> world) \<Rightarrow> bool" where
  "tree_kept_by exec_Command put_bucket \<longleftrightarrow>
     (\<forall>name env args w. fs_wf w \<longrightarrow> fs_wf (snd (exec_Command name env args w))) \<and>
     (\<forall>s3 name w. fs_wf w \<longrightarrow> fs_wf (snd (put_bucket s3 name w)))"

lemma fs_wf_Upload:
  assumes "\<forall>name env args w. fs_wf w \<longrightarrow> fs_wf (snd (cmdFactory b name env args w))" "fs_wf w"
  shows "fs_wf (snd (Upload environ b source target w))"
proof -
  let ?d = "[(''cli_path'', awsCliPath b), (''source_path'', source),
    (''bucket_path'', ''s3://'' @ bucket_name b @ ''/'' @ target), (''endpoint'', bucket_endpoint b),
    (''aws_access_key'', bucket_key b), (''aws_secret_key'', obfuscate (bucket_secret b))]"
  define d1 where "d1 = AList.update ''event'' ''creating-command'' ?d"
  define d2 where "d2 = AList.update ''event'' ''shelling-out'' d1"
  define w2 where "w2 = log_write INFO ''s3bucket.upload'' None d2 (log_write INFO ''s3bucket.upload'' None d1 w)"
  obtain r err w3 where cmd: "upload_command environ b source target w2 = ((r, err), w3)"
    by (metis surj_pair)
  have "fs_wf w2" using assms(2) by (simp add: w2_def)
  then have "fs_wf (snd (upload_command environ b source target w2))"
    using assms(1) unfolding upload_command_def by blast
  then have "fs_wf w3" unfolding cmd by simp
  then show ?thesis
    unfolding Upload_def bucket_logInfo_def bucket_logError_def Let_def prod.case
      d1_def [symmetric] d2_def [symmetric] w2_def [symmetric] upload_command_def [symmetric] cmd
    by (cases err) simp_all
qed

lemma GetOrCreateBucket_Ok:
  assumes "fst (GetOrCreateBucket exec_Command put_bucket c name w) = Ok b"
  shows "cmdFactory b = exec_Command"
  using assms
  by (auto simp: GetOrCreateBucket_def Let_def client_logInfo_def client_logError_def NewBucket_def
      split: prod.splits res.splits gerror.splits if_splits)

lemma fs_wf_GetOrCreateBucket:
  assumes "tree_kept_by exec_Command put_bucket" "fs_wf w"
  shows "fs_wf (snd (GetOrCreateBucket exec_Command put_bucket c name w))"
proof -
  let ?w = "Logger_Info ''s3client.get-or-create-bucket'' (AList.update ''event'' ''starting'' [(''bucket_name'', name)]) w"
  obtain x w1 where x: "put_bucket (goamzClient c) (goamz_Bucket (goamzClient c) name) ?w = (x, w1)" by fastforce
  have "fs_wf ?w" using assms(2) by simp
  then have "fs_wf (snd (put_bucket (goamzClient c) (goamz_Bucket (goamzClient c) name) ?w))"
    using assms(1) unfolding tree_kept_by_def by blast
  then have "fs_wf w1" unfolding x by simp
  then show ?thesis
    unfolding GetOrCreateBucket_def client_logInfo_def client_logError_def Let_def prod.case x
    by (auto split: res.splits gerror.splits if_splits)
qed

lemma client_of_Ok:
  assumes "client_of environ exec_Command put_bucket c name w = (Ok b, w1)"
  shows "\<exists>b'. fst (GetOrCreateBucket exec_Command put_bucket c name w) = Ok b' \<and> b = bucket_of environ b'"
proof -
  obtain x v where x: "GetOrCreateBucket exec_Command put_bucket c name w = (x, v)" by fastforce
  show ?thesis using assms unfolding client_of_def x by (cases x) auto
qed

lemma fs_wf_client_of:
  assumes "tree_kept_by exec_Command put_bucket" "fs_wf w"
  shows "fs_wf (snd (client_of environ exec_Command put_bucket c name w))"
proof -
  obtain x v where x: "GetOrCreateBucket exec_Command put_bucket c name w = (x, v)" by fastforce
  show ?thesis
    using fs_wf_GetOrCreateBucket [OF assms, of c name] unfolding client_of_def x by (cases x) auto
qed

lemma fs_wf_bucket_of:
  assumes "tree_kept_by exec_Command put_bucket"
    and "client_of environ exec_Command put_bucket c name w = (Ok b, w1)" "fs_wf v"
  shows "fs_wf (snd (bucket_Upload b s t v))"
proof -
  obtain b' where b': "fst (GetOrCreateBucket exec_Command put_bucket c name w) = Ok b'" "b = bucket_of environ b'"
    using client_of_Ok [OF assms(2)] by blast
  have "fs_wf (snd (Upload environ b' s t v))"
    by (rule fs_wf_Upload [OF _ assms(3)])
      (use assms(1) GetOrCreateBucket_Ok [OF b'(1)] in \<open>simp add: tree_kept_by_def\<close>)
  then show ?thesis using b'(2) by (simp add: bucket_of_def)
qed

lemma s3upload_keeps_tree:
  assumes "tree_kept_by exec_Command put_bucket"
  shows "wf_tasks.harmless
    (NewS3Upload environ exec_Command put_bucket regions bucketName targetPath endpoint key secret [])"
proof -
  let ?u = "\<lparr>upload_client = client_of environ exec_Command put_bucket (NewClient regions endpoint key secret),
    upload_bucketName = bucketName, upload_targetPath = targetPath, upload_endpoint = endpoint,
    upload_key = key, upload_secret = secret\<rparr>"
  have "fs_wf w \<longrightarrow> fs_wf (snd (s3upload_Run ?u a w))" for a w
  proof (rule wf_tasks.s3upload_harmless)
    show "fs_wf w \<longrightarrow> fs_wf (snd (upload_client ?u name w))" for name w
      using fs_wf_client_of [OF assms] by simp
    show "fs_wf v \<longrightarrow> fs_wf (snd (bucket_Upload b s t v))" if "upload_client ?u name w = (Ok b, w1)" for name w b w1 s t v
      using fs_wf_bucket_of [OF assms] that by simp
  qed
  then show ?thesis unfolding wf_tasks.harmless_def NewS3Upload_def Let_def by simp
qed

lemma rename_Run_Ok:
  assumes "rename_Run r a w = (Ok b, w')"
  shows "b = NewArtifact (rename_target r)"
    and "\<exists>w1. os_Rename (artifact_Path a) (rename_target r) (rename_logInfo r ''starting'' (artifact_Path a) w) = (Ok (), w1) \<and>
      nodes w' = nodes w1"
proof -
  obtain x w1 where x: "os_Rename (artifact_Path a) (rename_target r) (rename_logInfo r ''starting'' (artifact_Path a) w) = (x, w1)"
    by fastforce
  show "b = NewArtifact (rename_target r)" using assms x by (cases x) (simp_all add: rename_Run_def Let_def)
  show "\<exists>w1. os_Rename (artifact_Path a) (rename_target r) (rename_logInfo r ''starting'' (artifact_Path a) w) = (Ok (), w1) \<and>
      nodes w' = nodes w1"
    using assms x by (cases x) (auto simp: rename_Run_def Let_def rename_logInfo_def)
qed

lemma s3upload_Run_Ok:
  assumes "s3upload_Run u a w = (Ok b, w')"
  shows "b = a \<and> (\<exists>bucket w2 w3 w4 w5. nodes w2 = nodes w \<and>
    upload_client u (upload_bucketName u) w2 = (Ok bucket, w3) \<and> nodes w4 = nodes w3 \<and>
    bucket_Upload bucket (artifact_Path a) (upload_targetPath u) w4 = (Ok (), w5) \<and> nodes w' = nodes w5)"
proof -
  let ?d = "[(''source_path'', artifact_Path a), (''target_path'', upload_targetPath u), (''bucket'', upload_bucketName u)]"
  define v0 where "v0 = upload_logInfo u '''' ''starting'' ?d w"
  define v1 where "v1 = upload_logInfo u ''create-bucket'' ''starting'' [(''bucket'', upload_bucketName u)] v0"
  obtain x w3 where x: "upload_client u (upload_bucketName u) v1 = (x, w3)" by fastforce
  obtain bucket where ok: "x = Ok bucket"
    using assms x by (cases x) (simp_all add: s3upload_Run_def createBucket_def Let_def v0_def v1_def)
  define v2 where "v2 = upload_logInfo u ''create-bucket'' ''done'' [(''bucket'', upload_bucketName u)] w3"
  have create: "createBucket u v0 = (Ok bucket, v2)"
    using x ok by (simp add: createBucket_def Let_def v1_def v2_def)
  define v3 where "v3 = upload_logInfo u ''upload'' ''starting'' ?d v2"
  obtain y w5 where y: "bucket_Upload bucket (artifact_Path a) (upload_targetPath u) v3 = (y, w5)" by fastforce
  have upload: "uploadToBucket u bucket (artifact_Path a) v2 =
      (case y of Ok _ \<Rightarrow> (Ok (), upload_logInfo u ''upload'' ''done'' ?d w5)
       | Err e \<Rightarrow> (Err e, upload_logError u ''upload'' e ?d w5) | Panic m \<Rightarrow> (Panic m, w5))"
    using y by (simp add: uploadToBucket_def Let_def v3_def split: res.splits)
  have "y = Ok () \<and> b = a \<and> w' = upload_logInfo u '''' ''done'' ?d (upload_logInfo u ''upload'' ''done'' ?d w5)"
    using assms unfolding s3upload_Run_def Let_def v0_def [symmetric] create prod.case res.case upload
    by (cases y) auto
  moreover have "nodes v1 = nodes w" "nodes v3 = nodes w3"
    by (simp_all add: v0_def v1_def v2_def v3_def upload_logInfo_def)
  moreover have "nodes w' = nodes w5" using calculation(1) by (simp add: upload_logInfo_def)
  ultimately show ?thesis using x ok y by metis
qed

lemma two_tasks_Ok:
  assumes "task_Run (NewPipeline name [t1, t2]) a w = (Ok b, w')"
  shows "\<exists>l d a1 w1 v1 v2. task_Run t1 a (Logger_Info l d w) = (Ok a1, w1) \<and> nodes v1 = nodes w1 \<and>
    task_Run t2 a1 v1 = (Ok b, v2) \<and> nodes w' = nodes v2"
proof -
  let ?p = "\<lparr>pipeline_name = name, pipeline_tasks = [t1, t2]\<rparr>"
  have "ran ?p [t1, t2] a w b w'"
    unfolding run_tasks_Ok_iff [symmetric] using assms by (simp add: NewPipeline_def pipeline_Run_def Let_def)
  then obtain a1 w1 v2 where "task_Run t1 a (pipeline_logInfo ?p ''starting'' t1 w) = (Ok a1, w1)"
    "task_Run t2 a1 (pipeline_logInfo ?p ''starting'' t2 (pipeline_logInfo ?p ''done'' t1 w1)) = (Ok b, v2)"
    "w' = pipeline_logInfo ?p ''done'' t2 v2"
    by (auto simp: ran_Cons)
  moreover have "nodes (pipeline_logInfo ?p ev t v) = nodes v" for ev t v by (simp add: pipeline_logInfo_def)
  ultimately show ?thesis unfolding pipeline_logInfo_def by metis
qed

section \<open>Properties\<close>

text \<open>
  C25. A pipeline runs its tasks in order, each on the artifact of the one before: it succeeds
  exactly when all of them do, with the artifact of the last one, and it fails exactly when some
  task fails after those before it succeeded. The tasks after a failing one are not run.
\<close>

theorem pipeline_runs_in_order:
  "(task_Run (NewPipeline name ts) a w = (Ok b, w') \<longleftrightarrow>
      ran \<lparr>pipeline_name = name, pipeline_tasks = ts\<rparr> ts a w b w') \<and>
   (task_Run (NewPipeline name ts) a w = (Err e, w') \<longleftrightarrow>
      failed_at \<lparr>pipeline_name = name, pipeline_tasks = ts\<rparr> ts a w e w')"
  by (simp add: NewPipeline_def pipeline_Run_def Let_def run_tasks_Ok_iff run_tasks_Err_iff)


definition example_backup :: task where
  "example_backup = NewPipeline ''backup''
     [NewRename ''/b/dump-1.rdb'',
      NewS3Upload [] (\<lambda>name env args w. (('''', None), w)) (\<lambda>s3 name w. (Err (S3Error 409 ''exists''), w)) []
        ''backups'' ''dump-1.rdb'' ''https://s3.example.com'' ''key'' ''secret'' []]"

definition example_dump :: world where
  "example_dump = machine [([''b''], DirNode (octal 7 5 5)), ([''b'', ''dump.rdb''], FileNode (octal 6 4 4) ''data'')]"

lemma example_tree_kept:
  "tree_kept_by (\<lambda>name env args w. (('''', None), w)) (\<lambda>s3 name w. (Err (S3Error 409 ''exists''), w))"
  by (simp add: tree_kept_by_def)

lemma example_dump_wf: "fs_wf example_dump"
  by code_simp


text \<open>
  C26. A backup that renames the artifact and uploads it uploads what was renamed: the object that
  had the artifact's path, with everything below it, has the target's path when the bucket is
  made and the upload starts from there. The artifact returned is the renamed one.
\<close>

theorem backup_uploads_renamed_file:
  assumes wf: "fs_wf w"
    and run: "task_Run (NewPipeline name [NewRename target, \<lparr>task_Name = upload_Name u, task_Run = s3upload_Run u\<rparr>]) a w
      = (Ok b, w')"
  shows "artifact_Path b = target \<and>
    (\<exists>w1 bucket w2 w3 w4 w5.
       node_at w (resolve (cwd w) (artifact_Path a)) \<noteq> None \<and>
       (\<forall>r. node_at w1 (resolve (cwd w) target @ r) = node_at w (resolve (cwd w) (artifact_Path a) @ r)) \<and>
       nodes w2 = nodes w1 \<and> upload_client u (upload_bucketName u) w2 = (Ok bucket, w3) \<and>
       nodes w4 = nodes w3 \<and> bucket_Upload bucket target (upload_targetPath u) w4 = (Ok (), w5) \<and>
       nodes w' = nodes w5)"
proof -
  obtain l d a1 w1 v1 v2 where ren: "rename_Run \<lparr>rename_target = target\<rparr> a (Logger_Info l d w) = (Ok a1, w1)"
    and v1: "nodes v1 = nodes w1" and up: "s3upload_Run u a1 v1 = (Ok b, v2)" and w': "nodes w' = nodes v2"
    using two_tasks_Ok [OF run] by (auto simp: NewRename_def Let_def)
  define v where "v = rename_logInfo \<lparr>rename_target = target\<rparr> ''starting'' (artifact_Path a) (Logger_Info l d w)"
  obtain w2 where mv: "os_Rename (artifact_Path a) target v = (Ok (), w2)" and w2: "nodes w1 = nodes w2"
    using rename_Run_Ok(2) [OF ren] by (auto simp: v_def)
  have v: "fs_wf v" "cwd v = cwd w" "node_at v = node_at w"
    using wf by (simp_all add: v_def rename_logInfo_def)
  note moved = Rename_Ok(2,3) [OF v(1) mv, unfolded v(2,3)]
  have "a1 = NewArtifact target" using rename_Run_Ok(1) [OF ren] by simp
  then show ?thesis
    using s3upload_Run_Ok [OF up] moved v1 w2 w' by (auto simp: NewArtifact_def artifact_Path_def) metis
qed

definition example_upload :: s3upload where
  "example_upload =
     \<lparr>upload_client = (\<lambda>name w. (Ok \<lparr>bucket_Upload = (\<lambda>s t w. (Ok (), w)), bucket_Name = name\<rparr>, w)),
      upload_bucketName = ''backups'', upload_targetPath = ''dump-1.rdb'', upload_endpoint = '''',
      upload_key = '''', upload_secret = ''''\<rparr>"

definition example_rename_upload :: task where
  "example_rename_upload = NewPipeline ''backup'' [NewRename ''/b/dump-1.rdb'',
     \<lparr>task_Name = upload_Name example_upload, task_Run = s3upload_Run example_upload\<rparr>]"

theorem backup_uploads_renamed_file_witness:
  "\<exists>w1. node_at w1 [''b'', ''dump-1.rdb''] = Some (FileNode (octal 6 4 4) ''data'')"
proof -
  let ?run = "task_Run example_rename_upload (NewArtifact ''/b/dump.rdb'') example_dump"
  have "fst ?run = Ok (NewArtifact ''/b/dump-1.rdb'')" by code_simp
  then have run: "?run = (Ok (NewArtifact ''/b/dump-1.rdb''), snd ?run)" by (rule eq_pair_fst)
  have paths: "resolve (cwd example_dump) ''/b/dump-1.rdb'' = [''b'', ''dump-1.rdb'']"
    "resolve (cwd example_dump) (artifact_Path (NewArtifact ''/b/dump.rdb'')) = [''b'', ''dump.rdb'']"
    "node_at example_dump [''b'', ''dump.rdb''] = Some (FileNode (octal 6 4 4) ''data'')"
    by code_simp+
  obtain w1 where "\<forall>r. node_at w1 ([''b'', ''dump-1.rdb''] @ r) = node_at example_dump ([''b'', ''dump.rdb''] @ r)"
    using backup_uploads_renamed_file [OF example_dump_wf run [unfolded example_rename_upload_def]]
    unfolding paths by blast
  then show ?thesis using paths(3) by (metis append_Nil2)
qed

text \<open>
  C29. \<open>MoveFile\<close> moves a file: the destination gets the content, the source is gone, and every
  other file stays as it was; when it fails, the source is still there. But moving a file onto
  itself, under whatever path, destroys it.
\<close>

theorem move_file_spec:
  "(MoveFile s d w = (Ok (), w') \<longrightarrow>
      node_at w' (resolve (cwd w) s) = None \<and>
      (resolve (cwd w) s \<noteq> resolve (cwd w) d \<longrightarrow>
        (\<exists>m m' c. node_at w (resolve (cwd w) s) = Some (FileNode m c) \<and>
           node_at w' (resolve (cwd w) d) = Some (FileNode m' c))) \<and>
      (\<forall>p. p \<noteq> resolve (cwd w) s \<and> p \<noteq> resolve (cwd w) d \<longrightarrow> node_at w' p = node_at w p)) \<and>
   (MoveFile s d w = (Err e, w') \<and> resolve (cwd w) s \<noteq> resolve (cwd w) d \<longrightarrow>
      node_at w' (resolve (cwd w) s) = node_at w (resolve (cwd w) s))"
  using MoveFile_Ok [of s d w w'] MoveFile_source_kept [of s d w "Err e" w'] by blast

theorem move_file_spec_witness:
  "\<exists>w'. MoveFile ''/b/dump.rdb'' ''/b/../b/dump.rdb'' example_dump = (Ok (), w') \<and> node_at w' [''b'', ''dump.rdb''] = None"
proof -
  let ?run = "MoveFile ''/b/dump.rdb'' ''/b/../b/dump.rdb'' example_dump"
  have "fst ?run = Ok ()" by code_simp
  then have run: "?run = (Ok (), snd ?run)" by (rule eq_pair_fst)
  have "resolve (cwd example_dump) ''/b/dump.rdb'' = [''b'', ''dump.rdb'']" by code_simp
  then have "node_at (snd ?run) [''b'', ''dump.rdb''] = None"
    using move_file_spec [of "''/b/dump.rdb''" "''/b/../b/dump.rdb''" example_dump "snd ?run" undefined] run by metis
  with run show ?thesis by blast
qed

end
