(* ===== verification/Instance_Info.thy ===== *)
theory Instance_Info
  imports Prelude Go_Utf8
begin

text \<open>
  \<open>src/redisinstance/redisinstance.go\<close>: the HTTP handler that tells which instance a host runs,
  with the parts of \<open>net/url\<close>, \<open>net/http\<close> and \<open>encoding/json\<close> that it uses. The finder of
  instances is a parameter, as in the code.
\<close>

section \<open>Queries\<close>

definition hex_digit :: "char \<Rightarrow> nat option" where
  "hex_digit c =
     (let n = byte c in
      if 48 \<le> n \<and> n \<le> 57 then Some (n - 48)
      else if 97 \<le> n \<and> n \<le> 102 then Some (n - 87)
      else if 65 \<le> n \<and> n \<le> 70 then Some (n - 55) else None)"

text \<open>\<open>url.QueryUnescape\<close>; \<open>None\<close> is the error of a percent sign without two hex digits.\<close>

fun QueryUnescape :: "string \<Rightarrow> string option" where
  "QueryUnescape [] = Some []"
| "QueryUnescape (c # s) =
     (if c = CHR ''%'' then
        (case s of
           a # b # s' \<Rightarrow>
             (case (hex_digit a, hex_digit b) of
                (Some x, Some y) \<Rightarrow> map_option (\<lambda>r. char_of (x * 16 + y) # r) (QueryUnescape s')
              | _ \<Rightarrow> None)
         | _ \<Rightarrow> None)
      else map_option (\<lambda>r. (if c = CHR ''+'' then CHR '' '' else c) # r) (QueryUnescape s))"

text \<open>\<open>url.ParseQuery\<close> without its error, which \<open>URL.Query\<close> drops: a pair that is malformed is skipped.\<close>

definition cut_at :: "char \<Rightarrow> string \<Rightarrow> string \<times> string" where
  "cut_at c s = (takeWhile (\<lambda>x. x \<noteq> c) s, tl (dropWhile (\<lambda>x. x \<noteq> c) s))"

definition query_pair :: "string \<Rightarrow> (string \<times> string) option" where
  "query_pair p =
     (if p = '''' \<or> CHR '';'' \<in> set p then None
      else (let (k, v) = cut_at (CHR ''='') p in
            case (QueryUnescape k, QueryUnescape v) of
              (Some k', Some v') \<Rightarrow> Some (k', v')
            | _ \<Rightarrow> None))"

definition URL_Query :: "string \<Rightarrow> string \<Rightarrow> string list" where
  "URL_Query rawQuery key =
     map snd (filter (\<lambda>kv. fst kv = key) (List.map_filter query_pair (strings_Split (CHR ''&'') rawQuery)))"

section \<open>Responses\<close>

text \<open>
  The writer of a response: the header map, what was sent when the status was written, and the
  body. Writing the body without a status sends 200; a second status is ignored.
\<close>

record response =
  res_header :: "(string \<times> string list) list"
  res_sent :: "(int \<times> (string \<times> string list) list) option"
  res_body :: string

definition empty_response :: response where
  "empty_response = \<lparr>res_header = [], res_sent = None, res_body = ''''\<rparr>"

definition Header_Set :: "string \<Rightarrow> string \<Rightarrow> response \<Rightarrow> response" where
  "Header_Set k v r = r\<lparr>res_header := AList.update k [v] (res_header r)\<rparr>"

definition Header_Add :: "string \<Rightarrow> string \<Rightarrow> response \<Rightarrow> response" where
  "Header_Add k v r =
     r\<lparr>res_header := AList.update k
        ((case map_of (res_header r) k of None \<Rightarrow> [] | Some vs \<Rightarrow> vs) @ [v]) (res_header r)\<rparr>"

definition WriteHeader :: "int \<Rightarrow> response \<Rightarrow> response" where
  "WriteHeader code r = (case res_sent r of None \<Rightarrow> r\<lparr>res_sent := Some (code, res_header r)\<rparr> | Some _ \<Rightarrow> r)"

definition res_Write :: "string \<Rightarrow> response \<Rightarrow> response" where
  "res_Write data r = (let r' = WriteHeader 200 r in r'\<lparr>res_body := res_body r' @ data\<rparr>)"

definition http_Error :: "string \<Rightarrow> int \<Rightarrow> response \<Rightarrow> response" where
  "http_Error error code r =
     res_Write (error @ [CHR 0x0A])
       (WriteHeader code
         (Header_Set ''X-Content-Type-Options'' ''nosniff''
           (Header_Set ''Content-Type'' ''text/plain; charset=utf-8'' r)))"

section \<open>JSON\<close>

text \<open>The string literals of \<open>json.Marshal\<close>, which escapes for HTML.\<close>

definition lower_hex :: "nat \<Rightarrow> char" where
  "lower_hex n = (if n < 10 then char_of (48 + n) else char_of (87 + n))"

definition json_byte :: "char \<Rightarrow> string" where
  "json_byte c =
     (if c = CHR 0x22 \<or> c = CHR 0x5C then [CHR 0x5C, c]
      else if c = CHR 0x0A then [CHR 0x5C, CHR ''n'']
      else if c = CHR 0x0D then [CHR 0x5C, CHR ''r'']
      else if c = CHR 0x09 then [CHR 0x5C, CHR ''t'']
      else if byte c < 32 \<or> c = CHR ''<'' \<or> c = CHR ''>'' \<or> c = CHR ''&'' then
        [CHR 0x5C] @ ''u00'' @ [lower_hex (byte c div 16), lower_hex (byte c mod 16)]
      else [c])"

function json_chars :: "string \<Rightarrow> string" where
  "json_chars s =
     (if s = [] then []
      else (let (r, width) = DecodeRune s in
            (if byte (hd s) < 128 then json_byte (hd s)
             else if r = RuneError \<and> width = 1 then [CHR 0x5C] @ ''ufffd''
             else if r = 0x2028 then [CHR 0x5C] @ ''u2028''
             else if r = 0x2029 then [CHR 0x5C] @ ''u2029''
             else take width s)
            @ json_chars (drop width s)))"
  by pat_completeness auto
termination
proof (relation "measure length")
  fix s :: string and p :: "rune \<times> nat" and r :: rune and width
  assume "s \<noteq> []" "p = DecodeRune s" "(r, width) = p"
  then have "0 < width" "width \<le> length s" using DecodeRune_width [of s] by (metis snd_conv)+
  then show "(drop width s, s) \<in> measure length" by simp
qed simp

declare json_chars.simps [simp del]

definition Marshal :: "string \<Rightarrow> string res" where
  "Marshal instanceID =
     Ok (''{'' @ [CHR 0x22] @ ''instance_id'' @ [CHR 0x22] @ '':'' @ [CHR 0x22] @ json_chars instanceID @ [CHR 0x22] @ ''}'')"

section \<open>The handler\<close>

text \<open>After an error of \<open>Marshal\<close> the handler goes on and writes the empty payload.\<close>

definition NewHandler :: "(string \<Rightarrow> string) \<Rightarrow> string \<Rightarrow> response" where
  "NewHandler IDForHost rawQuery =
     (let res = Header_Add ''Content-Type'' ''application/json'' empty_response;
          host = URL_Query rawQuery ''host'' in
      if length host = 0 then http_Error '''' 400 res
      else (let instanceID = IDForHost (host ! 0) in
            if instanceID = '''' then http_Error '''' 404 res
            else (case Marshal instanceID of
                    Ok payload \<Rightarrow> res_Write payload res
                  | _ \<Rightarrow> res_Write '''' (http_Error '''' 500 res))))"

section \<open>Lemmas\<close>

text \<open>The escaping that clients use, \<open>url.QueryEscape\<close>.\<close>

definition upper_hex :: "nat \<Rightarrow> char" where
  "upper_hex n = (if n < 10 then char_of (48 + n) else char_of (55 + n))"

definition unreserved :: "char \<Rightarrow> bool" where
  "unreserved c \<longleftrightarrow>
     (let n = byte c in 48 \<le> n \<and> n \<le> 57 \<or> 65 \<le> n \<and> n \<le> 90 \<or> 97 \<le> n \<and> n \<le> 122 \<or>
        n = 45 \<or> n = 46 \<or> n = 95 \<or> n = 126)"

definition escape_char :: "char \<Rightarrow> string" where
  "escape_char c =
     (if unreserved c then [c] else if c = CHR '' '' then ''+''
      else [CHR ''%'', upper_hex (byte c div 16), upper_hex (byte c mod 16)])"

definition QueryEscape :: "string \<Rightarrow> string" where
  "QueryEscape s = concat (map escape_char s)"

lemma byte_less: "byte c < 256"
  unfolding byte_def by (metis nat_less_le of_char_mod_256 mod_less_divisor zero_less_numeral)

lemma hex_upper: "n < 16 \<Longrightarrow> hex_digit (upper_hex n) = Some n"
  by (auto simp: hex_digit_def upper_hex_def byte_def Let_def)

lemma byte_CHR: "byte (CHR ''%'') = 37" "byte (CHR ''+'') = 43" "byte (CHR ''='') = 61" "byte (CHR ''&'') = 38" "byte (CHR '';'') = 59"
  by (simp_all add: byte_def)

lemma unreserved_not [simp]:
  "\<not> unreserved (CHR ''%'')" "\<not> unreserved (CHR ''+'')" "\<not> unreserved (CHR ''='')"
  "\<not> unreserved (CHR ''&'')" "\<not> unreserved (CHR '';'')"
  by (simp_all add: unreserved_def byte_CHR)

lemma QueryUnescape_escape_char:
  "QueryUnescape (escape_char c @ s) = map_option (\<lambda>r. c # r) (QueryUnescape s)"
proof -
  consider "unreserved c" | "\<not> unreserved c" "c = CHR '' ''" | "\<not> unreserved c" "c \<noteq> CHR '' ''" by blast
  then show ?thesis
  proof cases
    case 1
    then have "c \<noteq> CHR ''%''" "c \<noteq> CHR ''+''" by auto
    with 1 show ?thesis by (simp add: escape_char_def)
  next
    case 2
    then show ?thesis by (simp add: escape_char_def)
  next
    case 3
    have "byte c div 16 < 16" "byte c mod 16 < 16" using byte_less [of c] by auto
    moreover have "char_of (byte c) = c" by (simp add: byte_def)
    ultimately show ?thesis using 3 by (simp add: escape_char_def hex_upper)
  qed
qed

lemma QueryUnescape_QueryEscape: "QueryUnescape (QueryEscape s) = Some s"
  by (induction s) (simp_all add: QueryEscape_def QueryUnescape_escape_char)

lemma upper_hex_chars: "n < 16 \<Longrightarrow> unreserved (upper_hex n)"
  by (auto simp: upper_hex_def unreserved_def byte_def Let_def)

lemma QueryEscape_chars:
  "c \<in> set (QueryEscape s) \<Longrightarrow> unreserved c \<or> c = CHR ''+'' \<or> c = CHR ''%''"
proof -
  assume "c \<in> set (QueryEscape s)"
  then obtain d where "c \<in> set (escape_char d)" by (auto simp: QueryEscape_def)
  moreover have "byte d div 16 < 16" "byte d mod 16 < 16" using byte_less [of d] by auto
  ultimately show ?thesis using upper_hex_chars by (auto simp: escape_char_def split: if_splits)
qed

lemma json_chars_Nil [simp]: "json_chars [] = []"
  by (simp add: json_chars.simps)

lemma json_byte_unreserved:
  assumes "unreserved c"
  shows "json_byte c = [c]"
proof -
  have other: "c \<noteq> d" if "\<not> unreserved d" for d using assms that by auto
  have "c \<noteq> CHR 0x22" "c \<noteq> CHR 0x5C" "c \<noteq> CHR 0x0A" "c \<noteq> CHR 0x0D" "c \<noteq> CHR 0x09" "c \<noteq> CHR ''<''"
    "c \<noteq> CHR ''>''" "c \<noteq> CHR ''&''"
    by (rule other, code_simp)+
  moreover have "\<not> byte c < 32" using assms by (auto simp: unreserved_def Let_def)
  ultimately show ?thesis unfolding json_byte_def by (simp only: if_False simp_thms)
qed

lemma json_chars_unreserved: "\<forall>c \<in> set s. unreserved c \<Longrightarrow> json_chars s = s"
proof (induction s)
  case (Cons c s)
  then have c: "unreserved c" by simp
  then have small: "byte c < 128" by (auto simp: unreserved_def Let_def)
  then have "DecodeRune (c # s) = (byte c, 1)" by (intro DecodeRune_ascii) simp
  then have "json_chars (c # s) = json_byte c @ json_chars s"
    using small by (subst json_chars.simps) simp
  then show ?case using Cons json_byte_unreserved [OF c] by simp
qed simp

lemma URL_Query_escaped: "URL_Query (''host='' @ QueryEscape h) ''host'' = [h]"
proof -
  have plain: "CHR ''&'' \<notin> set (QueryEscape h)" "CHR '';'' \<notin> set (QueryEscape h)" "CHR ''='' \<notin> set (QueryEscape h)"
    using QueryEscape_chars [of "CHR ''&''" h] QueryEscape_chars [of "CHR '';''" h] QueryEscape_chars [of "CHR ''=''" h]
    by auto
  have "cut_at (CHR ''='') (''host='' @ QueryEscape h) = (''host'', QueryEscape h)"
    by (simp add: cut_at_def)
  moreover have "QueryUnescape ''host'' = Some ''host''" by code_simp
  ultimately have "query_pair (''host='' @ QueryEscape h) = Some (''host'', h)"
    using plain by (simp add: query_pair_def QueryUnescape_QueryEscape)
  moreover have "strings_Split (CHR ''&'') (''host='' @ QueryEscape h) = [''host='' @ QueryEscape h]"
    using plain by (intro strings_Split_notin) simp
  ultimately show ?thesis
    unfolding URL_Query_def by (simp add: map_filter_simps)
qed

section \<open>Properties\<close>

text \<open>
  C40. The handler answers every request in one of three ways: 400 when the query names no host,
  404 when the host has no instance, and otherwise 200 with the instance as JSON; it never answers
  500. A client that escapes the host it asks for is told that host's instance, and an identifier
  of letters, digits, \<open>-\<close>, \<open>.\<close>, \<open>_\<close> and \<open>~\<close> appears in the JSON as it is.
\<close>

theorem instance_handler_spec:
  "(URL_Query q ''host'' = [] \<longrightarrow> map_option fst (res_sent (NewHandler f q)) = Some 400) \<and>
   (\<forall>h hs. URL_Query q ''host'' = h # hs \<and> f h = '''' \<longrightarrow> map_option fst (res_sent (NewHandler f q)) = Some 404) \<and>
   (\<forall>h hs. URL_Query q ''host'' = h # hs \<and> f h \<noteq> '''' \<longrightarrow>
      res_sent (NewHandler f q) = Some (200, [(''Content-Type'', [''application/json''])]) \<and>
      Marshal (f h) = Ok (res_body (NewHandler f q))) \<and>
   (f host \<noteq> '''' \<and> (\<forall>c \<in> set (f host). unreserved c) \<longrightarrow>
      res_body (NewHandler f (''host='' @ QueryEscape host)) =
        ''{'' @ [CHR 0x22] @ ''instance_id'' @ [CHR 0x22] @ '':'' @ [CHR 0x22] @ f host @ [CHR 0x22] @ ''}'')"
proof (intro conjI allI impI)
  assume "f host \<noteq> '''' \<and> (\<forall>c \<in> set (f host). unreserved c)"
  then have "f host \<noteq> ''''" "json_chars (f host) = f host" using json_chars_unreserved by auto
  then show "res_body (NewHandler f (''host='' @ QueryEscape host)) =
      ''{'' @ [CHR 0x22] @ ''instance_id'' @ [CHR 0x22] @ '':'' @ [CHR 0x22] @ f host @ [CHR 0x22] @ ''}''"
    unfolding NewHandler_def URL_Query_escaped Let_def
    by (simp add: Marshal_def res_Write_def WriteHeader_def Header_Add_def empty_response_def)
qed (auto simp: NewHandler_def Let_def http_Error_def res_Write_def WriteHeader_def Header_Set_def
    Header_Add_def empty_response_def Marshal_def)

theorem instance_handler_spec_witness:
  "res_body (NewHandler (\<lambda>h. if h = ''10.0.0.1 a'' then ''i-1'' else '''') ''host=10.0.0.1+a'') =
     ''{'' @ [CHR 0x22] @ ''instance_id'' @ [CHR 0x22] @ '':'' @ [CHR 0x22] @ ''i-1'' @ [CHR 0x22] @ ''}''"
proof -
  have "QueryEscape ''10.0.0.1 a'' = ''10.0.0.1+a''" by code_simp
  moreover have "\<forall>c \<in> set ''i-1''. unreserved c" by code_simp
  ultimately show ?thesis
    using instance_handler_spec [of q "\<lambda>h. if h = ''10.0.0.1 a'' then ''i-1'' else ''''" "''10.0.0.1 a''" for q] by simp
qed

end
