(* ===== verification/Cli_Log.thy ===== *)
theory Cli_Log
  imports Go_OS Go_Utf8
begin

text \<open>
  \<open>src/log/cli_sink.go\<close> and \<open>src/log/logger.go\<close>: the sink that prints log entries for people,
  and the logger shared by the process. Standard output is the text written so far.
\<close>

section \<open>The code\<close>

text \<open>A value in the log data: a string, or anything else with the text that \<open>%s\<close> prints for it.\<close>

datatype any_value = Text string | Other string

record log_format =
  format_LogLevel :: int
  format_Message :: string
  format_Data :: "(string \<times> any_value) list option"  \<comment> \<open>\<open>None\<close> is the nil map\<close>

record cli_sink =
  writer :: string  \<comment> \<open>what has been written to it\<close>
  minLogLevel :: int

definition NewCliSink :: "int \<Rightarrow> cli_sink" where
  "NewCliSink minLevel = \<lparr>writer = '''', minLogLevel = minLevel\<rparr>"

definition splitLagerMessage :: "string \<Rightarrow> string" where
  "splitLagerMessage message =
     (let parts = strings_Split (CHR ''.'') message in parts ! (length parts - 1))"

text \<open>The verb \<open>%15s\<close>: at least 15 characters, filled with blanks on the left.\<close>

definition pad15 :: "string \<Rightarrow> string" where
  "pad15 s = replicate (15 - RuneCount s) (CHR '' '') @ s"

text \<open>The verb \<open>%s\<close> of an interface value, which may be nil.\<close>

definition print_value :: "any_value option \<Rightarrow> string" where
  "print_value v = (case v of None \<Rightarrow> ''%!s(<nil>)'' | Some (Text s) \<Rightarrow> s | Some (Other s) \<Rightarrow> s)"

definition prettify :: "string \<Rightarrow> any_value option \<Rightarrow> string" where
  "prettify message event = pad15 (splitLagerMessage message) @ '' -> '' @ print_value event"

definition CliSink_Log :: "log_format \<Rightarrow> cli_sink \<Rightarrow> cli_sink" where
  "CliSink_Log format s =
     (if format_LogLevel format < minLogLevel s then s
      else (case format_Data format of
              None \<Rightarrow> s
            | Some data \<Rightarrow>
                if format_Message format = '''' \<or> map_of data ''event'' = Some (Text '''') then s
                else s\<lparr>writer := writer s @ prettify (format_Message format) (map_of data ''event'') @ [CHR 0x0A]\<rparr>))"

text \<open>The package variable \<open>logger\<close> is set by the first call.\<close>

record lager_logger =
  logger_component :: string

definition Logger :: "lager_logger option \<Rightarrow> lager_logger \<times> lager_logger option" where
  "Logger logger =
     (case logger of
        None \<Rightarrow> (let l = \<lparr>logger_component = ''redis-broker''\<rparr> in (l, Some l))
      | Some l \<Rightarrow> (l, Some l))"

section \<open>Properties\<close>

lemma Split_last: "last (strings_Split c s) = rev (takeWhile (\<lambda>x. x \<noteq> c) (rev s))"
proof (cases "c \<in> set s")
  case True
  then obtain a b where s: "s = a @ c # b" "c \<notin> set b" using split_list_last by metis
  then have "takeWhile (\<lambda>x. x \<noteq> c) (rev b @ c # rev a) = rev b"
    by (subst takeWhile_append2) auto
  then show ?thesis using s by simp
next
  case False
  then have "takeWhile (\<lambda>x. x \<noteq> c) (rev s) = rev s" unfolding takeWhile_eq_all_conv by auto
  then show ?thesis using strings_Split_notin [OF False] by (metis last.simps rev_rev_ident)
qed

lemma splitLagerMessage_last: "splitLagerMessage m = rev (takeWhile (\<lambda>c. c \<noteq> CHR ''.'') (rev m))"
  unfolding splitLagerMessage_def Let_def Split_last [symmetric]
  by (simp add: last_conv_nth)

text \<open>
  The sink prints nothing or one line per entry: nothing for an entry below the level, without a
  message, without data or with an empty event, and otherwise the part of the message after its
  last dot, filled to 15 characters, an arrow and the event.
\<close>

theorem cli_sink_prints:
  "CliSink_Log f s =
     (if minLogLevel s \<le> format_LogLevel f \<and> format_Message f \<noteq> '''' \<and>
         (\<exists>data. format_Data f = Some data \<and> map_of data ''event'' \<noteq> Some (Text ''''))
      then s\<lparr>writer := writer s @ pad15 (rev (takeWhile (\<lambda>c. c \<noteq> CHR ''.'') (rev (format_Message f)))) @
             '' -> '' @ print_value (map_of (the (format_Data f)) ''event'') @ [CHR 0x0A]\<rparr>
      else s)"
  by (cases "format_Data f") (auto simp: CliSink_Log_def prettify_def splitLagerMessage_last)

lemma RuneCount_blanks: "RuneCount (replicate n (CHR '' '') @ s) = n + RuneCount s"
proof (induction n)
  case (Suc n)
  have "DecodeRune (CHR '' '' # replicate n (CHR '' '') @ s) = (32, 1)"
    using DecodeRune_ascii [of "CHR '' ''"] by (simp add: byte_def)
  then show ?case using Suc by (simp add: RuneCount.simps [of "CHR '' '' # replicate n (CHR '' '') @ s"])
qed simp

lemma pad15_width: "RuneCount (pad15 s) = max 15 (RuneCount s)"
  by (simp add: pad15_def RuneCount_blanks)

text \<open>The logger is made once: every later call returns the first one.\<close>

lemma Logger_once: "Logger (snd (Logger l)) = (fst (Logger l), snd (Logger l))"
  by (auto simp: Logger_def Let_def split: option.splits)

end
