(* ===== verification/Spec2Isabelle.thy ===== *)
theory Spec2Isabelle
  imports Broker_Server Concurrent_Requests Config_Migrator Creation_Race Resetter Recovery Instance_Info Cli_Log
begin

text \<open>
  \<^bold>\<open>Verification of cf-redis-broker\<close>, the Cloud Foundry service broker that hosts shared Redis
  instances on one machine, and of the tools that go with it.

  \<^bold>\<open>The program.\<close> The broker (\<open>src/cmd/broker\<close>) receives the requests of Cloud Foundry through the
  brokerapi library, which calls the handlers of \<open>src/broker/broker.go\<close>. The handlers use instance
  creators and binders; for the shared plan these are \<open>redis.LocalInstanceCreator\<close> and
  \<open>redis.LocalRepository\<close>. An instance is a set of directories and files made by the repository and
  one \<open>redis-server\<close> process run by \<open>redis.OSProcessController\<close>. The process monitor
  (\<open>src/cmd/processmonitor\<close>) is a second process that works on the same directories: it restarts
  instances that are down, except those with a lock file, which the broker holds while it creates or
  destroys an instance. The configuration migrator runs once after an upgrade. The resetter, the
  backup tasks, the S3 client, the instance lookup handler and the log sink are libraries used by
  the deployment's other executables.

  \<^bold>\<open>The model.\<close> A Go function with an error result returns a value of type \<open>'a res\<close>: \<open>Ok\<close>, \<open>Err\<close>
  with an error value, or \<open>Panic\<close>. Code with effects takes a machine and returns the new one
  (\<open>world\<close>: a tree of files, the live processes, the log). The kernel may refuse any operation on
  any object: the field \<open>refuses\<close> of the machine says which, so every error branch is reached for
  some machine. Code outside the repository is an argument or a field of a record: the YAML decoder,
  random numbers, memory size, running commands, dialling, sleeping, Monit, the S3 requests.

  \<^item> \<open>Prelude\<close>: outcomes, errors, sequencing, shared lemmas and the collections of simp rules.
  \<^item> \<open>Go_Strings\<close>, \<open>Go_Utf8\<close>, \<open>Go_Paths\<close>, \<open>Go_OS\<close>: what the code uses of Go's standard library:
    splitting, trimming, numbers, line scanning, runes, path cleaning, file system calls, logging.
  \<^item> \<open>Redis_Conf\<close> (\<open>src/redisconf/redisconf.go\<close>): parsing, printing, lookup, update, files. The parser
    equals a reference parser; saving and loading is a round trip; exactly when aliases panic; what
    \<open>CopyWithInstanceAdditions\<close> writes. The locales \<open>settings\<close>, \<open>codec\<close>, \<open>text_store\<close> and
    \<open>coded_store\<close> state the contracts of update, coding and storage, and are interpreted on these
    definitions.
  \<^item> \<open>Broker_Config\<close> (\<open>src/brokerconfig/config.go\<close>): when a configuration is accepted.
  \<^item> \<open>Service_Broker\<close> (\<open>src/broker/broker.go\<close>): the handlers over any creators and binders; the locale
    \<open>instance_host\<close> gives the refinement of an abstract service: a set of instances, changed by
    requests.
  \<^item> \<open>Local_Repository\<close> (\<open>src/redis/local_repository.go\<close>, \<open>instance.go\<close>): instances as files. What \<open>Setup\<close>
    makes is found again, \<open>Delete\<close> removes it, one instance's operations leave the others alone, and
    listing partitions the directory.
  \<^item> \<open>Process_Controller\<close> (\<open>src/redis/process_controller.go\<close>, \<open>src/process\<close>, \<open>src/availability\<close>,
    \<open>src/system\<close>): signals, polling with 64-bit durations, start, kill and ensure-running.
  \<^item> \<open>Instance_Creator\<close> (\<open>src/redis/local_instance_creator.go\<close>): create and destroy over any
    repository and controller; the locale \<open>hosted_repository\<close> states what they rely on and is a
    sublocale of the broker's host contract.
  \<^item> \<open>Shared_Broker\<close> (\<open>src/cmd/broker/main.go\<close>): the parts wired together, and the interpretation of
    the contracts on them: the running broker refines the abstract service, keeps the instance limit,
    and binds, destroys and fails as stated there.
  \<^item> \<open>Broker_Server\<close> (\<open>src/cmd/broker/main.go\<close>): the process from its start to \<open>SIGTERM\<close> or a failing
    listener, and any number of restarts: together they are still one run of the abstract service.
  \<^item> \<open>Concurrent_Requests\<close>: the same calls of \<open>Create\<close> and \<open>Destroy\<close>, cut at every call of the repository
    and the controller, under any interleaving of the server's handlers. A call alone is the
    sequential function; the locale \<open>concurrent_repository\<close> bounds how far the instance limit can be
    exceeded, and the bound is reached.
  \<^item> \<open>Config_Migrator\<close> (\<open>src/configmigrator\<close>, \<open>src/cmd/configmigrator\<close>): ports and passwords move into
    every instance's configuration.
  \<^item> \<open>Process_Monitor\<close> (\<open>src/cmd/processmonitor/main.go\<close>): rounds of the monitor, and its interleavings
    with the steps of \<open>Destroy\<close>.
  \<^item> \<open>Creation_Race\<close>: the steps of \<open>Create\<close> and \<open>Setup\<close> against the steps of the monitor and arbitrary
    changes of other instances, as one step relation. The lock and the order of \<open>Setup\<close> keep the monitor
    away from a new instance until \<open>Create\<close> has succeeded; the monitor's start-up can bring a destroyed
    instance back.
  \<^item> \<open>Redis_Client\<close> (\<open>src/redis/client/client.go\<close>, \<open>PingServer\<close>): replies, aliases, waiting, connections.
  \<^item> \<open>Resetter\<close> (\<open>src/resetter/resetter.go\<close>): recycling a dedicated Redis.
  \<^item> \<open>S3_Storage\<close> (\<open>src/s3\<close>) and \<open>Recovery\<close> (\<open>src/recovery/task\<close>, \<open>src/utils/files.go\<close>): uploads, the
    masking of secrets, pipelines of tasks, renaming and moving files. The locale \<open>task_effects\<close> shows
    that a pipeline keeps what its tasks keep.
  \<^item> \<open>Instance_Info\<close> (\<open>src/redisinstance\<close>) and \<open>Cli_Log\<close> (\<open>src/log\<close>).

  \<^bold>\<open>Loops and bounds.\<close> Loops over lists are structural recursions. The two polling loops count in
  64-bit signed integers as Go does and are partial functions whose value \<open>None\<close> would mean that they
  do not end; they are shown to return for every timeout that leaves one step below \<open>2 ^ 63\<close>. The
  endless loop of the monitor and the \<open>select\<close> of \<open>WaitForNewSaveSince\<close> take the list of the rounds or
  events that happen, of any length.

  \<^bold>\<open>Interleaving.\<close> The properties of \<open>Shared_Broker\<close> are about requests served one after the other.
  \<open>Concurrent_Requests\<close> interleaves requests, and \<open>Process_Monitor\<close> and \<open>Creation_Race\<close> interleave the
  monitor with a \<open>Destroy\<close> and a \<open>Create\<close>; one operation of the repository or of the controller is one
  step.

  \<^bold>\<open>Not modelled.\<close> The HTTP server and brokerapi's routes and authentication, which are third-party code;
  symbolic links, users and file ownership; the interface of
  \<open>src/recovery/recovery.go\<close>, which nothing uses; the generated test doubles under \<open>fakes\<close> and the
  helpers of the integration tests, which are code of the tests; the vendored libraries.
\<close>

end
